(* ===== verification/Prelude.thy ===== *)
theory Prelude
  imports Main
begin

text \<open>
  Shared vocabulary of the development: the error monad used for Python exceptions
  (\<open>'e + 'a\<close>, \<open>Inl\<close> the exception), its bind, the named collections of equations the
  component theories fill, and generic lemmas on lists, options and maps that the
  component proofs use through \<open>simp add:\<close>.
\<close>

named_theorems step_simps \<open>equations of the strategy step functions, unfolded by the system proofs\<close>
named_theorems contract_intros \<open>lifecycle-contract facts of the individual strategies\<close>

subsection \<open>Python exceptions as a sum monad\<close>

definition sbind :: "'e + 'a \<Rightarrow> ('a \<Rightarrow> 'e + 'b) \<Rightarrow> 'e + 'b" where
  "sbind x f = (case x of Inl e \<Rightarrow> Inl e | Inr a \<Rightarrow> f a)"

lemma sbind_Inl [simp]: "sbind (Inl e) f = Inl e"
  by (simp add: sbind_def)

lemma sbind_Inr [simp]: "sbind (Inr a) f = f a"
  by (simp add: sbind_def)

lemma sbind_return [simp]: "sbind x Inr = x"
  by (cases x) simp_all

lemma sbind_eq_Inr_iff [simp]:
  "sbind x f = Inr b \<longleftrightarrow> (\<exists>a. x = Inr a \<and> f a = Inr b)"
  by (cases x) auto

lemma sbind_eq_Inl_iff:
  "sbind x f = Inl e \<longleftrightarrow> x = Inl e \<or> (\<exists>a. x = Inr a \<and> f a = Inl e)"
  by (cases x) auto

text \<open>\<open>mapM\<close> in the sum monad: the first exception of a list comprehension wins.\<close>

fun smap :: "('a \<Rightarrow> 'e + 'b) \<Rightarrow> 'a list \<Rightarrow> 'e + 'b list" where
  "smap f [] = Inr []"
| "smap f (x # xs) = sbind (f x) (\<lambda>y. sbind (smap f xs) (\<lambda>ys. Inr (y # ys)))"

lemma smap_Inr_length: "smap f xs = Inr ys \<Longrightarrow> length ys = length xs"
  by (induction xs arbitrary: ys) auto

lemma smap_Inr_nth:
  "smap f xs = Inr ys \<Longrightarrow> i < length xs \<Longrightarrow> f (xs ! i) = Inr (ys ! i)"
proof (induction xs arbitrary: ys i)
  case Nil
  then show ?case by simp
next
  case (Cons x xs)
  then obtain y ys' where "f x = Inr y" "smap f xs = Inr ys'" "ys = y # ys'"
    by auto
  with Cons show ?case by (cases i) auto
qed

text \<open>Decoding each element of an encoded list gives it back, so decoding the list
  does (the round-trip law lifted to lists).\<close>

lemma smap_map_inverse: "(\<forall>x\<in>set xs. f (g x) = Inr x) \<Longrightarrow> smap f (map g xs) = Inr xs"
  by (induction xs) auto

subsection \<open>Options\<close>

lemma bind_eq_Some_conv': "Option.bind x f = Some y \<longleftrightarrow> (\<exists>a. x = Some a \<and> f a = Some y)"
  by (cases x) auto

subsection \<open>Lists: filtering a concatenation\<close>

lemma filter_empty_if_none:
  "(\<forall>x\<in>set xs. \<not> P x) \<Longrightarrow> filter P xs = []"
  by (simp add: filter_empty_conv)

lemma set_take_drop_Suc:
  assumes d: "distinct xs" and i: "i < length xs"
  shows "set (take i xs @ drop (Suc i) xs) = set xs - {xs ! i}"
proof -
  have eq: "take i xs @ xs ! i # drop (Suc i) xs = xs"
    using i by (rule id_take_nth_drop [symmetric])
  from d have "distinct (take i xs @ xs ! i # drop (Suc i) xs)" by (simp only: eq)
  then have "xs ! i \<notin> set (take i xs)" and "xs ! i \<notin> set (drop (Suc i) xs)" by auto
  moreover have "set xs = set (take i xs) \<union> {xs ! i} \<union> set (drop (Suc i) xs)"
    by (metis eq Un_insert_right insert_is_Un set_append list.set(2) sup_commute)
  ultimately show ?thesis by auto
qed

lemma distinct_take_drop_Suc:
  assumes d: "distinct xs"
  shows "distinct (take i xs @ drop (Suc i) xs)"
proof -
  have "set (take i xs) \<inter> set (drop (Suc i) xs) = {}"
    using d by (rule set_take_disj_set_drop_if_distinct) simp
  with d show ?thesis by simp
qed

end
