(* ===== verification/Messages.thy ===== *)
theory Messages
  imports Prelude
begin

text \<open>
  The data the node exchanges with the rest of the system: configuration values as the
  YAML loader hands them to Python (\<open>yval\<close>), with Python's dictionary indexing and
  iteration (\<open>dict_get\<close>, \<open>py_iter\<close>); the ROS messages \<open>ActionDispatch\<close> and
  \<open>ActionFeedback\<close> of \<open>rosplan_dispatch_msgs\<close>; and the observable events of the node:
  feedback publications, knowledge-base effect requests and remote calls. Every
  behaviour the later theories prove is a statement about lists of these events.
\<close>

subsection \<open>Configuration values and Python's dictionary protocol\<close>

datatype yval =
    YStr string
  | YInt int
  | YBool bool
  | YSeq "yval list"
  | YDict "(string \<times> yval) list"

datatype py_error =
    KeyError string
  | TypeError string
  | ValueError string

text \<open>\<open>d[k]\<close>: a missing key raises \<open>KeyError\<close>; indexing a value that is not a
  dictionary by a string raises \<open>TypeError\<close>.\<close>

fun dict_get :: "yval \<Rightarrow> string \<Rightarrow> py_error + yval" where
  "dict_get (YDict kvs) k = (case map_of kvs k of None \<Rightarrow> Inl (KeyError k) | Some v \<Rightarrow> Inr v)"
| "dict_get _ k = Inl (TypeError k)"

text \<open>\<open>d.get(k)\<close> on a dictionary: \<open>None\<close> for a missing key.\<close>

fun dict_opt :: "yval \<Rightarrow> string \<Rightarrow> yval option" where
  "dict_opt (YDict kvs) k = map_of kvs k"
| "dict_opt _ k = None"

text \<open>\<open>for x in v\<close>: a list yields its items, a dictionary its keys, a string its
  one-character strings; numbers and booleans are not iterable.\<close>

fun py_iter :: "yval \<Rightarrow> py_error + yval list" where
  "py_iter (YSeq xs) = Inr xs"
| "py_iter (YDict kvs) = Inr (map (\<lambda>kv. YStr (fst kv)) kvs)"
| "py_iter (YStr s) = Inr (map (\<lambda>c. YStr [c]) s)"
| "py_iter (YInt i) = Inl (TypeError ''int'')"
| "py_iter (YBool b) = Inl (TypeError ''bool'')"

text \<open>A value used as a string (a topic, a name): anything else is a \<open>TypeError\<close>.\<close>

fun py_str :: "yval \<Rightarrow> py_error + string" where
  "py_str (YStr s) = Inr s"
| "py_str _ = Inl (TypeError ''str'')"

subsection \<open>ROS messages\<close>

record action_dispatch =
  action_id :: int
  plan_id :: int
  name :: string
  parameters :: "(string \<times> string) list"

datatype fb_status =
    ACTION_DISPATCHED_TO_GOAL_STATE
  | ACTION_ENABLED
  | ACTION_SUCCEEDED_TO_GOAL_STATE
  | ACTION_FAILED
  | ACTION_PROGRESS string

record action_feedback =
  fb_action_id :: int
  fb_plan_id :: int
  status :: fb_status

text \<open>A dispatched action instance is identified by its plan and action ids.\<close>

type_synonym key = "int \<times> int"

definition msg_key :: "action_dispatch \<Rightarrow> key" where
  "msg_key m = (plan_id m, action_id m)"

definition fb_key :: "action_feedback \<Rightarrow> key" where
  "fb_key fb = (fb_plan_id fb, fb_action_id fb)"

text \<open>The feedback message of \<open>dispatch_callback\<close> (and of every strategy): the ids
  copied from the dispatch message, and a status.\<close>

definition mk_feedback :: "action_dispatch \<Rightarrow> fb_status \<Rightarrow> action_feedback" where
  "mk_feedback m st = \<lparr>fb_action_id = action_id m, fb_plan_id = plan_id m, status = st\<rparr>"

lemma fb_key_mk_feedback [simp]: "fb_key (mk_feedback m st) = msg_key m"
  by (simp add: fb_key_def mk_feedback_def msg_key_def)

lemma status_mk_feedback [simp]: "status (mk_feedback m st) = st"
  by (simp add: mk_feedback_def)

subsection \<open>Observable events\<close>

text \<open>
  What the node does to the outside world, in order: publishing on the feedback topic,
  asking the knowledge base to apply an action's effects (index 0: start effects,
  index 1: end effects, \<open>RPKnowledgeBaseLink.kb_apply_action_effects\<close>), and the remote
  requests of the strategies.
\<close>

datatype event =
    Publish action_feedback
  | KbApply action_dispatch nat
  | SendGoal action_dispatch string
  | CancelGoal action_dispatch string
  | CallService action_dispatch string

fun ev_key :: "event \<Rightarrow> key" where
  "ev_key (Publish fb) = fb_key fb"
| "ev_key (KbApply m i) = msg_key m"
| "ev_key (SendGoal m s) = msg_key m"
| "ev_key (CancelGoal m s) = msg_key m"
| "ev_key (CallService m s) = msg_key m"

text \<open>The events of one action instance, in the order they happened.\<close>

definition proj :: "key \<Rightarrow> event list \<Rightarrow> event list" where
  "proj k evs = filter (\<lambda>e. ev_key e = k) evs"

lemma proj_Nil [simp]: "proj k [] = []"
  by (simp add: proj_def)

lemma proj_append [simp]: "proj k (xs @ ys) = proj k xs @ proj k ys"
  by (simp add: proj_def)

lemma proj_Cons [simp]: "proj k (e # es) = (if ev_key e = k then e # proj k es else proj k es)"
  by (simp add: proj_def)

lemma proj_all_same_key: "\<forall>e\<in>set evs. ev_key e = k \<Longrightarrow> proj k evs = evs"
  by (simp add: proj_def)

lemma proj_other_key: "\<forall>e\<in>set evs. ev_key e = k' \<Longrightarrow> k \<noteq> k' \<Longrightarrow> proj k evs = []"
  by (auto simp add: proj_def filter_empty_conv)

definition is_terminal :: "event \<Rightarrow> bool" where
  "is_terminal e = (case e of
     Publish fb \<Rightarrow> status fb = ACTION_SUCCEEDED_TO_GOAL_STATE \<or> status fb = ACTION_FAILED
   | _ \<Rightarrow> False)"

end
