(* ===== verification/Lifecycle.thy ===== *)
theory Lifecycle
  imports Messages
begin

text \<open>
  The abstract specification every execution path must meet (spec sections 3, 4.3, 5
  and 8): the events of one dispatched action instance are the DISPATCHED feedback,
  the start-effect request (index 0), any number of non-terminal events, and exactly
  one terminal feedback; SUCCEEDED is preceded by the end-effect request (index 1),
  FAILED is not. The contract is an executable automaton over events (\<open>lc_step\<close>);
  \<open>lc_run\<close> runs it over a list and is \<open>None\<close> at the first event the contract forbids.
\<close>

datatype lc = Idle | Dispatched | Running | Effected | Done

fun lc_step :: "lc \<Rightarrow> event \<Rightarrow> lc option" where
  "lc_step Idle (Publish fb) =
     (if status fb = ACTION_DISPATCHED_TO_GOAL_STATE then Some Dispatched else None)"
| "lc_step Dispatched (KbApply m i) = (if i = 0 then Some Running else None)"
| "lc_step Running (Publish fb) =
     (case status fb of
        ACTION_FAILED \<Rightarrow> Some Done
      | ACTION_SUCCEEDED_TO_GOAL_STATE \<Rightarrow> None
      | ACTION_DISPATCHED_TO_GOAL_STATE \<Rightarrow> None
      | _ \<Rightarrow> Some Running)"
| "lc_step Running (KbApply m i) = (if i = 1 then Some Effected else None)"
| "lc_step Running (SendGoal m s) = Some Running"
| "lc_step Running (CancelGoal m s) = Some Running"
| "lc_step Running (CallService m s) = Some Running"
| "lc_step Effected (Publish fb) =
     (if status fb = ACTION_SUCCEEDED_TO_GOAL_STATE then Some Done else None)"
| "lc_step _ _ = None"

fun lc_run :: "lc \<Rightarrow> event list \<Rightarrow> lc option" where
  "lc_run s [] = Some s"
| "lc_run s (e # es) = (case lc_step s e of None \<Rightarrow> None | Some s' \<Rightarrow> lc_run s' es)"

definition lifecycle_prefix :: "event list \<Rightarrow> bool" where
  "lifecycle_prefix evs = (lc_run Idle evs \<noteq> None)"

definition lifecycle_complete :: "event list \<Rightarrow> bool" where
  "lifecycle_complete evs = (lc_run Idle evs = Some Done)"

text \<open>A strategy's own events, from the moment it is started until it returns, meet
  the contract when they lead the automaton from \<open>Running\<close> to \<open>Done\<close>.\<close>

definition strategy_ok :: "event list \<Rightarrow> bool" where
  "strategy_ok evs = (lc_run Running evs = Some Done)"

subsection \<open>Running the automaton\<close>

lemma lc_run_append:
  "lc_run s (xs @ ys) = Option.bind (lc_run s xs) (\<lambda>s'. lc_run s' ys)"
  by (induction xs arbitrary: s) (auto split: option.split)

lemma lc_run_snoc:
  "lc_run s (xs @ [e]) = Option.bind (lc_run s xs) (\<lambda>s'. lc_step s' e)"
  by (cases "lc_run s xs") (auto simp: lc_run_append split: option.split)

lemma lc_run_append_Some:
  "lc_run s xs = Some s' \<Longrightarrow> lc_run s (xs @ ys) = lc_run s' ys"
  by (simp add: lc_run_append)

lemma lc_step_Done [simp]: "lc_step Done e = None"
  by (cases e) simp_all

lemma lc_run_Done: "lc_run Done evs = Some s \<longleftrightarrow> evs = [] \<and> s = Done"
  by (cases evs) auto

text \<open>A DISPATCHED feedback is accepted only at the very start of a lifecycle.\<close>

lemma lc_step_dispatched:
  "status fb = ACTION_DISPATCHED_TO_GOAL_STATE \<Longrightarrow>
     lc_step s (Publish fb) = (if s = Idle then Some Dispatched else None)"
  by (cases s) auto

text \<open>One step reaches \<open>Done\<close> exactly on a terminal feedback.\<close>

lemma lc_step_terminal:
  "lc_step s e = Some s' \<Longrightarrow> is_terminal e \<longleftrightarrow> s' = Done"
  by (cases s; cases e) (auto simp: is_terminal_def split: if_splits fb_status.splits)

lemma lc_run_terminal_count:
  "lc_run s evs = Some s' \<Longrightarrow>
     length (filter is_terminal evs) + (if s = Done then 1 else 0) = (if s' = Done then 1 else 0)"
proof (induction evs arbitrary: s)
  case Nil
  then show ?case by simp
next
  case (Cons e es)
  then obtain t where t: "lc_step s e = Some t" and rest: "lc_run t es = Some s'"
    by (auto split: option.splits)
  from t have "s \<noteq> Done" by auto
  with Cons.IH [OF rest] lc_step_terminal [OF t] show ?case
    by (auto split: if_splits)
qed

text \<open>The automaton accepts a prefix-closed set: every prefix of an accepted run is
  accepted.\<close>

lemma lc_run_prefix:
  "lc_run s (xs @ ys) \<noteq> None \<Longrightarrow> lc_run s xs \<noteq> None"
  by (cases "lc_run s xs") (auto simp: lc_run_append)

subsection \<open>The shape of a complete lifecycle\<close>

lemma lc_run_Done_shape:
  "lc_run s evs = Some Done \<Longrightarrow> s \<noteq> Done \<Longrightarrow>
     \<exists>mid fin. evs = mid @ [fin] \<and> is_terminal fin \<and> (\<forall>e\<in>set mid. \<not> is_terminal e)"
proof -
  assume run: "lc_run s evs = Some Done" and s: "s \<noteq> Done"
  with run have "evs \<noteq> []" by auto
  then obtain mid fin where evs: "evs = mid @ [fin]"
    by (metis rev_exhaust)
  from run evs obtain t where t: "lc_run s mid = Some t" and fin: "lc_step t fin = Some Done"
    by (auto simp: lc_run_snoc bind_eq_Some_conv)
  from fin have "is_terminal fin" by (rule lc_step_terminal [THEN iffD2]) simp
  moreover from fin have "t \<noteq> Done" by auto
  with s lc_run_terminal_count [OF t] have "filter is_terminal mid = []" by simp
  then have "\<forall>e\<in>set mid. \<not> is_terminal e" by (simp add: filter_empty_conv)
  ultimately show ?thesis using evs by blast
qed

lemma lifecycle_complete_iff_strategy_ok:
  "lifecycle_complete (Publish (mk_feedback m ACTION_DISPATCHED_TO_GOAL_STATE) # KbApply m 0 # evs)
     \<longleftrightarrow> strategy_ok evs"
  by (simp add: lifecycle_complete_def strategy_ok_def)

end
