(* ===== verification/Strategy.thy ===== *)
theory Strategy
  imports Lifecycle
begin

text \<open>
  The \<open>ExecutionStrategy\<close> contract (spec 4.3, \<open>BaseActionInterface.run\<close>): a strategy
  is a step function over its own execution state; each step emits a chunk of events and
  either continues in a new state or returns. \<open>drive\<close> is the loop that runs a strategy
  until it returns; it is a \<^theory_text>\<open>partial_function\<close> in the \<open>option\<close> monad because the
  state-machine strategy may cycle for ever (\<open>None\<close>: \<open>run\<close> never returns).
  \<open>drive_fuel\<close> is the same loop bounded by a number of steps; the two agree
  (\<open>drive_fuel_sound\<close>, \<open>drive_Some_fuel\<close>). The two lemmas every strategy discharges
  are stated here once, over the strategy's state type: a step contract gives
  \<open>strategy_ok\<close> for the whole run (\<open>drive_strategy_ok\<close>), and a measure that every
  step decreases gives termination (\<open>drive_terminates\<close>).
\<close>

type_synonym 's stepper = "'s \<Rightarrow> event list \<times> 's option"

partial_function (option) drive :: "'s stepper \<Rightarrow> 's \<Rightarrow> event list option" where
  "drive step s =
     (case step s of
        (evs, None) \<Rightarrow> Some evs
      | (evs, Some s') \<Rightarrow> Option.bind (drive step s') (\<lambda>r. Some (evs @ r)))"

fun drive_fuel :: "nat \<Rightarrow> 's stepper \<Rightarrow> 's \<Rightarrow> event list option" where
  "drive_fuel 0 step s = None"
| "drive_fuel (Suc n) step s =
     (case step s of
        (evs, None) \<Rightarrow> Some evs
      | (evs, Some s') \<Rightarrow> Option.bind (drive_fuel n step s') (\<lambda>r. Some (evs @ r)))"

lemma drive_fuel_stop: "step s = (evs, None) \<Longrightarrow> drive_fuel (Suc n) step s = Some evs"
  by simp

lemma drive_fuel_continue:
  "step s = (evs, Some s') \<Longrightarrow> drive_fuel (Suc n) step s = map_option (\<lambda>r. evs @ r) (drive_fuel n step s')"
  by (cases "drive_fuel n step s'") auto

subsection \<open>The fuel-bounded loop and the unbounded one agree\<close>

lemma drive_fuel_sound:
  "drive_fuel n step s = Some r \<Longrightarrow> drive step s = Some r"
proof (induction n arbitrary: s r)
  case 0
  then show ?case by simp
next
  case (Suc n)
  show ?case
  proof (cases "step s")
    case (Pair evs nxt)
    with Suc show ?thesis
      by (cases nxt) (auto simp: drive.simps [of step s] bind_eq_Some_conv)
  qed
qed

lemma drive_fuel_mono:
  "drive_fuel n step s = Some r \<Longrightarrow> n \<le> m \<Longrightarrow> drive_fuel m step s = Some r"
proof (induction n arbitrary: m s r)
  case 0
  then show ?case by simp
next
  case (Suc n)
  from Suc.prems(2) obtain m' where m: "m = Suc m'" and le: "n \<le> m'"
    by (cases m) auto
  show ?case
  proof (cases "step s")
    case (Pair evs nxt)
    show ?thesis
    proof (cases nxt)
      case None
      with Pair Suc.prems(1) m show ?thesis by simp
    next
      case (Some s')
      with Pair Suc.prems(1) obtain r' where r': "drive_fuel n step s' = Some r'"
        and r: "r = evs @ r'"
        by (auto simp: bind_eq_Some_conv)
      from Suc.IH [OF r' le] have "drive_fuel m' step s' = Some r'" .
      with Pair Some m r show ?thesis by simp
    qed
  qed
qed

lemma drive_Some_fuel:
  assumes "drive step s = Some r"
  shows "\<exists>n. drive_fuel n step s = Some r"
proof (rule drive.raw_induct [where P = "\<lambda>step s r. \<exists>n. drive_fuel n step s = Some r", OF _ assms])
  fix dr :: "'a stepper \<Rightarrow> 'a \<Rightarrow> event list option" and step s r
  assume IH: "\<And>step s r. dr step s = Some r \<Longrightarrow> \<exists>n. drive_fuel n step s = Some r"
    and eq: "(case step s of (evs, None) \<Rightarrow> Some evs
              | (evs, Some s') \<Rightarrow> Option.bind (dr step s') (\<lambda>r. Some (evs @ r))) = Some r"
  show "\<exists>n. drive_fuel n step s = Some r"
  proof (cases "step s")
    case (Pair evs nxt)
    show ?thesis
    proof (cases nxt)
      case None
      with Pair eq have "drive_fuel 1 step s = Some r" by simp
      then show ?thesis ..
    next
      case (Some s')
      with Pair eq obtain r' where r': "dr step s' = Some r'" and r: "r = evs @ r'"
        by (auto simp: bind_eq_Some_conv)
      from IH [OF r'] obtain n where "drive_fuel n step s' = Some r'" ..
      with Pair Some r have "drive_fuel (Suc n) step s = Some r" by simp
      then show ?thesis ..
    qed
  qed
qed

lemma drive_None_if_no_fuel:
  "(\<And>n. drive_fuel n step s = None) \<Longrightarrow> drive step s = None"
  by (metis drive_Some_fuel not_None_eq)

text \<open>A run that never returns keeps running: its next step continues, and the rest
  never returns either.\<close>

lemma drive_None_step:
  assumes "drive step s = None" and "step s = (evs, nxt)"
  shows "\<exists>s'. nxt = Some s' \<and> drive step s' = None"
proof (cases nxt)
  case None
  with assms show ?thesis by (simp add: drive.simps [of step s])
next
  case (Some s')
  with assms have "Option.bind (drive step s') (\<lambda>r. Some (evs @ r)) = None"
    by (simp add: drive.simps [of step s])
  with Some show ?thesis by (cases "drive step s'") auto
qed

subsection \<open>The two interface lemmas\<close>

text \<open>A strategy meets the lifecycle contract when, from every state satisfying its
  invariant \<open>P\<close>, a continuing step emits non-terminal events (the automaton stays in
  \<open>Running\<close>) and keeps \<open>P\<close>, and a returning step finishes the lifecycle.\<close>

definition chunk_ok :: "('s \<Rightarrow> bool) \<Rightarrow> event list \<times> 's option \<Rightarrow> bool" where
  "chunk_ok P c =
     (case c of
        (evs, None) \<Rightarrow> lc_run Running evs = Some Done
      | (evs, Some s') \<Rightarrow> lc_run Running evs = Some Running \<and> P s')"

definition step_contract :: "('s \<Rightarrow> bool) \<Rightarrow> 's stepper \<Rightarrow> bool" where
  "step_contract P step = (\<forall>s. P s \<longrightarrow> chunk_ok P (step s))"

lemma step_contractI: "(\<And>s. P s \<Longrightarrow> chunk_ok P (step s)) \<Longrightarrow> step_contract P step"
  by (simp add: step_contract_def)

lemma drive_fuel_strategy_ok:
  "step_contract P step \<Longrightarrow> P s \<Longrightarrow> drive_fuel n step s = Some r \<Longrightarrow> strategy_ok r"
proof (induction n arbitrary: s r)
  case 0
  then show ?case by simp
next
  case (Suc n)
  show ?case
  proof (cases "step s")
    case (Pair evs nxt)
    with Suc.prems(1,2) have c: "case nxt of None \<Rightarrow> lc_run Running evs = Some Done
       | Some s' \<Rightarrow> lc_run Running evs = Some Running \<and> P s'"
      by (auto simp: step_contract_def chunk_ok_def split: option.splits)
    show ?thesis
    proof (cases nxt)
      case None
      with Pair Suc.prems(3) c show ?thesis by (simp add: strategy_ok_def)
    next
      case (Some s')
      with Pair Suc.prems(3) obtain r' where r': "drive_fuel n step s' = Some r'"
        and r: "r = evs @ r'"
        by (auto simp: bind_eq_Some_conv)
      from Some c have run: "lc_run Running evs = Some Running" and P: "P s'" by auto
      from Suc.IH [OF Suc.prems(1) P r'] have "strategy_ok r'" .
      with run r show ?thesis by (simp add: strategy_ok_def lc_run_append_Some)
    qed
  qed
qed

lemma drive_strategy_ok:
  "step_contract P step \<Longrightarrow> P s \<Longrightarrow> drive step s = Some r \<Longrightarrow> strategy_ok r"
  by (blast dest: drive_Some_fuel intro: drive_fuel_strategy_ok)

text \<open>A property of every emitted event that each step guarantees holds of the
  whole run.\<close>

lemma drive_fuel_events:
  assumes ev: "\<And>s evs nxt. step s = (evs, nxt) \<Longrightarrow> \<forall>e\<in>set evs. Q e"
  shows "drive_fuel n step s = Some r \<Longrightarrow> \<forall>e\<in>set r. Q e"
proof (induction n arbitrary: s r)
  case 0
  then show ?case by simp
next
  case (Suc n)
  show ?case
  proof (cases "step s")
    case (Pair evs nxt)
    then have evs: "\<forall>e\<in>set evs. Q e" by (rule ev)
    show ?thesis
    proof (cases nxt)
      case None
      with Pair Suc.prems evs show ?thesis by simp
    next
      case (Some s')
      with Pair Suc.prems obtain r' where r': "drive_fuel n step s' = Some r'"
        and r: "r = evs @ r'"
        by (auto simp: bind_eq_Some_conv)
      from Suc.IH [OF r'] evs r show ?thesis by auto
    qed
  qed
qed

lemma drive_events:
  assumes ev: "\<And>s evs nxt. step s = (evs, nxt) \<Longrightarrow> \<forall>e\<in>set evs. Q e"
    and dr: "drive step s = Some r"
  shows "\<forall>e\<in>set r. Q e"
proof -
  from dr obtain n where "drive_fuel n step s = Some r" by (blast dest: drive_Some_fuel)
  with ev show ?thesis by (rule drive_fuel_events)
qed

text \<open>Running a strategy through an injection of its state into a larger state type
  (the common state of all strategies) changes neither its events nor its contract.\<close>

lemma drive_fuel_map:
  assumes "\<And>s. L (f s) = map_prod id (map_option f) (step s)"
  shows "drive_fuel n L (f s) = drive_fuel n step s"
proof (induction n arbitrary: s)
  case 0
  then show ?case by simp
next
  case (Suc n)
  then show ?case
    by (cases "step s") (auto simp: assms split: option.split)
qed

lemma drive_map:
  assumes "\<And>s. L (f s) = map_prod id (map_option f) (step s)"
  shows "drive L (f s) = drive step s"
proof -
  have fm: "\<And>n s. drive_fuel n L (f s) = drive_fuel n step s"
    by (rule drive_fuel_map) (rule assms)
  show ?thesis
proof (cases "drive step s")
  case None
  show ?thesis
  proof (rule ccontr)
    assume "drive L (f s) \<noteq> drive step s"
    with None obtain r where "drive L (f s) = Some r" by auto
    then obtain n where "drive_fuel n L (f s) = Some r" by (blast dest: drive_Some_fuel)
    with fm have "drive_fuel n step s = Some r" by simp
    with None show False by (simp add: drive_fuel_sound)
  qed
next
  case (Some r)
  then obtain n where "drive_fuel n step s = Some r" by (blast dest: drive_Some_fuel)
  with fm have "drive_fuel n L (f s) = Some r" by simp
  with Some show ?thesis by (simp add: drive_fuel_sound)
qed
qed

lemma chunk_ok_map:
  "chunk_ok P c \<Longrightarrow> (\<And>s. P s \<Longrightarrow> Q (f s)) \<Longrightarrow> chunk_ok Q (map_prod id (map_option f) c)"
  by (auto simp: chunk_ok_def split: prod.splits option.splits)

text \<open>Termination: a measure that decreases on every continuing step from an invariant
  state bounds the number of steps.\<close>

definition decreasing :: "('s \<Rightarrow> bool) \<Rightarrow> ('s \<Rightarrow> nat) \<Rightarrow> 's stepper \<Rightarrow> bool" where
  "decreasing P \<mu> step =
     (\<forall>s evs s'. P s \<longrightarrow> step s = (evs, Some s') \<longrightarrow> P s' \<and> \<mu> s' < \<mu> s)"

lemma drive_fuel_terminates:
  assumes dec: "decreasing P \<mu> step"
  shows "P s \<Longrightarrow> \<exists>r. drive_fuel (Suc (\<mu> s)) step s = Some r"
proof (induction "\<mu> s" arbitrary: s rule: less_induct)
  case less
  show ?case
  proof (cases "step s")
    case (Pair evs nxt)
    show ?thesis
    proof (cases nxt)
      case None
      with Pair show ?thesis by simp
    next
      case (Some s')
      with Pair dec less.prems have P': "P s'" and lt: "\<mu> s' < \<mu> s"
        by (auto simp: decreasing_def)
      from less.hyps [OF lt P'] obtain r where "drive_fuel (Suc (\<mu> s')) step s' = Some r" ..
      then have "drive_fuel (\<mu> s) step s' = Some r"
        by (rule drive_fuel_mono) (use lt in simp)
      with Pair Some show ?thesis by simp
    qed
  qed
qed

lemma drive_terminates:
  "decreasing P \<mu> step \<Longrightarrow> P s \<Longrightarrow> \<exists>r. drive step s = Some r"
  by (blast dest: drive_fuel_terminates intro: drive_fuel_sound)

end
