(* ===== verification/Service.thy ===== *)
theory Service
  imports Strategy
begin

text \<open>
  \<open>ServiceActionInterface\<close> (spec 4.3, SynchronousCallStrategy; its source is not part of
  src/, so it is modelled from the spec). Construction reads the action name and the
  service name from the configuration entry and raises on a missing or non-string one.
  A run issues one blocking call, then applies the end effects and reports SUCCEEDED
  if the call succeeded, and reports FAILED on every kind of failure. The run is two
  steps: the request, then the reply.
\<close>

record service_cfg =
  srv_action_name :: string
  service_name :: string

datatype srv_result = SrvSuccess | SrvFailure | SrvTransportError | SrvTimeout

definition mk_service :: "yval \<Rightarrow> py_error + service_cfg" where
  "mk_service c =
     sbind (dict_get c ''name'') (\<lambda>n. sbind (py_str n) (\<lambda>n'.
     sbind (dict_get c ''service_name'') (\<lambda>s. sbind (py_str s) (\<lambda>s'.
     Inr \<lparr>srv_action_name = n', service_name = s'\<rparr>))))"

datatype srv_state = SrvCall | SrvAwait

fun srv_step :: "service_cfg \<Rightarrow> action_dispatch \<Rightarrow> srv_result \<Rightarrow> srv_state stepper" where
  "srv_step c m r SrvCall = ([CallService m (service_name c)], Some SrvAwait)"
| "srv_step c m r SrvAwait =
     (if r = SrvSuccess
      then ([KbApply m 1, Publish (mk_feedback m ACTION_SUCCEEDED_TO_GOAL_STATE)], None)
      else ([Publish (mk_feedback m ACTION_FAILED)], None))"

definition srv_run :: "service_cfg \<Rightarrow> action_dispatch \<Rightarrow> srv_result \<Rightarrow> event list option" where
  "srv_run c m r = drive (srv_step c m r) SrvCall"

declare srv_step.simps [step_simps]

subsection \<open>Properties\<close>

lemma srv_step_contract [contract_intros]: "step_contract (\<lambda>_. True) (srv_step c m r)"
proof (rule step_contractI)
  fix s
  show "chunk_ok (\<lambda>_. True) (srv_step c m r s)"
    by (cases s) (auto simp: chunk_ok_def)
qed

lemma srv_step_keys: "srv_step c m r s = (evs, nxt) \<Longrightarrow> \<forall>e\<in>set evs. ev_key e = msg_key m"
  by (cases s) (auto split: if_splits)

lemma srv_run_eq:
  "srv_run c m r = Some (CallService m (service_name c) #
     (if r = SrvSuccess
      then [KbApply m 1, Publish (mk_feedback m ACTION_SUCCEEDED_TO_GOAL_STATE)]
      else [Publish (mk_feedback m ACTION_FAILED)]))"
  by (simp add: srv_run_def drive.simps [of "srv_step c m r" SrvCall] drive.simps [of "srv_step c m r" SrvAwait])

end
