(* ===== verification/Actionlib.thy ===== *)
theory Actionlib
  imports Strategy
begin

text \<open>
  \<open>ActionlibActionInterface\<close> (spec 4.3, RemoteProcedureStrategy; modelled from the
  spec, its source is not part of src/). Construction reads the action name, the action
  server and an optional timeout (a non-negative integer number of time units). A run
  sends the goal, then waits: each remote message is one step (progress feedback is
  republished; SUCCEEDED applies the end effects and reports SUCCEEDED; ABORTED and
  REJECTED report FAILED; an external cancellation sends a cancel request and reports
  FAILED), a tick is one unit of time passing, and once the configured timeout has
  elapsed the run reports FAILED. When the remote actor has nothing more to say, time
  keeps passing: with a timeout the run then fails at the deadline, without one it never
  returns.
\<close>

record actionlib_cfg =
  al_action_name :: string
  action_server :: string
  al_timeout :: "nat option"

datatype remote_event = RFeedback string | RSucceeded | RAborted | RRejected | RTick | RCancel

fun parse_timeout :: "yval option \<Rightarrow> py_error + nat option" where
  "parse_timeout None = Inr None"
| "parse_timeout (Some (YInt t)) = (if 0 \<le> t then Inr (Some (nat t)) else Inl (ValueError ''timeout''))"
| "parse_timeout (Some _) = Inl (TypeError ''timeout'')"

definition mk_actionlib :: "yval \<Rightarrow> py_error + actionlib_cfg" where
  "mk_actionlib c =
     sbind (dict_get c ''name'') (\<lambda>n. sbind (py_str n) (\<lambda>n'.
     sbind (dict_get c ''action_server'') (\<lambda>a. sbind (py_str a) (\<lambda>a'.
     sbind (parse_timeout (dict_opt c ''timeout'')) (\<lambda>t.
     Inr \<lparr>al_action_name = n', action_server = a', al_timeout = t\<rparr>)))))"

datatype al_state = AlSend | AlWait nat "remote_event list"

definition al_timed_out :: "actionlib_cfg \<Rightarrow> nat \<Rightarrow> bool" where
  "al_timed_out c t = (case al_timeout c of None \<Rightarrow> False | Some d \<Rightarrow> d \<le> t)"

fun al_step :: "actionlib_cfg \<Rightarrow> action_dispatch \<Rightarrow> remote_event list \<Rightarrow> al_state stepper" where
  "al_step c m es AlSend = ([SendGoal m (action_server c)], Some (AlWait 0 es))"
| "al_step c m es (AlWait t rs) =
     (if al_timed_out c t then ([Publish (mk_feedback m ACTION_FAILED)], None)
      else (case rs of
        [] \<Rightarrow> ([], Some (AlWait (Suc t) []))
      | RTick # rs' \<Rightarrow> ([], Some (AlWait (Suc t) rs'))
      | RFeedback txt # rs' \<Rightarrow> ([Publish (mk_feedback m (ACTION_PROGRESS txt))], Some (AlWait t rs'))
      | RSucceeded # _ \<Rightarrow> ([KbApply m 1, Publish (mk_feedback m ACTION_SUCCEEDED_TO_GOAL_STATE)], None)
      | RAborted # _ \<Rightarrow> ([Publish (mk_feedback m ACTION_FAILED)], None)
      | RRejected # _ \<Rightarrow> ([Publish (mk_feedback m ACTION_FAILED)], None)
      | RCancel # _ \<Rightarrow> ([CancelGoal m (action_server c), Publish (mk_feedback m ACTION_FAILED)], None)))"

definition al_run :: "actionlib_cfg \<Rightarrow> action_dispatch \<Rightarrow> remote_event list \<Rightarrow> event list option" where
  "al_run c m es = drive (al_step c m es) AlSend"

declare al_step.simps [step_simps]

subsection \<open>Properties\<close>

lemma al_step_contract [contract_intros]: "step_contract (\<lambda>_. True) (al_step c m es)"
proof (rule step_contractI)
  fix s
  show "chunk_ok (\<lambda>_. True) (al_step c m es s)"
  proof (cases s)
    case AlSend
    then show ?thesis by (simp add: chunk_ok_def)
  next
    case (AlWait t rs)
    then show ?thesis
      by (cases rs) (auto simp: chunk_ok_def split: remote_event.splits)
  qed
qed

lemma al_step_keys: "al_step c m es s = (evs, nxt) \<Longrightarrow> \<forall>e\<in>set evs. ev_key e = msg_key m"
  by (cases s) (auto split: if_splits list.splits remote_event.splits)

text \<open>With a configured timeout every step decreases the remaining messages plus the
  remaining time.\<close>

definition al_measure :: "nat \<Rightarrow> remote_event list \<Rightarrow> al_state \<Rightarrow> nat" where
  "al_measure d es s = (case s of AlSend \<Rightarrow> Suc (length es + d) | AlWait t rs \<Rightarrow> length rs + (d - t))"

lemma al_step_decreasing:
  "al_timeout c = Some d \<Longrightarrow> decreasing (\<lambda>_. True) (al_measure d es) (al_step c m es)"
  unfolding decreasing_def
proof (intro allI impI conjI TrueI)
  fix s evs s'
  assume d: "al_timeout c = Some d" and st: "al_step c m es s = (evs, Some s')"
  show "al_measure d es s' < al_measure d es s"
  proof (cases s)
    case AlSend
    with st show ?thesis by (auto simp: al_measure_def)
  next
    case (AlWait t rs)
    with st d have "t < d" by (auto simp: al_timed_out_def split: if_splits)
    with AlWait st show ?thesis
      by (cases rs) (auto simp: al_measure_def al_timed_out_def split: if_splits remote_event.splits)
  qed
qed

text \<open>A remote actor that only reports progress (or says nothing) is silent.\<close>

definition al_silent :: "remote_event list \<Rightarrow> bool" where
  "al_silent rs = (\<forall>r\<in>set rs. r = RTick \<or> (\<exists>msg. r = RFeedback msg))"

lemma al_silent_Cons [simp]: "al_silent (r # rs) \<longleftrightarrow> (r = RTick \<or> (\<exists>msg. r = RFeedback msg)) \<and> al_silent rs"
  by (simp add: al_silent_def)

lemma al_silent_Nil [simp]: "al_silent []"
  by (simp add: al_silent_def)

definition fails_without_effects :: "action_dispatch \<Rightarrow> event list \<Rightarrow> bool" where
  "fails_without_effects m evs =
     (evs \<noteq> [] \<and> last evs = Publish (mk_feedback m ACTION_FAILED) \<and> KbApply m 1 \<notin> set evs)"

lemma al_wait_empty_timeout:
  assumes d: "al_timeout c = Some d"
  shows "drive_fuel (Suc (d - t)) (al_step c m es) (AlWait t []) = Some [Publish (mk_feedback m ACTION_FAILED)]"
proof (induction "d - t" arbitrary: t)
  case 0
  then have "al_timed_out c t" using d by (simp add: al_timed_out_def)
  then show ?case by (simp add: drive_fuel_stop)
next
  case (Suc x)
  then have nt: "\<not> al_timed_out c t" and x: "x = d - Suc t" using d by (auto simp: al_timed_out_def)
  from Suc.hyps(1) [OF x] have IH: "drive_fuel (Suc (d - Suc t)) (al_step c m es) (AlWait (Suc t) []) =
      Some [Publish (mk_feedback m ACTION_FAILED)]" .
  have st: "al_step c m es (AlWait t []) = ([], Some (AlWait (Suc t) []))" using nt by simp
  from Suc.hyps(2) x have "Suc (d - t) = Suc (Suc (d - Suc t))" by simp
  with drive_fuel_continue [where step = "al_step c m es", OF st] IH show ?case by (simp del: drive_fuel.simps)
qed

lemma al_wait_silent_timeout:
  assumes d: "al_timeout c = Some d"
  shows "al_silent rs \<Longrightarrow> \<exists>evs. drive_fuel (Suc (length rs + (d - t))) (al_step c m es) (AlWait t rs) = Some evs \<and>
           fails_without_effects m evs"
proof (induction rs arbitrary: t)
  case Nil
  show ?case
    using al_wait_empty_timeout [OF d, of t m es] by (simp add: fails_without_effects_def)
next
  case (Cons r rs)
  show ?case
  proof (cases "al_timed_out c t")
    case True
    then have "al_step c m es (AlWait t (r # rs)) = ([Publish (mk_feedback m ACTION_FAILED)], None)" by simp
    then show ?thesis by (simp add: drive_fuel_stop fails_without_effects_def)
  next
    case False
    then have lt: "t < d" using d by (simp add: al_timed_out_def)
    from Cons.prems have s: "al_silent rs" by simp
    from Cons.prems consider "r = RTick" | msg where "r = RFeedback msg" by auto
    then show ?thesis
    proof cases
      case 1
      from Cons.IH [OF s, of "Suc t"] obtain evs where
        ev: "drive_fuel (Suc (length rs + (d - Suc t))) (al_step c m es) (AlWait (Suc t) rs) = Some evs"
        and f: "fails_without_effects m evs" by blast
      from ev have ev': "drive_fuel (length (r # rs) + (d - t)) (al_step c m es) (AlWait (Suc t) rs) = Some evs"
        by (rule drive_fuel_mono) (use lt in simp)
      have st: "al_step c m es (AlWait t (r # rs)) = ([], Some (AlWait (Suc t) rs))" using 1 False by simp
      from drive_fuel_continue [where step = "al_step c m es", OF st] ev' f show ?thesis by (simp del: drive_fuel.simps)
    next
      case 2
      from Cons.IH [OF s, of t] obtain evs where
        ev: "drive_fuel (Suc (length rs + (d - t))) (al_step c m es) (AlWait t rs) = Some evs"
        and f: "fails_without_effects m evs" by blast
      have st: "al_step c m es (AlWait t (r # rs)) =
          ([Publish (mk_feedback m (ACTION_PROGRESS msg))], Some (AlWait t rs))" using 2 False by simp
      from drive_fuel_continue [where step = "al_step c m es", OF st] ev f show ?thesis
        by (simp add: fails_without_effects_def del: drive_fuel.simps)
    qed
  qed
qed

lemma al_run_silent_timeout:
  assumes "al_timeout c = Some d" and "al_silent es"
  shows "\<exists>evs. drive_fuel (length es + d + 2) (al_step c m es) AlSend = Some (SendGoal m (action_server c) # evs) \<and>
           fails_without_effects m evs"
proof -
  from al_wait_silent_timeout [OF assms(1) assms(2), of 0 m es] obtain evs where
    ev: "drive_fuel (Suc (length es + d)) (al_step c m es) (AlWait 0 es) = Some evs" and f: "fails_without_effects m evs"
    by auto
  have st: "al_step c m es AlSend = ([SendGoal m (action_server c)], Some (AlWait 0 es))" by simp
  have "length es + d + 2 = Suc (Suc (length es + d))" by simp
  with drive_fuel_continue [where step = "al_step c m es", OF st] ev f show ?thesis by (simp del: drive_fuel.simps)
qed

lemma al_wait_silent_no_timeout:
  assumes nt: "al_timeout c = None"
  shows "al_silent rs \<Longrightarrow> drive_fuel n (al_step c m es) (AlWait t rs) = None"
proof (induction n arbitrary: t rs)
  case 0
  then show ?case by simp
next
  case (Suc n)
  have nto: "\<not> al_timed_out c t" using nt by (simp add: al_timed_out_def)
  show ?case
  proof (cases rs)
    case Nil
    have st: "al_step c m es (AlWait t rs) = ([], Some (AlWait (Suc t) []))" using Nil nto by simp
    from drive_fuel_continue [where step = "al_step c m es", OF st] Suc.IH [of "[]" "Suc t"] show ?thesis by (simp del: drive_fuel.simps)
  next
    case (Cons r rs')
    with Suc.prems have s': "al_silent rs'" and r: "r = RTick \<or> (\<exists>msg. r = RFeedback msg)" by auto
    from r obtain t' evs where st: "al_step c m es (AlWait t rs) = (evs, Some (AlWait t' rs'))"
      using Cons nto by auto
    from drive_fuel_continue [where step = "al_step c m es", OF st] Suc.IH [OF s', of t'] show ?thesis by (simp del: drive_fuel.simps)
  qed
qed

text \<open>Without a timeout, a server that never answers keeps the run waiting for ever.\<close>

lemma al_run_silent_no_timeout:
  assumes nt: "al_timeout c = None" and silent: "al_silent es"
  shows "al_run c m es = None"
  unfolding al_run_def
proof (rule drive_None_if_no_fuel)
  fix k
  show "drive_fuel k (al_step c m es) AlSend = None"
  proof (cases k)
    case 0
    then show ?thesis by simp
  next
    case (Suc k')
    have st: "al_step c m es AlSend = ([SendGoal m (action_server c)], Some (AlWait 0 es))" by simp
    from drive_fuel_continue [where step = "al_step c m es", OF st] al_wait_silent_no_timeout [OF nt silent]
    show ?thesis using Suc by (simp del: drive_fuel.simps)
  qed
qed


text \<open>An answer that arrives after \<open>k\<close> units of time is honoured only before the deadline:
  at the deadline the run has already given up.\<close>

lemma al_wait_ticks_answer:
  assumes d: "al_timeout c = Some d"
  shows "drive (al_step c m es) (AlWait t (replicate k RTick @ RSucceeded # rs)) =
           Some (if t + k < d then [KbApply m 1, Publish (mk_feedback m ACTION_SUCCEEDED_TO_GOAL_STATE)]
                 else [Publish (mk_feedback m ACTION_FAILED)])"
proof (induction k arbitrary: t)
  case 0
  show ?case
    using d by (simp add: drive.simps [of "al_step c m es" "AlWait t (RSucceeded # rs)"] al_timed_out_def)
next
  case (Suc k)
  have "t + Suc k = Suc t + k" by simp
  with Suc.IH [of "Suc t"] d show ?case
    by (simp add: drive.simps [of "al_step c m es" "AlWait t (RTick # replicate k RTick @ RSucceeded # rs)"]
        al_timed_out_def)
qed

end
