(* ===== verification/FSM.thy ===== *)
theory FSM
  imports Strategy
begin

text \<open>
  \<open>FSMActionInterface\<close> (spec 4.3, StateMachineStrategy; modelled from the spec, its
  source is not part of src/). A state-machine definition names its states, each with
  the service that performs its unit of work and a table from outcome labels to next
  states, an initial state, and the success-terminal and failure-terminal states.
  Construction rejects a definition whose initial state is neither a defined nor a
  terminal state, or whose success and failure states overlap. A run starts in the
  initial state; in each non-terminal state it performs the work (the outcome of the
  \<open>k\<close>-th unit of work is \<open>oc k state\<close>, chosen by the environment), looks the outcome
  up, reports the transition and continues; a missing transition or an undefined state
  reports FAILED. Cycles are allowed (retry loops), so a run need not return.
\<close>

record fsm_state_cfg =
  st_name :: string
  st_service :: string
  st_transitions :: "(string \<times> string) list"

record fsm_cfg =
  fsm_action_name :: string
  fsm_states :: "fsm_state_cfg list"
  initial_state :: string
  success_states :: "string list"
  fail_states :: "string list"

subsection \<open>Construction from the configuration entry\<close>

definition get_str :: "yval \<Rightarrow> string \<Rightarrow> py_error + string" where
  "get_str c k = sbind (dict_get c k) py_str"

definition get_str_list :: "yval \<Rightarrow> string \<Rightarrow> py_error + string list" where
  "get_str_list c k = sbind (dict_get c k) (\<lambda>v. sbind (py_iter v) (smap py_str))"

fun parse_transitions :: "yval \<Rightarrow> py_error + (string \<times> string) list" where
  "parse_transitions (YDict kvs) = smap (\<lambda>kv. sbind (py_str (snd kv)) (\<lambda>t. Inr (fst kv, t))) kvs"
| "parse_transitions _ = Inl (TypeError ''transitions'')"

definition parse_fsm_state :: "yval \<Rightarrow> py_error + fsm_state_cfg" where
  "parse_fsm_state v =
     sbind (get_str v ''name'') (\<lambda>n. sbind (get_str v ''service'') (\<lambda>s.
     sbind (dict_get v ''transitions'') (\<lambda>tv. sbind (parse_transitions tv) (\<lambda>ts.
     Inr \<lparr>st_name = n, st_service = s, st_transitions = ts\<rparr>))))"

definition fsm_wf :: "fsm_cfg \<Rightarrow> bool" where
  "fsm_wf f =
     ((initial_state f \<in> set (map st_name (fsm_states f)) \<or>
       initial_state f \<in> set (success_states f) \<or> initial_state f \<in> set (fail_states f)) \<and>
      set (success_states f) \<inter> set (fail_states f) = {})"

definition mk_fsm :: "yval \<Rightarrow> py_error + fsm_cfg" where
  "mk_fsm c =
     sbind (get_str c ''name'') (\<lambda>n.
     sbind (dict_get c ''states'') (\<lambda>sv. sbind (py_iter sv) (\<lambda>svs. sbind (smap parse_fsm_state svs) (\<lambda>sts.
     sbind (get_str c ''initial_state'') (\<lambda>i.
     sbind (get_str_list c ''success_states'') (\<lambda>ss.
     sbind (get_str_list c ''fail_states'') (\<lambda>fs.
       let f = \<lparr>fsm_action_name = n, fsm_states = sts, initial_state = i,
                success_states = ss, fail_states = fs\<rparr>
       in if fsm_wf f then Inr f else Inl (ValueError ''state machine''))))))))"

subsection \<open>Execution\<close>

datatype fsm_state = FsmAt nat string

definition transition_label :: "string \<Rightarrow> string \<Rightarrow> string \<Rightarrow> string" where
  "transition_label cur out nxt = cur @ ''/'' @ out @ ''/'' @ nxt"

fun fsm_step :: "fsm_cfg \<Rightarrow> action_dispatch \<Rightarrow> (nat \<Rightarrow> string \<Rightarrow> string) \<Rightarrow> fsm_state stepper" where
  "fsm_step f m oc (FsmAt k cur) =
     (if cur \<in> set (success_states f)
      then ([KbApply m 1, Publish (mk_feedback m ACTION_SUCCEEDED_TO_GOAL_STATE)], None)
      else if cur \<in> set (fail_states f)
      then ([Publish (mk_feedback m ACTION_FAILED)], None)
      else (case find (\<lambda>st. st_name st = cur) (fsm_states f) of
        None \<Rightarrow> ([Publish (mk_feedback m ACTION_FAILED)], None)
      | Some st \<Rightarrow>
          (case map_of (st_transitions st) (oc k cur) of
             None \<Rightarrow> ([CallService m (st_service st), Publish (mk_feedback m ACTION_FAILED)], None)
           | Some nxt \<Rightarrow>
               ([CallService m (st_service st),
                 Publish (mk_feedback m (ACTION_PROGRESS (transition_label cur (oc k cur) nxt)))],
                Some (FsmAt (Suc k) nxt)))))"

definition fsm_run :: "fsm_cfg \<Rightarrow> action_dispatch \<Rightarrow> (nat \<Rightarrow> string \<Rightarrow> string) \<Rightarrow> event list option" where
  "fsm_run f m oc = drive (fsm_step f m oc) (FsmAt 0 (initial_state f))"

declare fsm_step.simps [step_simps]

subsection \<open>Properties\<close>

lemma fsm_step_contract [contract_intros]: "step_contract (\<lambda>_. True) (fsm_step f m oc)"
proof (rule step_contractI)
  fix s
  show "chunk_ok (\<lambda>_. True) (fsm_step f m oc s)"
    by (cases s) (auto simp: chunk_ok_def split: option.splits)
qed

lemma fsm_step_keys: "fsm_step f m oc s = (evs, nxt) \<Longrightarrow> \<forall>e\<in>set evs. ev_key e = msg_key m"
  by (cases s) (auto split: if_splits option.splits)

text \<open>A ranking of the state names that every transition out of a non-terminal state
  decreases makes every run return, whatever the outcomes.\<close>

definition fsm_ranked :: "fsm_cfg \<Rightarrow> (string \<Rightarrow> nat) \<Rightarrow> bool" where
  "fsm_ranked f rank =
     (\<forall>st\<in>set (fsm_states f). st_name st \<notin> set (success_states f) \<union> set (fail_states f) \<longrightarrow>
        (\<forall>tr\<in>set (st_transitions st). rank (snd tr) < rank (st_name st)))"

lemma fsm_step_decreasing:
  assumes "fsm_ranked f rank"
  shows "decreasing (\<lambda>_. True) (\<lambda>s. case s of FsmAt k cur \<Rightarrow> rank cur) (fsm_step f m oc)"
  unfolding decreasing_def
proof (intro allI impI conjI TrueI)
  fix s evs s'
  assume st: "fsm_step f m oc s = (evs, Some s')"
  obtain k cur where s: "s = FsmAt k cur" by (cases s)
  from st s obtain sc nxt where
    nt: "cur \<notin> set (success_states f)" "cur \<notin> set (fail_states f)" and
    fd: "find (\<lambda>st. st_name st = cur) (fsm_states f) = Some sc" and
    tr: "map_of (st_transitions sc) (oc k cur) = Some nxt" and s': "s' = FsmAt (Suc k) nxt"
    by (auto split: if_splits option.splits)
  from fd have "sc \<in> set (fsm_states f)" and "st_name sc = cur"
    by (auto simp: find_Some_iff)
  moreover from tr have "(oc k cur, nxt) \<in> set (st_transitions sc)"
    by (rule map_of_SomeD)
  ultimately have "rank nxt < rank cur"
    using assms nt by (fastforce simp: fsm_ranked_def)
  with s s' show "(case s' of FsmAt k cur \<Rightarrow> rank cur) < (case s of FsmAt k cur \<Rightarrow> rank cur)"
    by simp
qed

text \<open>In a non-terminal, defined state whose observed outcome has no transition, the run
  performs the state's work and reports FAILED: one step and it returns.\<close>

lemma fsm_missing_transition:
  assumes "cur \<notin> set (success_states f)" "cur \<notin> set (fail_states f)"
    and "find (\<lambda>st. st_name st = cur) (fsm_states f) = Some st"
    and "map_of (st_transitions st) (oc k cur) = None"
  shows "drive (fsm_step f m oc) (FsmAt k cur) =
           Some [CallService m (st_service st), Publish (mk_feedback m ACTION_FAILED)]"
  using assms by (simp add: drive.simps [of "fsm_step f m oc" "FsmAt k cur"])

lemma fsm_ranked_terminates:
  "fsm_ranked f rank \<Longrightarrow> \<exists>r. drive (fsm_step f m oc) s = Some r"
  by (rule drive_terminates [OF fsm_step_decreasing]) simp_all

text \<open>A retry cycle on one state whose outcome never changes never returns.\<close>

lemma fsm_self_loop_no_fuel:
  assumes "cur \<notin> set (success_states f)" "cur \<notin> set (fail_states f)"
    and "find (\<lambda>st. st_name st = cur) (fsm_states f) = Some st"
    and "map_of (st_transitions st) out = Some cur" and "\<forall>k. oc k cur = out"
  shows "drive_fuel n (fsm_step f m oc) (FsmAt k cur) = None"
proof (induction n arbitrary: k)
  case 0
  then show ?case by simp
next
  case (Suc n)
  have "fsm_step f m oc (FsmAt k cur) =
          ([CallService m (st_service st), Publish (mk_feedback m (ACTION_PROGRESS (transition_label cur out cur)))],
           Some (FsmAt (Suc k) cur))"
    using assms by simp
  from drive_fuel_continue [where step = "fsm_step f m oc", OF this] Suc.IH [of "Suc k"]
  show ?case by (simp del: drive_fuel.simps)
qed

lemma fsm_self_loop_diverges:
  assumes "cur \<notin> set (success_states f)" "cur \<notin> set (fail_states f)"
    and "find (\<lambda>st. st_name st = cur) (fsm_states f) = Some st"
    and "map_of (st_transitions st) out = Some cur" and "\<forall>k. oc k cur = out"
  shows "drive (fsm_step f m oc) (FsmAt k cur) = None"
proof (rule drive_None_if_no_fuel)
  fix n
  show "drive_fuel n (fsm_step f m oc) (FsmAt k cur) = None"
    using assms by (rule fsm_self_loop_no_fuel)
qed

end
