(* ===== verification/Interface.thy ===== *)
theory Interface
  imports Service Actionlib FSM
begin

text \<open>
  The closed set of strategy variants behind the one \<open>run\<close> entry point (spec 9):
  \<open>action_interface\<close> holds a constructed \<open>ActionlibActionInterface\<close>,
  \<open>ServiceActionInterface\<close> or \<open>FSMActionInterface\<close>; \<open>get_action_name\<close> is the name
  the registry files it under. The environment \<open>env\<close> of one dispatched action gives what
  the outside world answers: the service reply, the remote actor's messages, the outcomes
  of the state machine's units of work. \<open>exec_step\<close> is the common step function over
  the union of the strategies' execution states; \<open>run\<close> drives it from the variant's
  start state. \<open>run_service\<close>, \<open>run_actionlib\<close> and \<open>run_fsm\<close> show that the uniform
  loop executes each variant exactly as its own loop.
\<close>

datatype action_interface =
    ActionlibAI actionlib_cfg
  | ServiceAI service_cfg
  | FsmAI fsm_cfg

fun get_action_name :: "action_interface \<Rightarrow> string" where
  "get_action_name (ActionlibAI c) = al_action_name c"
| "get_action_name (ServiceAI c) = srv_action_name c"
| "get_action_name (FsmAI f) = fsm_action_name f"

record env =
  srv_reply :: srv_result
  remote :: "remote_event list"
  outcome :: "nat \<Rightarrow> string \<Rightarrow> string"

datatype exec = ExAl al_state | ExSrv srv_state | ExFsm fsm_state

fun run_start :: "action_interface \<Rightarrow> exec" where
  "run_start (ActionlibAI c) = ExAl AlSend"
| "run_start (ServiceAI c) = ExSrv SrvCall"
| "run_start (FsmAI f) = ExFsm (FsmAt 0 (initial_state f))"

text \<open>An execution state belongs to the variant that started it.\<close>

fun exec_matches :: "action_interface \<Rightarrow> exec \<Rightarrow> bool" where
  "exec_matches (ActionlibAI c) (ExAl s) = True"
| "exec_matches (ServiceAI c) (ExSrv s) = True"
| "exec_matches (FsmAI f) (ExFsm s) = True"
| "exec_matches _ _ = False"

fun exec_step :: "action_interface \<Rightarrow> action_dispatch \<Rightarrow> env \<Rightarrow> exec stepper" where
  "exec_step (ActionlibAI c) m e (ExAl s) = map_prod id (map_option ExAl) (al_step c m (remote e) s)"
| "exec_step (ServiceAI c) m e (ExSrv s) = map_prod id (map_option ExSrv) (srv_step c m (srv_reply e) s)"
| "exec_step (FsmAI f) m e (ExFsm s) = map_prod id (map_option ExFsm) (fsm_step f m (outcome e) s)"
| "exec_step _ m e _ = ([], None)"

definition run :: "action_interface \<Rightarrow> action_dispatch \<Rightarrow> env \<Rightarrow> event list option" where
  "run ai m e = drive (exec_step ai m e) (run_start ai)"

subsection \<open>The uniform loop runs each variant as its own loop\<close>

lemma run_actionlib: "run (ActionlibAI c) m e = al_run c m (remote e)"
  unfolding run_def al_run_def run_start.simps
  by (rule drive_map) simp

lemma run_service: "run (ServiceAI c) m e = srv_run c m (srv_reply e)"
  unfolding run_def srv_run_def run_start.simps
  by (rule drive_map) simp

lemma run_fsm: "run (FsmAI f) m e = fsm_run f m (outcome e)"
  unfolding run_def fsm_run_def run_start.simps
  by (rule drive_map) simp

subsection \<open>The uniform contract\<close>

lemma exec_step_contract: "step_contract (exec_matches ai) (exec_step ai m e)"
proof (rule step_contractI)
  fix x
  assume mt: "exec_matches ai x"
  show "chunk_ok (exec_matches ai) (exec_step ai m e x)"
  proof (cases ai)
    case (ActionlibAI c)
    with mt obtain s where "x = ExAl s" by (cases x) auto
    with ActionlibAI show ?thesis
      using al_step_contract [of c m "remote e"]
      by (auto simp: step_contract_def intro: chunk_ok_map)
  next
    case (ServiceAI c)
    with mt obtain s where "x = ExSrv s" by (cases x) auto
    with ServiceAI show ?thesis
      using srv_step_contract [of c m "srv_reply e"]
      by (auto simp: step_contract_def intro: chunk_ok_map)
  next
    case (FsmAI f)
    with mt obtain s where "x = ExFsm s" by (cases x) auto
    with FsmAI show ?thesis
      using fsm_step_contract [of f m "outcome e"]
      by (auto simp: step_contract_def intro: chunk_ok_map)
  qed
qed

lemma exec_matches_start [simp]: "exec_matches ai (run_start ai)"
  by (cases ai) simp_all

lemma exec_step_keys: "exec_step ai m e x = (evs, nxt) \<Longrightarrow> \<forall>ev\<in>set evs. ev_key ev = msg_key m"
proof (cases ai; cases x)
qed (auto simp: map_prod_def split_def
          al_step_keys [OF surjective_pairing] srv_step_keys [OF surjective_pairing]
          fsm_step_keys [OF surjective_pairing])

subsection \<open>In-flight runs\<close>

text \<open>A started run as the system sees it: the interface, the dispatch message, the
  environment and the current execution state. \<open>job_step\<close> advances it by one step.\<close>

record job =
  job_ai :: action_interface
  job_msg :: action_dispatch
  job_env :: env
  job_exec :: exec

definition start_job :: "action_interface \<Rightarrow> action_dispatch \<Rightarrow> env \<Rightarrow> job" where
  "start_job ai m e = \<lparr>job_ai = ai, job_msg = m, job_env = e, job_exec = run_start ai\<rparr>"

definition job_step :: "job stepper" where
  "job_step j = map_prod id (map_option (\<lambda>x. j\<lparr>job_exec := x\<rparr>))
     (exec_step (job_ai j) (job_msg j) (job_env j) (job_exec j))"

definition job_ok :: "job \<Rightarrow> bool" where
  "job_ok j = exec_matches (job_ai j) (job_exec j)"

lemma drive_start_job: "drive job_step (start_job ai m e) = run ai m e"
proof -
  let ?j = "start_job ai m e"
  have "drive job_step ((\<lambda>x. ?j\<lparr>job_exec := x\<rparr>) (run_start ai)) = drive (exec_step ai m e) (run_start ai)"
    by (rule drive_map) (simp add: job_step_def start_job_def)
  moreover have "?j\<lparr>job_exec := run_start ai\<rparr> = ?j" by (simp add: start_job_def)
  ultimately show ?thesis by (simp add: run_def)
qed

lemma job_step_chunk_ok: "job_ok j \<Longrightarrow> chunk_ok job_ok (job_step j)"
proof -
  assume ok: "job_ok j"
  have "chunk_ok (exec_matches (job_ai j)) (exec_step (job_ai j) (job_msg j) (job_env j) (job_exec j))"
    using exec_step_contract ok by (simp add: step_contract_def job_ok_def)
  then show ?thesis
    unfolding job_step_def by (rule chunk_ok_map) (simp add: job_ok_def)
qed

lemma job_ok_start [simp]: "job_ok (start_job ai m e)"
  by (simp add: job_ok_def start_job_def)

lemma job_step_keys: "job_step j = (evs, nxt) \<Longrightarrow> \<forall>ev\<in>set evs. ev_key ev = msg_key (job_msg j)"
  by (auto simp: job_step_def map_prod_def split_def
      intro: exec_step_keys [OF surjective_pairing, THEN bspec])

lemma job_step_msg: "job_step j = (evs, Some j') \<Longrightarrow> job_msg j' = job_msg j"
  by (auto simp: job_step_def map_prod_def split_def)

end
