(* ===== verification/Registry.thy ===== *)
theory Registry
  imports Interface
begin

text \<open>
  The YAML part of \<open>ActionInterfaceManager\<close> (ActionInterfaceManager.py, lines 73-97).
  \<open>parse_config\<close> iterates over the configured actions; for each entry it evaluates
  \<open>action["interface_type"]\<close> three times, in three independent \<open>if\<close>s, and calls
  \<open>parse_actionlib\<close>, \<open>parse_service\<close> or \<open>parse_state_machine\<close>, which construct the
  interface and store it in the registry under \<open>ai.get_action_name()\<close>. Every Python
  exception (a missing key, a value of the wrong type, a constructor's error) aborts the
  whole loop (\<open>Inl\<close>); an entry whose type is none of the three is skipped silently.
  The registry is a map from action names to interfaces.

  \<open>entry_interface\<close> and \<open>registry_of\<close> are the reference reading of the same loop: each
  entry denotes at most one interface, and the registry is the interfaces inserted in
  order (\<open>parse_config_refines\<close>). From it follow the registry's properties: the last
  entry for a name wins, the key of every entry is its interface's name, and an unknown
  type is ignored.
\<close>

type_synonym registry = "string \<rightharpoonup> action_interface"

definition parse_actionlib :: "registry \<Rightarrow> yval \<Rightarrow> py_error + registry" where
  "parse_actionlib reg action_config =
     sbind (mk_actionlib action_config) (\<lambda>c. let ai = ActionlibAI c in Inr (reg(get_action_name ai \<mapsto> ai)))"

definition parse_service :: "registry \<Rightarrow> yval \<Rightarrow> py_error + registry" where
  "parse_service reg action_config =
     sbind (mk_service action_config) (\<lambda>c. let ai = ServiceAI c in Inr (reg(get_action_name ai \<mapsto> ai)))"

definition parse_state_machine :: "registry \<Rightarrow> yval \<Rightarrow> py_error + registry" where
  "parse_state_machine reg action_config =
     sbind (mk_fsm action_config) (\<lambda>c. let ai = FsmAI c in Inr (reg(get_action_name ai \<mapsto> ai)))"

text \<open>The body of the \<open>for\<close> loop: three \<open>if\<close>s, each reading the key again.\<close>

definition parse_entry :: "registry \<Rightarrow> yval \<Rightarrow> py_error + registry" where
  "parse_entry reg action =
     sbind (dict_get action ''interface_type'') (\<lambda>t1.
     sbind (if t1 = YStr ''actionlib'' then parse_actionlib reg action else Inr reg) (\<lambda>reg1.
     sbind (dict_get action ''interface_type'') (\<lambda>t2.
     sbind (if t2 = YStr ''service'' then parse_service reg1 action else Inr reg1) (\<lambda>reg2.
     sbind (dict_get action ''interface_type'') (\<lambda>t3.
       if t3 = YStr ''fsm'' then parse_state_machine reg2 action else Inr reg2)))))"

fun parse_entries :: "registry \<Rightarrow> yval list \<Rightarrow> py_error + registry" where
  "parse_entries reg [] = Inr reg"
| "parse_entries reg (a # as) = sbind (parse_entry reg a) (\<lambda>reg'. parse_entries reg' as)"

definition parse_config :: "registry \<Rightarrow> yval \<Rightarrow> py_error + registry" where
  "parse_config reg cfg_actions = sbind (py_iter cfg_actions) (parse_entries reg)"

subsection \<open>The reference reading\<close>

definition entry_interface :: "yval \<Rightarrow> py_error + action_interface option" where
  "entry_interface action =
     sbind (dict_get action ''interface_type'') (\<lambda>t.
       if t = YStr ''actionlib'' then sbind (mk_actionlib action) (\<lambda>c. Inr (Some (ActionlibAI c)))
       else if t = YStr ''service'' then sbind (mk_service action) (\<lambda>c. Inr (Some (ServiceAI c)))
       else if t = YStr ''fsm'' then sbind (mk_fsm action) (\<lambda>c. Inr (Some (FsmAI c)))
       else Inr None)"

definition register :: "registry \<Rightarrow> action_interface \<Rightarrow> registry" where
  "register reg ai = reg(get_action_name ai \<mapsto> ai)"

definition registry_of :: "registry \<Rightarrow> action_interface list \<Rightarrow> registry" where
  "registry_of reg ais = fold (\<lambda>ai r. register r ai) ais reg"

fun entries_interfaces :: "yval list \<Rightarrow> py_error + action_interface list" where
  "entries_interfaces [] = Inr []"
| "entries_interfaces (a # as) =
     sbind (entry_interface a) (\<lambda>oi. sbind (entries_interfaces as) (\<lambda>ais. Inr (case oi of None \<Rightarrow> ais | Some ai \<Rightarrow> ai # ais)))"

subsection \<open>Properties\<close>

lemma parse_entry_eq:
  "parse_entry reg a = sbind (entry_interface a) (\<lambda>oi. Inr (case oi of None \<Rightarrow> reg | Some ai \<Rightarrow> register reg ai))"
  by (cases "dict_get a ''interface_type''")
     (auto simp: parse_entry_def entry_interface_def parse_actionlib_def parse_service_def
        parse_state_machine_def register_def Let_def sbind_def split: sum.splits)

lemma registry_of_Cons [simp]: "registry_of reg (ai # ais) = registry_of (register reg ai) ais"
  by (simp add: registry_of_def)

lemma registry_of_Nil [simp]: "registry_of reg [] = reg"
  by (simp add: registry_of_def)

lemma parse_entries_refines:
  "parse_entries reg as = sbind (entries_interfaces as) (\<lambda>ais. Inr (registry_of reg ais))"
proof (induction as arbitrary: reg)
  case Nil
  then show ?case by simp
next
  case (Cons a as)
  show ?case
    by (cases "entry_interface a"; cases "entries_interfaces as")
       (auto simp: parse_entry_eq Cons.IH split: option.splits)
qed

text \<open>Lookup in the registry built from a list: the last interface of that name wins.\<close>

lemma registry_of_lookup:
  "registry_of reg ais n =
     (if \<exists>ai\<in>set ais. get_action_name ai = n
      then Some (last (filter (\<lambda>ai. get_action_name ai = n) ais)) else reg n)"
proof (induction ais arbitrary: reg)
  case Nil
  then show ?case by simp
next
  case (Cons a ais)
  have eq: "registry_of reg (a # ais) n =
     (if \<exists>ai\<in>set ais. get_action_name ai = n
      then Some (last (filter (\<lambda>ai. get_action_name ai = n) ais)) else (register reg a) n)"
    by (simp only: registry_of_Cons Cons.IH)
  show ?case
  proof (cases "\<exists>ai\<in>set ais. get_action_name ai = n")
    case True
    then have "filter (\<lambda>ai. get_action_name ai = n) ais \<noteq> []"
      by (simp add: filter_empty_conv)
    with True eq show ?thesis by auto
  next
    case False
    then have "filter (\<lambda>ai. get_action_name ai = n) ais = []"
      by (simp add: filter_empty_conv)
    with False eq show ?thesis by (simp add: register_def)
  qed
qed

text \<open>Every key of the registry is the name of the interface stored under it.\<close>

definition reg_wf :: "registry \<Rightarrow> bool" where
  "reg_wf reg = (\<forall>n ai. reg n = Some ai \<longrightarrow> get_action_name ai = n)"

lemma reg_wf_register: "reg_wf reg \<Longrightarrow> reg_wf (register reg ai)"
  by (simp add: reg_wf_def register_def)

lemma reg_wf_registry_of: "reg_wf reg \<Longrightarrow> reg_wf (registry_of reg ais)"
proof (induction ais arbitrary: reg)
  case Nil
  then show ?case by simp
next
  case (Cons a ais)
  from Cons.prems have "reg_wf (register reg a)" by (rule reg_wf_register)
  then show ?case by (simp add: Cons.IH)
qed

lemma dom_registry_of: "dom (registry_of reg ais) = dom reg \<union> get_action_name ` set ais"
proof (induction ais arbitrary: reg)
  case Nil
  then show ?case by simp
next
  case (Cons a ais)
  have "dom (register reg a) = insert (get_action_name a) (dom reg)"
    by (simp add: register_def)
  then show ?case by (simp add: Cons.IH)
qed

lemma entry_interface_unknown:
  "dict_get a ''interface_type'' = Inr t \<Longrightarrow> t \<notin> {YStr ''actionlib'', YStr ''service'', YStr ''fsm''} \<Longrightarrow>
     entry_interface a = Inr None"
  by (simp add: entry_interface_def)

lemma entries_interfaces_unknown:
  "\<forall>a\<in>set as. \<exists>t. dict_get a ''interface_type'' = Inr t \<and> t \<notin> {YStr ''actionlib'', YStr ''service'', YStr ''fsm''} \<Longrightarrow>
     entries_interfaces as = Inr []"
proof (induction as)
  case Nil
  then show ?case by simp
next
  case (Cons a as)
  from Cons.prems obtain t where "dict_get a ''interface_type'' = Inr t"
    and "t \<notin> {YStr ''actionlib'', YStr ''service'', YStr ''fsm''}" by auto
  then have "entry_interface a = Inr None" by (rule entry_interface_unknown)
  with Cons show ?case by simp
qed

lemma parse_config_Inr:
  "parse_config reg v = Inr reg' \<longleftrightarrow>
     (\<exists>as ais. py_iter v = Inr as \<and> entries_interfaces as = Inr ais \<and> reg' = registry_of reg ais)"
  by (cases "py_iter v") (auto simp: parse_config_def parse_entries_refines)

lemma parse_config_dom:
  "parse_config reg v = Inr reg' \<Longrightarrow> dom reg \<subseteq> dom reg'"
proof -
  assume "parse_config reg v = Inr reg'"
  then obtain ais where "reg' = registry_of reg ais" by (auto simp: parse_config_Inr)
  then show ?thesis by (simp add: dom_registry_of)
qed

subsection \<open>Claims about the registry\<close>

text \<open>C6: \<open>parse_config\<close>, with its three independent \<open>if\<close>s re-reading the
  interface type, computes the reference registry: the interfaces the entries denote,
  inserted in order under their names; any exception of any entry aborts it.\<close>

theorem parse_config_refines:
  "parse_config reg v =
     sbind (py_iter v) (\<lambda>as. sbind (entries_interfaces as) (\<lambda>ais. Inr (registry_of reg ais)))"
  unfolding parse_config_def
  by (rule arg_cong [where f = "sbind (py_iter v)"]) (simp add: fun_eq_iff parse_entries_refines)

text \<open>C7: after a successful parse, each name maps to the interface of the last
  configuration entry with that name (duplicates: the last entry wins, deterministically);
  a name no entry mentions keeps what the registry held before.\<close>

theorem parse_config_last_wins:
  assumes "parse_config reg v = Inr reg'"
  shows "\<exists>as ais. py_iter v = Inr as \<and> entries_interfaces as = Inr ais \<and>
           (\<forall>n. reg' n = (if \<exists>ai\<in>set ais. get_action_name ai = n
                          then Some (last (filter (\<lambda>ai. get_action_name ai = n) ais)) else reg n))"
  using assms by (auto simp: parse_config_Inr registry_of_lookup)

theorem parse_config_last_wins_witness:
  "parse_config Map.empty
     (YSeq [YDict [(''name'', YStr ''pickup''), (''interface_type'', YStr ''service''), (''service_name'', YStr ''first'')],
            YDict [(''name'', YStr ''pickup''), (''interface_type'', YStr ''service''), (''service_name'', YStr ''second'')]])
   = Inr [''pickup'' \<mapsto> ServiceAI \<lparr>srv_action_name = ''pickup'', service_name = ''second''\<rparr>] \<and>
   (\<exists>as ais. entries_interfaces as = Inr ais \<and> length ais = 2 \<and>
     last (filter (\<lambda>ai. get_action_name ai = ''pickup'') ais) =
       ServiceAI \<lparr>srv_action_name = ''pickup'', service_name = ''second''\<rparr>)"
proof -
  define v where "v = YSeq [YDict [(''name'', YStr ''pickup''), (''interface_type'', YStr ''service''), (''service_name'', YStr ''first'')],
            YDict [(''name'', YStr ''pickup''), (''interface_type'', YStr ''service''), (''service_name'', YStr ''second'')]]"
  have ev: "parse_config Map.empty v = Inr [''pickup'' \<mapsto> ServiceAI \<lparr>srv_action_name = ''pickup'', service_name = ''second''\<rparr>]"
    by (simp add: v_def parse_config_def parse_entry_def parse_service_def mk_service_def fun_upd_twist)
  from parse_config_last_wins [OF ev] obtain as ais where
    as: "py_iter v = Inr as" and ais: "entries_interfaces as = Inr ais"
    and lk: "\<forall>n. [''pickup'' \<mapsto> ServiceAI \<lparr>srv_action_name = ''pickup'', service_name = ''second''\<rparr>] n =
          (if \<exists>ai\<in>set ais. get_action_name ai = n
           then Some (last (filter (\<lambda>ai. get_action_name ai = n) ais)) else None)"
    by blast
  from as ais have "length ais = 2"
    by (auto simp: v_def entry_interface_def mk_service_def)
  moreover from lk [rule_format, of "''pickup''"] have
    "last (filter (\<lambda>ai. get_action_name ai = ''pickup'') ais) =
       ServiceAI \<lparr>srv_action_name = ''pickup'', service_name = ''second''\<rparr>"
    by (auto split: if_splits)
  ultimately show ?thesis using ev ais unfolding v_def by blast
qed

text \<open>C8: the registry's invariant, every key is the name of the interface filed under
  it, holds after parsing whenever it held before (in particular from the empty class
  dictionary).\<close>

theorem parse_config_wf:
  assumes "reg_wf reg" and "parse_config reg v = Inr reg'"
  shows "reg_wf reg'"
proof -
  from assms(2) obtain ais where "reg' = registry_of reg ais" by (auto simp: parse_config_Inr)
  with assms(1) show ?thesis by (simp add: reg_wf_registry_of)
qed

theorem parse_config_wf_witness:
  "reg_wf Map.empty \<and>
   parse_config Map.empty (YSeq [YDict [(''name'', YStr ''pickup''), (''interface_type'', YStr ''service''),
                                        (''service_name'', YStr ''pickup_srv'')]])
     = Inr [''pickup'' \<mapsto> ServiceAI \<lparr>srv_action_name = ''pickup'', service_name = ''pickup_srv''\<rparr>] \<and>
   reg_wf [''pickup'' \<mapsto> ServiceAI \<lparr>srv_action_name = ''pickup'', service_name = ''pickup_srv''\<rparr>]"
proof -
  have e: "reg_wf Map.empty" by (simp add: reg_wf_def)
  have p: "parse_config Map.empty (YSeq [YDict [(''name'', YStr ''pickup''), (''interface_type'', YStr ''service''),
                                        (''service_name'', YStr ''pickup_srv'')]])
     = Inr [''pickup'' \<mapsto> ServiceAI \<lparr>srv_action_name = ''pickup'', service_name = ''pickup_srv''\<rparr>]"
    by (simp add: parse_config_def parse_entry_def parse_service_def mk_service_def)
  from e p parse_config_wf [OF e p] show ?thesis by blast
qed

text \<open>C11: a configuration entry whose \<open>interface_type\<close> is present but is none of
  \<open>actionlib\<close>, \<open>service\<close> and \<open>fsm\<close> is skipped without any error: the registry is
  unchanged and parsing goes on.\<close>

theorem parse_entry_unknown_type_skipped:
  assumes "dict_get a ''interface_type'' = Inr t"
    and "t \<notin> {YStr ''actionlib'', YStr ''service'', YStr ''fsm''}"
  shows "parse_entry reg a = Inr reg"
  using assms by (simp add: parse_entry_def)

theorem parse_entry_unknown_type_skipped_witness:
  "dict_get (YDict [(''name'', YStr ''pickup''), (''interface_type'', YStr ''services'')]) ''interface_type'' = Inr (YStr ''services'') \<and>
   YStr ''services'' \<notin> {YStr ''actionlib'', YStr ''service'', YStr ''fsm''} \<and>
   parse_entry Map.empty (YDict [(''name'', YStr ''pickup''), (''interface_type'', YStr ''services'')]) = Inr Map.empty"
proof -
  have d: "dict_get (YDict [(''name'', YStr ''pickup''), (''interface_type'', YStr ''services'')]) ''interface_type'' = Inr (YStr ''services'')"
    by simp
  have t: "YStr ''services'' \<notin> {YStr ''actionlib'', YStr ''service'', YStr ''fsm''}" by simp
  from d t parse_entry_unknown_type_skipped [OF d t, of Map.empty] show ?thesis by blast
qed

end
