(* ===== verification/Registry_Order.thy ===== *)
theory Registry_Order
  imports Registry "HOL-Library.Multiset"
begin

text \<open>
  The order of the configuration entries. \<open>parse_config\<close> files the interfaces one after
  the other, so with two entries of the same name the later one wins (C7). When no two
  entries share a name the order does not matter: any permutation of the entries yields
  the same registry. The proof goes through the multiset of interfaces the entries
  contribute, which a permutation does not change.
\<close>

text \<open>The interfaces one configuration entry contributes: its own, or none for an
  unknown interface type.\<close>

definition entry_ais :: "yval \<Rightarrow> action_interface list" where
  "entry_ais a = (case entry_interface a of Inr (Some ai) \<Rightarrow> [ai] | _ \<Rightarrow> [])"

subsection \<open>What the entries contribute\<close>

lemma py_str_Inr [simp]: "py_str v = Inr s \<longleftrightarrow> v = YStr s"
  by (cases v) auto

lemma entry_interface_name:
  "entry_interface a = Inr (Some ai) \<Longrightarrow> dict_get a ''name'' = Inr (YStr (get_action_name ai))"
  by (auto simp: entry_interface_def mk_actionlib_def mk_service_def mk_fsm_def get_str_def Let_def
      split: if_splits)

lemma entries_interfaces_Inr:
  "entries_interfaces as = Inr ais \<longleftrightarrow>
     (\<forall>a\<in>set as. \<exists>oi. entry_interface a = Inr oi) \<and> ais = concat (map entry_ais as)"
proof (induction as arbitrary: ais)
  case Nil
  then show ?case by auto
next
  case (Cons a as)
  show ?case
  proof (cases "entry_interface a")
    case (Inl err)
    then show ?thesis by simp
  next
    case (Inr oi)
    with Cons.IH show ?thesis
      by (cases oi) (auto simp: entry_ais_def)
  qed
qed

lemma mset_concat_map: "mset (concat (map f xs)) = sum_mset (image_mset (\<lambda>x. mset (f x)) (mset xs))"
  by (induction xs) auto

lemma entry_ais_cases: "entry_ais a = [] \<or> (\<exists>ai. entry_interface a = Inr (Some ai) \<and> entry_ais a = [ai])"
  by (simp add: entry_ais_def split: sum.split option.split)

lemma distinct_entry_names:
  "distinct (map (\<lambda>a. dict_get a ''name'') as) \<Longrightarrow> distinct (map get_action_name (concat (map entry_ais as)))"
proof (induction as)
  case Nil
  then show ?case by simp
next
  case (Cons a as)
  have fresh: "get_action_name ai \<notin> get_action_name ` set (concat (map entry_ais as))"
    if "entry_interface a = Inr (Some ai)" for ai
  proof
    assume "get_action_name ai \<in> get_action_name ` set (concat (map entry_ais as))"
    then obtain a' ai' where a': "a' \<in> set as" "ai' \<in> set (entry_ais a')" "get_action_name ai' = get_action_name ai"
      by auto
    then have "entry_interface a' = Inr (Some ai')" by (auto simp: entry_ais_def split: sum.splits option.splits)
    with that a'(3) have "dict_get a ''name'' = dict_get a' ''name''" by (simp add: entry_interface_name)
    with a'(1) have "dict_get a ''name'' \<in> (\<lambda>a. dict_get a ''name'') ` set as" by (rule rev_image_eqI)
    with Cons.prems show False by simp
  qed
  from Cons have rest: "distinct (map get_action_name (concat (map entry_ais as)))" by simp
  consider "entry_ais a = []" | ai where "entry_interface a = Inr (Some ai)" "entry_ais a = [ai]"
    using entry_ais_cases [of a] by blast
  then show ?case
  proof cases
    case 1
    with rest show ?thesis by simp
  next
    case (2 ai)
    with fresh [OF 2(1)] rest show ?thesis by simp
  qed
qed

subsection \<open>Filing interfaces with distinct names in any order\<close>

lemma length_le_1_if_same_key:
  "distinct (map f xs) \<Longrightarrow> \<forall>x\<in>set xs. f x = c \<Longrightarrow> length xs \<le> 1"
  by (induction xs) (auto simp: image_constant_conv split: if_splits)

lemma mset_eq_short: "mset xs = mset ys \<Longrightarrow> length ys \<le> 1 \<Longrightarrow> xs = ys"
proof -
  assume m: "mset xs = mset ys" and l: "length ys \<le> 1"
  from m have "length xs = length ys" by (rule mset_eq_length)
  with m l show "xs = ys" by (cases ys; cases xs) auto
qed

lemma registry_of_perm:
  assumes m: "mset ais' = mset ais" and d: "distinct (map get_action_name ais)"
  shows "registry_of reg ais' = registry_of reg ais"
proof
  fix n
  let ?P = "\<lambda>ai. get_action_name ai = n"
  from m have s: "set ais' = set ais" by (rule mset_eq_setD)
  from m have "mset (filter ?P ais') = mset (filter ?P ais)" by simp
  moreover have "length (filter ?P ais) \<le> 1"
    using d by (intro length_le_1_if_same_key [where f = get_action_name and c = n]) (auto simp: distinct_map_filter)
  ultimately have "filter ?P ais' = filter ?P ais" by (rule mset_eq_short)
  with s show "registry_of reg ais' n = registry_of reg ais n" by (simp add: registry_of_lookup)
qed

subsection \<open>Claim\<close>

text \<open>C29: when no two configuration entries share a name, the order of the entries
  does not matter: a successful parse of any permutation of them yields the same
  registry. (With duplicates the last one wins, C7, so order matters only then.)\<close>

theorem parse_config_order_independent:
  assumes p: "parse_config reg (YSeq as) = Inr r" and m: "mset as' = mset as"
    and d: "distinct (map (\<lambda>a. dict_get a ''name'') as)"
  shows "parse_config reg (YSeq as') = Inr r"
proof -
  from p obtain ais where e: "entries_interfaces as = Inr ais" and r: "r = registry_of reg ais"
    by (auto simp: parse_config_Inr)
  from e have ok: "\<forall>a\<in>set as. \<exists>oi. entry_interface a = Inr oi" and ais: "ais = concat (map entry_ais as)"
    by (simp_all add: entries_interfaces_Inr)
  from m have s: "set as' = set as" by (rule mset_eq_setD)
  with ok have e': "entries_interfaces as' = Inr (concat (map entry_ais as'))"
    by (simp add: entries_interfaces_Inr)
  from m have "mset (concat (map entry_ais as')) = mset ais" by (simp add: ais mset_concat_map)
  moreover from d have "distinct (map get_action_name ais)" by (simp add: ais distinct_entry_names)
  ultimately have "registry_of reg (concat (map entry_ais as')) = registry_of reg ais" by (rule registry_of_perm)
  with e' r show ?thesis by (simp add: parse_config_Inr)
qed

theorem parse_config_order_independent_witness:
  "parse_config Map.empty
     (YSeq [YDict [(''name'', YStr ''place''), (''interface_type'', YStr ''service''), (''service_name'', YStr ''place_srv'')],
            YDict [(''name'', YStr ''pickup''), (''interface_type'', YStr ''service''), (''service_name'', YStr ''pickup_srv'')]]) =
   parse_config Map.empty
     (YSeq [YDict [(''name'', YStr ''pickup''), (''interface_type'', YStr ''service''), (''service_name'', YStr ''pickup_srv'')],
            YDict [(''name'', YStr ''place''), (''interface_type'', YStr ''service''), (''service_name'', YStr ''place_srv'')]])"
proof -
  define a1 where "a1 = YDict [(''name'', YStr ''pickup''), (''interface_type'', YStr ''service''), (''service_name'', YStr ''pickup_srv'')]"
  define a2 where "a2 = YDict [(''name'', YStr ''place''), (''interface_type'', YStr ''service''), (''service_name'', YStr ''place_srv'')]"
  have "\<exists>r. parse_config Map.empty (YSeq [a1, a2]) = Inr r"
    by (simp add: a1_def a2_def parse_config_def parse_entry_def parse_service_def mk_service_def)
  then obtain r where p: "parse_config Map.empty (YSeq [a1, a2]) = Inr r" ..
  have m: "mset [a2, a1] = mset [a1, a2]" by simp
  have d: "distinct (map (\<lambda>a. dict_get a ''name'') [a1, a2])" by (simp add: a1_def a2_def)
  from parse_config_order_independent [OF p m d] p
  have "parse_config Map.empty (YSeq [a2, a1]) = parse_config Map.empty (YSeq [a1, a2])" by simp
  then show ?thesis unfolding a1_def a2_def .
qed

end
