(* ===== verification/Manager.thy ===== *)
theory Manager
  imports Registry_Order
begin

text \<open>
  The \<open>ActionInterfaceManager\<close> node (ActionInterfaceManager.py, lines 16-67 and
  100-103). The process state \<open>ros_node\<close> holds what the code reads and writes: the
  registry, which is the class attribute \<open>_action_interfaces\<close> (line 19) and therefore
  shared by every instance of the class; the knowledge-base link; the configuration
  read from the parameter server; the feedback publisher and the dispatch subscriber;
  the shutdown request; the log; and the trace of observable events.

  \<open>aim_init\<close> is \<open>__init__\<close>: without the \<open>actions\<close> parameter it logs an error,
  requests shutdown and returns; otherwise it connects the publisher and the subscriber
  (\<open>init_connect\<close>) and only then parses the configuration into the registry
  (\<open>init_parse\<close>). \<open>dispatch_callback\<close> ignores a command whose name is not
  registered; otherwise it publishes DISPATCHED, requests the start effects and starts
  the registered interface's run, returned as the in-flight job. \<open>dispatch_sync\<close>
  runs that job to completion in the callback, as a strategy whose \<open>run\<close> blocks would.
\<close>

datatype log_entry = LogErr string | LogInfo string

record ros_node =
  action_interfaces :: registry
  kb_link :: bool
  cfg_actions :: "yval option"
  action_feedback_pub :: "string option"
  dispatch_sub :: "string option"
  shutdown_reason :: "string option"
  logs :: "log_entry list"
  trace :: "event list"

type_synonym params = "string \<rightharpoonup> yval"

text \<open>\<open>rospy.get_param(k, default)\<close>.\<close>

definition get_param :: "params \<Rightarrow> string \<Rightarrow> yval \<Rightarrow> yval" where
  "get_param ps k d = (case ps k of None \<Rightarrow> d | Some v \<Rightarrow> v)"

text \<open>The name check of \<open>rospy.Publisher\<close> and \<open>rospy.Subscriber\<close> (rospy's \<open>Topic\<close>
  constructor): a topic name must be a non-empty string, otherwise \<open>ValueError\<close>.\<close>

fun ros_topic :: "yval \<Rightarrow> py_error + string" where
  "ros_topic (YStr s) = (if s = [] then Inl (ValueError ''topic name'') else Inr s)"
| "ros_topic _ = Inl (ValueError ''topic name'')"

text \<open>Line 101, \<open>rospy.init_node('RPStateMachine')\<close>: the node's resolved name, which
  \<open>rospy.get_name()\<close> returns in the global namespace (no remapping of \<open>__name\<close>).\<close>

definition node_name :: string where
  "node_name = ''/RPStateMachine''"

text \<open>Lines 32 and 46: \<open>'KCL: ({}) ...'.format(rospy.get_name())\<close>.\<close>

definition kcl_log :: "string \<Rightarrow> string" where
  "kcl_log msg = ''KCL: ('' @ node_name @ '') '' @ msg"

subsection \<open>Construction\<close>

text \<open>Lines 36-42: the feedback publisher, then the dispatch subscriber (queue size 10),
  each on the topic named by a private parameter or its default.\<close>

definition init_connect :: "params \<Rightarrow> ros_node \<Rightarrow> py_error + ros_node" where
  "init_connect ps n =
     sbind (ros_topic (get_param ps ''~action_feedback_topic'' (YStr ''default_feedback_topic''))) (\<lambda>aft.
     sbind (ros_topic (get_param ps ''~action_dispatch_topic'' (YStr ''default_dispatch_topic''))) (\<lambda>adt.
     Inr (n\<lparr>action_feedback_pub := Some aft, dispatch_sub := Some adt\<rparr>)))"

definition init_parse :: "ros_node \<Rightarrow> yval \<Rightarrow> py_error + ros_node" where
  "init_parse n cfg =
     sbind (parse_config (action_interfaces n) cfg) (\<lambda>reg.
     Inr (n\<lparr>action_interfaces := reg, logs := logs n @ [LogInfo (kcl_log ''Ready to receive'')]\<rparr>))"

text \<open>Lines 36-44 of \<open>__init__\<close>, in source order, as a list of statements: connect the
  publisher and the subscriber (lines 36-42), then parse the configuration (line 44).
  \<open>run_body\<close> runs statements one after the other; the first exception ends the run.
  \<open>init_prefix\<close> is the node after the first \<open>i\<close> of them, the state another thread (the
  subscriber's callback) can observe while \<open>__init__\<close> is still running.\<close>

definition init_body :: "params \<Rightarrow> yval \<Rightarrow> (ros_node \<Rightarrow> py_error + ros_node) list" where
  "init_body ps cfg = [init_connect ps, \<lambda>n. init_parse n cfg]"

fun run_body :: "(ros_node \<Rightarrow> py_error + ros_node) list \<Rightarrow> ros_node \<Rightarrow> py_error + ros_node" where
  "run_body [] n = Inr n"
| "run_body (f # fs) n = sbind (f n) (run_body fs)"

definition init_prefix :: "params \<Rightarrow> yval \<Rightarrow> ros_node \<Rightarrow> nat \<Rightarrow> py_error + ros_node" where
  "init_prefix ps cfg n0 i = run_body (take i (init_body ps cfg)) (n0\<lparr>kb_link := True, cfg_actions := Some cfg\<rparr>)"

text \<open>Lines 31-34: the configuration was not found.\<close>

definition config_missing :: "ros_node \<Rightarrow> ros_node" where
  "config_missing n = n\<lparr>logs := logs n @ [LogErr (kcl_log ''Error: configuration file was not laoded.'')],
                         shutdown_reason := Some ''Config not found''\<rparr>"

definition aim_init :: "params \<Rightarrow> ros_node \<Rightarrow> py_error + ros_node" where
  "aim_init ps n0 =
     (let n1 = n0\<lparr>kb_link := True\<rparr> in
      case ps ''actions'' of
        None \<Rightarrow> Inr (config_missing n1)
      | Some cfg \<Rightarrow>
          run_body (init_body ps cfg) (n1\<lparr>cfg_actions := Some cfg\<rparr>))"

text \<open>A fresh process: the class attribute is the empty dictionary.\<close>

definition initial_node :: ros_node where
  "initial_node = \<lparr>action_interfaces = Map.empty, kb_link = False, cfg_actions = None,
     action_feedback_pub = None, dispatch_sub = None, shutdown_reason = None, logs = [], trace = []\<rparr>"

definition main :: "params \<Rightarrow> py_error + ros_node" where
  "main ps = aim_init ps initial_node"

subsection \<open>The dispatch callback\<close>

text \<open>Lines 55-63: the DISPATCHED feedback, then the start effects.\<close>

definition dispatch_events :: "action_dispatch \<Rightarrow> event list" where
  "dispatch_events m = [Publish (mk_feedback m ACTION_DISPATCHED_TO_GOAL_STATE), KbApply m 0]"

definition dispatch_callback :: "ros_node \<Rightarrow> action_dispatch \<Rightarrow> env \<Rightarrow> ros_node \<times> job option" where
  "dispatch_callback n m e =
     (case action_interfaces n (name m) of
        None \<Rightarrow> (n, None)
      | Some ai \<Rightarrow> (n\<lparr>trace := trace n @ dispatch_events m\<rparr>, Some (start_job ai m e)))"

definition dispatch_sync :: "ros_node \<Rightarrow> action_dispatch \<Rightarrow> env \<Rightarrow> ros_node option" where
  "dispatch_sync n m e =
     (case dispatch_callback n m e of
        (n', None) \<Rightarrow> Some n'
      | (n', Some j) \<Rightarrow> map_option (\<lambda>evs. n'\<lparr>trace := trace n' @ evs\<rparr>) (drive job_step j))"

text \<open>The node's type invariant: the registry files every interface under its own name,
  and once the subscriber exists so do the feedback publisher (line 38) and the
  knowledge-base link (line 24) that the callback uses at lines 58 and 62; otherwise
  those attribute reads would raise \<open>AttributeError\<close>.\<close>

definition node_wf :: "ros_node \<Rightarrow> bool" where
  "node_wf n =
     (reg_wf (action_interfaces n) \<and>
      (dispatch_sub n = None \<or> (action_feedback_pub n \<noteq> None \<and> kb_link n)))"

subsection \<open>Properties of the callback\<close>

lemma dispatch_callback_unregistered:
  "action_interfaces n (name m) = None \<Longrightarrow> dispatch_callback n m e = (n, None)"
  by (simp add: dispatch_callback_def)

lemma dispatch_callback_registered:
  "action_interfaces n (name m) = Some ai \<Longrightarrow>
     dispatch_callback n m e = (n\<lparr>trace := trace n @ dispatch_events m\<rparr>, Some (start_job ai m e))"
  by (simp add: dispatch_callback_def)

lemma dispatch_events_keys: "\<forall>ev\<in>set (dispatch_events m). ev_key ev = msg_key m"
  by (simp add: dispatch_events_def)

lemma lc_run_dispatch_events [simp]: "lc_run Idle (dispatch_events m) = Some Running"
  by (simp add: dispatch_events_def)

lemma run_keys: "run ai m e = Some r \<Longrightarrow> \<forall>ev\<in>set r. ev_key ev = msg_key m"
  unfolding run_def by (rule drive_events) (rule exec_step_keys)

lemma run_strategy_ok: "run ai m e = Some r \<Longrightarrow> strategy_ok r"
  unfolding run_def by (rule drive_strategy_ok [OF exec_step_contract exec_matches_start])

lemma dispatch_sync_registered:
  "action_interfaces n (name m) = Some ai \<Longrightarrow>
     dispatch_sync n m e = map_option (\<lambda>r. n\<lparr>trace := trace n @ dispatch_events m @ r\<rparr>) (run ai m e)"
  by (simp add: dispatch_sync_def dispatch_callback_registered drive_start_job option.map_comp comp_def)

lemma dispatch_sync_unregistered:
  "action_interfaces n (name m) = None \<Longrightarrow> dispatch_sync n m e = Some n"
  by (simp add: dispatch_sync_def dispatch_callback_unregistered)

subsection \<open>Properties of construction\<close>

lemma run_body_Nil: "run_body [] = Inr"
  by (rule ext) simp

lemma run_body_single: "run_body [f] = f"
  by (rule ext) (simp add: run_body_Nil)

lemma aim_init_eq:
  "aim_init ps n0 =
     (let n1 = n0\<lparr>kb_link := True\<rparr> in
      case ps ''actions'' of
        None \<Rightarrow> Inr (config_missing n1)
      | Some cfg \<Rightarrow>
          sbind (init_connect ps (n1\<lparr>cfg_actions := Some cfg\<rparr>)) (\<lambda>n2. init_parse n2 cfg))"
  unfolding aim_init_def init_body_def Let_def by (simp add: run_body_single split: option.split)

lemma init_connect_Inr:
  "init_connect ps n = Inr n2 \<Longrightarrow>
     action_interfaces n2 = action_interfaces n \<and> trace n2 = trace n \<and> dispatch_sub n2 \<noteq> None \<and>
     action_feedback_pub n2 \<noteq> None \<and> shutdown_reason n2 = shutdown_reason n"
  by (auto simp: init_connect_def)

lemma init_parse_Inr:
  "init_parse n cfg = Inr n' \<longleftrightarrow>
     (\<exists>reg. parse_config (action_interfaces n) cfg = Inr reg \<and>
        n' = n\<lparr>action_interfaces := reg, logs := logs n @ [LogInfo (kcl_log ''Ready to receive'')]\<rparr>)"
  by (auto simp: init_parse_def)

lemma aim_init_Some_Inr:
  "ps ''actions'' = Some cfg \<Longrightarrow> aim_init ps n = Inr n' \<Longrightarrow>
     \<exists>n2 reg. init_connect ps (n\<lparr>kb_link := True, cfg_actions := Some cfg\<rparr>) = Inr n2 \<and>
       parse_config (action_interfaces n) cfg = Inr reg \<and>
       n' = n2\<lparr>action_interfaces := reg, logs := logs n2 @ [LogInfo (kcl_log ''Ready to receive'')]\<rparr>"
proof -
  assume cfg: "ps ''actions'' = Some cfg" and ini: "aim_init ps n = Inr n'"
  from cfg ini obtain n2 where n2: "init_connect ps (n\<lparr>kb_link := True, cfg_actions := Some cfg\<rparr>) = Inr n2"
    and p: "init_parse n2 cfg = Inr n'"
    by (auto simp: aim_init_eq)
  from n2 have "action_interfaces n2 = action_interfaces n" by (auto dest: init_connect_Inr)
  with n2 p show ?thesis by (auto simp: init_parse_Inr)
qed

lemma filter_entry_ais_other:
  "\<forall>b\<in>set post. dict_get b ''name'' \<noteq> Inr (YStr x) \<Longrightarrow>
     filter (\<lambda>ai. get_action_name ai = x) (concat (map entry_ais post)) = []"
proof (induction post)
  case Nil
  then show ?case by simp
next
  case (Cons b post)
  have "filter (\<lambda>ai. get_action_name ai = x) (entry_ais b) = []"
  proof (cases "entry_ais b = []")
    case False
    with entry_ais_cases [of b] obtain ai where "entry_interface b = Inr (Some ai)" "entry_ais b = [ai]" by blast
    with Cons.prems show ?thesis by (auto dest: entry_interface_name)
  qed simp
  with Cons show ?case by simp
qed

text \<open>After \<open>main\<close>, the registry holds for a name the interface of the last entry that
  declares it.\<close>

lemma main_registry_last_entry:
  assumes mn: "main ps = Inr n" and cfg: "ps ''actions'' = Some (YSeq (pre @ a # post))"
    and ea: "entry_interface a = Inr (Some ai)"
    and later: "\<forall>b\<in>set post. dict_get b ''name'' \<noteq> Inr (YStr (get_action_name ai))"
  shows "action_interfaces n (get_action_name ai) = Some ai"
proof -
  from aim_init_Some_Inr [OF cfg mn [unfolded main_def]] obtain n2 reg where
    p: "parse_config (action_interfaces initial_node) (YSeq (pre @ a # post)) = Inr reg"
    and n: "n = n2\<lparr>action_interfaces := reg, logs := logs n2 @ [LogInfo (kcl_log ''Ready to receive'')]\<rparr>"
    by blast
  from p obtain ais where e: "entries_interfaces (pre @ a # post) = Inr ais" and r: "reg = registry_of Map.empty ais"
    by (auto simp: parse_config_Inr initial_node_def)
  from e have ais: "ais = concat (map entry_ais (pre @ a # post))" by (simp add: entries_interfaces_Inr)
  from ea have ea': "entry_ais a = [ai]" by (simp add: entry_ais_def)
  with ais have mem: "ai \<in> set ais" by simp
  from ea' ais filter_entry_ais_other [OF later]
  have "filter (\<lambda>x. get_action_name x = get_action_name ai) ais =
      filter (\<lambda>x. get_action_name x = get_action_name ai) (concat (map entry_ais pre)) @ [ai]" by simp
  with n r mem show ?thesis by (auto simp: registry_of_lookup)
qed

lemma node_wf_initial [simp]: "node_wf initial_node"
  by (simp add: node_wf_def initial_node_def reg_wf_def)

lemma aim_init_node_wf:
  assumes wf: "node_wf n" and ini: "aim_init ps n = Inr n'"
  shows "node_wf n'"
proof (cases "ps ''actions''")
  case None
  with wf ini show ?thesis by (auto simp: aim_init_eq config_missing_def node_wf_def)
next
  case (Some cfg)
  from aim_init_Some_Inr [OF Some ini] obtain n2 reg where
    n2: "init_connect ps (n\<lparr>kb_link := True, cfg_actions := Some cfg\<rparr>) = Inr n2"
    and reg: "parse_config (action_interfaces n) cfg = Inr reg"
    and n': "n' = n2\<lparr>action_interfaces := reg, logs := logs n2 @ [LogInfo (kcl_log ''Ready to receive'')]\<rparr>"
    by blast
  from reg obtain ais where "reg = registry_of (action_interfaces n) ais" by (auto simp: parse_config_Inr)
  with wf have "reg_wf reg" by (simp add: node_wf_def reg_wf_registry_of)
  moreover from n2 have "action_feedback_pub n2 \<noteq> None" "kb_link n2"
    by (auto simp: init_connect_def)
  ultimately show ?thesis using n' by (simp add: node_wf_def)
qed

lemma dispatch_callback_node_wf:
  "node_wf n \<Longrightarrow> dispatch_callback n m e = (n', oj) \<Longrightarrow> node_wf n'"
  by (cases "action_interfaces n (name m)")
     (auto simp: dispatch_callback_unregistered dispatch_callback_registered node_wf_def)

subsection \<open>Claims about the callback\<close>

text \<open>C3: a dispatch command whose action name is not registered is ignored: the
  callback publishes no feedback, requests no effects and starts no run.\<close>

theorem dispatch_unregistered_noop:
  assumes "action_interfaces n (name m) = None"
  shows "dispatch_callback n m e = (n, None) \<and> dispatch_sync n m e = Some n"
  using assms by (simp add: dispatch_callback_unregistered dispatch_sync_unregistered)

theorem dispatch_unregistered_noop_witness:
  "action_interfaces initial_node (name \<lparr>action_id = 9, plan_id = 1, name = ''unregistered_action'', parameters = []\<rparr>) = None \<and>
   dispatch_callback initial_node \<lparr>action_id = 9, plan_id = 1, name = ''unregistered_action'', parameters = []\<rparr>
     \<lparr>srv_reply = SrvSuccess, remote = [], outcome = (\<lambda>k s. '''')\<rparr> = (initial_node, None)"
  using dispatch_unregistered_noop [of initial_node "\<lparr>action_id = 9, plan_id = 1, name = ''unregistered_action'', parameters = []\<rparr>"
      "\<lparr>srv_reply = SrvSuccess, remote = [], outcome = (\<lambda>k s. '''')\<rparr>"]
  by (simp add: initial_node_def)

text \<open>C4: for a registered action, a callback whose run returns appends to the trace
  exactly one complete lifecycle of that action instance: DISPATCHED, the start-effect
  request, the strategy's non-terminal events, and one terminal feedback, with the
  end-effect request before a SUCCEEDED; every appended event carries the command's ids.\<close>

theorem dispatch_registered_lifecycle:
  assumes reg: "action_interfaces n (name m) = Some ai"
    and ret: "dispatch_sync n m e = Some n'"
  shows "\<exists>evs. trace n' = trace n @ evs \<and> lifecycle_complete evs \<and> (\<forall>ev\<in>set evs. ev_key ev = msg_key m)"
proof -
  from ret reg obtain r where r: "run ai m e = Some r"
    and n': "n' = n\<lparr>trace := trace n @ dispatch_events m @ r\<rparr>"
    by (auto simp: dispatch_sync_registered)
  have "lifecycle_complete (dispatch_events m @ r)"
    using run_strategy_ok [OF r]
    by (simp add: dispatch_events_def lifecycle_complete_iff_strategy_ok)
  moreover have "\<forall>ev\<in>set (dispatch_events m @ r). ev_key ev = msg_key m"
    using run_keys [OF r] dispatch_events_keys by auto
  ultimately show ?thesis using n' by auto
qed

lemma aim_init_trace: "aim_init ps n = Inr n' \<Longrightarrow> trace n' = trace n"
proof (cases "ps ''actions''")
  case None
  then show "aim_init ps n = Inr n' \<Longrightarrow> trace n' = trace n"
    by (auto simp: aim_init_eq config_missing_def)
next
  case (Some cfg)
  assume "aim_init ps n = Inr n'"
  from aim_init_Some_Inr [OF Some this] obtain n2 reg where
    n2: "init_connect ps (n\<lparr>kb_link := True, cfg_actions := Some cfg\<rparr>) = Inr n2"
    and n': "n' = n2\<lparr>action_interfaces := reg, logs := logs n2 @ [LogInfo (kcl_log ''Ready to receive'')]\<rparr>"
    by blast
  from init_connect_Inr [OF n2] n' show ?thesis by simp
qed

theorem dispatch_registered_lifecycle_witness:
  "\<exists>n n'. action_interfaces n (name \<lparr>action_id = 5, plan_id = 1, name = ''pickup'', parameters = []\<rparr>) \<noteq> None \<and>
     dispatch_sync n \<lparr>action_id = 5, plan_id = 1, name = ''pickup'', parameters = []\<rparr>
       \<lparr>srv_reply = SrvFailure, remote = [], outcome = (\<lambda>k s. '''')\<rparr> = Some n' \<and>
     (\<exists>evs. trace n' = trace n @ evs \<and> lifecycle_complete evs \<and> (\<forall>ev\<in>set evs. ev_key ev = (1, 5)))"
proof -
  define m where "m = \<lparr>action_id = 5, plan_id = 1, name = ''pickup'', parameters = []\<rparr>"
  define e where "e = \<lparr>srv_reply = SrvFailure, remote = [], outcome = (\<lambda>k s. '''')\<rparr>"
  define ai where "ai = ServiceAI \<lparr>srv_action_name = ''pickup'', service_name = ''pickup_srv''\<rparr>"
  define n where "n = initial_node\<lparr>action_interfaces := [''pickup'' \<mapsto> ai]\<rparr>"
  have reg: "action_interfaces n (name m) = Some ai" by (simp add: n_def m_def)
  obtain n' where ds: "dispatch_sync n m e = Some n'"
    by (simp add: dispatch_sync_registered [OF reg] ai_def run_service srv_run_eq)
  from dispatch_registered_lifecycle [OF reg ds] obtain evs where
    "trace n' = trace n @ evs" "lifecycle_complete evs" "\<forall>ev\<in>set evs. ev_key ev = msg_key m"
    by blast
  with reg ds show ?thesis
    unfolding m_def e_def by (intro exI [of _ n] exI [of _ n']) (auto simp: msg_key_def)
qed

subsection \<open>Commands delivered twice\<close>

lemma lc_run_redispatch:
  assumes "strategy_ok r"
  shows "lc_run s (dispatch_events m @ r @ dispatch_events m @ r') = None"
proof (cases "s = Idle")
  case True
  from assms have "lc_run Idle (dispatch_events m @ r) = Some Done"
    by (simp add: lc_run_append strategy_ok_def)
  then have "lc_run Idle ((dispatch_events m @ r) @ dispatch_events m @ r') = lc_run Done (dispatch_events m @ r')"
    by (rule lc_run_append_Some)
  also have "\<dots> = None" by (simp add: dispatch_events_def)
  finally show ?thesis using True by simp
next
  case False
  then show ?thesis by (simp add: dispatch_events_def lc_step_dispatched)
qed

text \<open>C22: the callback keeps no record of the commands it has handled: a registered
  command delivered a second time is run a second time, so its action instance gets a
  second DISPATCHED after its terminal feedback and its events are no longer one
  lifecycle. Exactly-once delivery is an assumption the node makes of the dispatcher.\<close>

theorem dispatch_twice_breaks_lifecycle:
  assumes reg: "action_interfaces n (name m) = Some ai"
    and d1: "dispatch_sync n m e = Some n1" and d2: "dispatch_sync n1 m e = Some n2"
  shows "\<not> lifecycle_prefix (proj (msg_key m) (trace n2))"
proof -
  from reg d1 obtain r where r: "run ai m e = Some r"
    and n1: "n1 = n\<lparr>trace := trace n @ dispatch_events m @ r\<rparr>"
    by (auto simp: dispatch_sync_registered)
  from reg n1 have reg1: "action_interfaces n1 (name m) = Some ai" by simp
  from reg1 d2 r have n2: "n2 = n1\<lparr>trace := trace n1 @ dispatch_events m @ r\<rparr>"
    by (simp add: dispatch_sync_registered)
  have "\<forall>ev\<in>set (dispatch_events m @ r). ev_key ev = msg_key m"
    using dispatch_events_keys [of m] run_keys [OF r] by auto
  then have own: "proj (msg_key m) (dispatch_events m @ r) = dispatch_events m @ r"
    by (rule proj_all_same_key)
  from n1 n2 have "proj (msg_key m) (trace n2) =
      proj (msg_key m) (trace n) @ dispatch_events m @ r @ dispatch_events m @ r"
    by (simp add: own [simplified])
  then show ?thesis
    by (simp add: lifecycle_prefix_def lc_run_append [of Idle "proj (msg_key m) (trace n)"]
        lc_run_redispatch [OF run_strategy_ok [OF r]] split: option.split)
qed

theorem dispatch_twice_breaks_lifecycle_witness:
  "\<exists>n1 n2. dispatch_sync (initial_node\<lparr>action_interfaces := [''pickup'' \<mapsto> ServiceAI \<lparr>srv_action_name = ''pickup'', service_name = ''srv''\<rparr>]\<rparr>)
       \<lparr>action_id = 5, plan_id = 1, name = ''pickup'', parameters = []\<rparr>
       \<lparr>srv_reply = SrvSuccess, remote = [], outcome = (\<lambda>k s. '''')\<rparr> = Some n1 \<and>
     dispatch_sync n1 \<lparr>action_id = 5, plan_id = 1, name = ''pickup'', parameters = []\<rparr>
       \<lparr>srv_reply = SrvSuccess, remote = [], outcome = (\<lambda>k s. '''')\<rparr> = Some n2 \<and>
     \<not> lifecycle_prefix (proj (1, 5) (trace n2))"
proof -
  define ai where "ai = ServiceAI \<lparr>srv_action_name = ''pickup'', service_name = ''srv''\<rparr>"
  define n where "n = initial_node\<lparr>action_interfaces := [''pickup'' \<mapsto> ai]\<rparr>"
  define m where "m = \<lparr>action_id = 5, plan_id = 1, name = ''pickup'', parameters = []\<rparr>"
  define e where "e = \<lparr>srv_reply = SrvSuccess, remote = [], outcome = (\<lambda>k s. '''')\<rparr>"
  have reg: "action_interfaces n (name m) = Some ai" by (simp add: n_def m_def)
  obtain n1 where d1: "dispatch_sync n m e = Some n1"
    by (simp add: dispatch_sync_registered [OF reg] ai_def run_service srv_run_eq)
  from d1 reg have reg1: "action_interfaces n1 (name m) = Some ai"
    by (auto simp: dispatch_sync_registered)
  obtain n2 where d2: "dispatch_sync n1 m e = Some n2"
    by (simp add: dispatch_sync_registered [OF reg1] ai_def run_service srv_run_eq)
  have "\<not> lifecycle_prefix (proj (msg_key m) (trace n2))"
    by (rule dispatch_twice_breaks_lifecycle [OF reg d1 d2])
  with d1 d2 show ?thesis unfolding n_def ai_def m_def e_def by (auto simp: msg_key_def)
qed

end
