(* ===== verification/Startup.thy ===== *)
theory Startup
  imports Manager
begin

text \<open>
  What \<open>__init__\<close> and \<open>main\<close> (ActionInterfaceManager.py, lines 21-46 and 100-103) do with
  the parameters they find: the registry the configuration yields, the orderly shutdown
  without configuration, the window between subscribing and parsing, the registry shared
  by every instance of the class, the topics and their defaults, and the exceptions that
  escape construction for a bad topic name, a configuration that is not a list, an entry
  without a type, or an entry the interface constructor rejects. A configuration that
  registers nothing still starts the node. Last, the spec's service scenario for every
  configuration, from \<open>main\<close> to the events of the callback.
\<close>

subsection \<open>Topic names\<close>

lemma ros_topic_Inr: "ros_topic v = Inr t \<longleftrightarrow> v = YStr t \<and> t \<noteq> []"
  by (cases v) auto

lemma ros_topic_Inl: "ros_topic v = Inl err \<Longrightarrow> err = ValueError ''topic name''"
  by (cases v) (auto split: if_splits)

text \<open>C20: after a successful construction the subscriber listens on the topic named by
  the private parameter \<open>~action_dispatch_topic\<close>, or on \<open>default_dispatch_topic\<close> when it
  is not set, and the publisher likewise uses \<open>~action_feedback_topic\<close> or
  \<open>default_feedback_topic\<close>; both names are non-empty strings.\<close>

theorem init_topics:
  assumes "ps ''actions'' = Some cfg" and "aim_init ps n = Inr n'"
  shows "\<exists>adt aft. get_param ps ''~action_dispatch_topic'' (YStr ''default_dispatch_topic'') = YStr adt \<and>
           adt \<noteq> [] \<and> dispatch_sub n' = Some adt \<and>
           get_param ps ''~action_feedback_topic'' (YStr ''default_feedback_topic'') = YStr aft \<and>
           aft \<noteq> [] \<and> action_feedback_pub n' = Some aft"
proof -
  from aim_init_Some_Inr [OF assms] obtain n2 reg where
    n2: "init_connect ps (n\<lparr>kb_link := True, cfg_actions := Some cfg\<rparr>) = Inr n2"
    and n': "n' = n2\<lparr>action_interfaces := reg, logs := logs n2 @ [LogInfo (kcl_log ''Ready to receive'')]\<rparr>"
    by blast
  from n2 obtain aft adt where
    "ros_topic (get_param ps ''~action_feedback_topic'' (YStr ''default_feedback_topic'')) = Inr aft"
    "ros_topic (get_param ps ''~action_dispatch_topic'' (YStr ''default_dispatch_topic'')) = Inr adt"
    "dispatch_sub n2 = Some adt" "action_feedback_pub n2 = Some aft"
    by (auto simp: init_connect_def)
  with n' show ?thesis by (auto simp: ros_topic_Inr)
qed

theorem init_topics_witness:
  "\<exists>n'. aim_init [''actions'' \<mapsto> YSeq [], ''~action_dispatch_topic'' \<mapsto> YStr ''kcl_dispatch'']
          initial_node = Inr n' \<and>
        dispatch_sub n' = Some ''kcl_dispatch'' \<and> action_feedback_pub n' = Some ''default_feedback_topic''"
proof -
  define ps :: params where "ps = [''actions'' \<mapsto> YSeq [], ''~action_dispatch_topic'' \<mapsto> YStr ''kcl_dispatch'']"
  obtain n' where ini: "aim_init ps initial_node = Inr n'"
    by (simp add: ps_def aim_init_eq init_connect_def init_parse_def get_param_def parse_config_def)
  have "ps ''actions'' = Some (YSeq [])" by (simp add: ps_def)
  from init_topics [OF this ini] obtain adt aft where
    "get_param ps ''~action_dispatch_topic'' (YStr ''default_dispatch_topic'') = YStr adt"
    "dispatch_sub n' = Some adt"
    "get_param ps ''~action_feedback_topic'' (YStr ''default_feedback_topic'') = YStr aft"
    "action_feedback_pub n' = Some aft"
    by blast
  with ini show ?thesis unfolding ps_def by (auto simp: get_param_def)
qed

text \<open>C21: a dispatch topic parameter that is not a non-empty string makes construction
  raise \<open>ValueError\<close> out of \<open>__init__\<close> and \<open>main\<close>, after the publisher and before any
  subscription or parsing: the node does not start.\<close>

theorem main_bad_dispatch_topic:
  assumes "ps ''actions'' = Some cfg" and "ps ''~action_dispatch_topic'' = Some v"
    and "\<forall>s. v = YStr s \<longrightarrow> s = []"
  shows "main ps = Inl (ValueError ''topic name'')"
proof -
  have v: "ros_topic v = Inl (ValueError ''topic name'')"
    using assms(3) by (cases v) auto
  show ?thesis
  proof (cases "ros_topic (get_param ps ''~action_feedback_topic'' (YStr ''default_feedback_topic''))")
    case (Inl err)
    with assms(1) show ?thesis
      by (simp add: main_def aim_init_eq init_connect_def ros_topic_Inl [OF Inl])
  next
    case (Inr aft)
    with assms(1,2) v show ?thesis
      by (simp add: main_def aim_init_eq init_connect_def get_param_def)
  qed
qed

theorem main_bad_dispatch_topic_witness:
  "main [''actions'' \<mapsto> YSeq [], ''~action_dispatch_topic'' \<mapsto> YInt 7] = Inl (ValueError ''topic name'')"
  by (rule main_bad_dispatch_topic [of _ "YSeq []" "YInt 7"]) simp_all

subsection \<open>The registry, shutdown and the subscription window\<close>

text \<open>C9: when the \<open>actions\<close> parameter is present and construction succeeds, the
  node has a feedback publisher and a dispatch subscriber, requested no shutdown, and its
  registry is the class registry extended by the reference reading of the configuration
  (the interfaces of the recognised entries, inserted in order).\<close>

theorem aim_init_registry:
  assumes "ps ''actions'' = Some cfg" and "aim_init ps n = Inr n'"
  shows "\<exists>as ais. py_iter cfg = Inr as \<and> entries_interfaces as = Inr ais \<and>
           action_interfaces n' = registry_of (action_interfaces n) ais \<and>
           dispatch_sub n' \<noteq> None \<and> action_feedback_pub n' \<noteq> None \<and>
           shutdown_reason n' = shutdown_reason n \<and> trace n' = trace n"
proof -
  from aim_init_Some_Inr [OF assms] obtain n2 reg where
    n2: "init_connect ps (n\<lparr>kb_link := True, cfg_actions := Some cfg\<rparr>) = Inr n2"
    and reg: "parse_config (action_interfaces n) cfg = Inr reg"
    and n': "n' = n2\<lparr>action_interfaces := reg, logs := logs n2 @ [LogInfo (kcl_log ''Ready to receive'')]\<rparr>"
    by blast
  from reg obtain as ais where "py_iter cfg = Inr as" "entries_interfaces as = Inr ais"
    "reg = registry_of (action_interfaces n) ais"
    by (auto simp: parse_config_Inr)
  with init_connect_Inr [OF n2] n' show ?thesis by auto
qed

theorem aim_init_registry_witness:
  "\<exists>n'. aim_init [''actions'' \<mapsto> YSeq [YDict [(''name'', YStr ''pickup''), (''interface_type'', YStr ''service''),
                                         (''service_name'', YStr ''pickup_srv'')]]] initial_node = Inr n' \<and>
        action_interfaces n' ''pickup'' = Some (ServiceAI \<lparr>srv_action_name = ''pickup'', service_name = ''pickup_srv''\<rparr>) \<and>
        dispatch_sub n' \<noteq> None"
proof -
  define cfg where "cfg = YSeq [YDict [(''name'', YStr ''pickup''), (''interface_type'', YStr ''service''),
                                         (''service_name'', YStr ''pickup_srv'')]]"
  define ps :: params where "ps = [''actions'' \<mapsto> cfg]"
  obtain n' where ini: "aim_init ps initial_node = Inr n'"
    by (simp add: ps_def cfg_def aim_init_eq initial_node_def init_connect_def init_parse_def get_param_def
        parse_config_def parse_entry_def parse_service_def mk_service_def)
  have "ps ''actions'' = Some cfg" by (simp add: ps_def)
  from aim_init_registry [OF this ini] obtain as ais where
    "py_iter cfg = Inr as" "entries_interfaces as = Inr ais"
    "action_interfaces n' = registry_of (action_interfaces initial_node) ais" "dispatch_sub n' \<noteq> None"
    by blast
  then have "action_interfaces n' ''pickup'' = Some (ServiceAI \<lparr>srv_action_name = ''pickup'', service_name = ''pickup_srv''\<rparr>)"
    by (auto simp: cfg_def entry_interface_def mk_service_def register_def initial_node_def)
  with ini \<open>dispatch_sub n' \<noteq> None\<close> show ?thesis unfolding ps_def cfg_def by blast
qed

text \<open>C10: without the \<open>actions\<close> parameter the node logs the error, requests an orderly
  shutdown and returns before creating the publisher and the subscriber: it registers no
  action and will never receive a command.\<close>

theorem main_missing_config:
  assumes "ps ''actions'' = None"
  shows "\<exists>n. main ps = Inr n \<and> shutdown_reason n = Some ''Config not found'' \<and>
           dispatch_sub n = None \<and> action_feedback_pub n = None \<and> action_interfaces n = Map.empty \<and>
           logs n = [LogErr (kcl_log ''Error: configuration file was not laoded.'')]"
  using assms by (simp add: main_def aim_init_eq initial_node_def config_missing_def)

theorem main_missing_config_witness:
  "\<exists>n. main Map.empty = Inr n \<and> shutdown_reason n = Some ''Config not found'' \<and> dispatch_sub n = None"
  using main_missing_config [of Map.empty] by auto

text \<open>C13: \<open>__init__\<close> creates the dispatch subscriber (line 42) before it parses the
  configuration (line 44). In every run of \<open>main\<close> with a configuration there is a point
  inside \<open>__init__\<close>, after its first statement and before the rest runs on to the final
  node, at which the subscriber is live, so rospy can already deliver commands, while
  the registry is still empty: every command delivered there is dropped without
  feedback, even one for an action the configuration registers a moment later.\<close>

theorem init_race_window:
  assumes cfg: "ps ''actions'' = Some cfg" and mn: "main ps = Inr n'"
  shows "\<exists>i n2. init_prefix ps cfg initial_node i = Inr n2 \<and> dispatch_sub n2 \<noteq> None \<and>
           run_body (drop i (init_body ps cfg)) n2 = Inr n' \<and>
           (\<forall>m e. dispatch_callback n2 m e = (n2, None))"
proof -
  from mn obtain n2 where c: "init_connect ps (initial_node\<lparr>kb_link := True, cfg_actions := Some cfg\<rparr>) = Inr n2"
    and p: "init_parse n2 cfg = Inr n'"
    using cfg by (auto simp: main_def aim_init_eq)
  have pre: "init_prefix ps cfg initial_node 1 = Inr n2"
    using c by (simp add: init_prefix_def init_body_def run_body_single)
  have rest: "run_body (drop 1 (init_body ps cfg)) n2 = Inr n'"
    using p by (simp add: init_body_def run_body_single)
  from init_connect_Inr [OF c] have sub: "dispatch_sub n2 \<noteq> None"
    and reg: "action_interfaces n2 = Map.empty" by (simp_all add: initial_node_def)
  from reg have "\<forall>m e. dispatch_callback n2 m e = (n2, None)" by (simp add: dispatch_callback_unregistered)
  with pre sub rest show ?thesis by blast
qed

theorem init_race_window_witness:
  "\<exists>i n2 n'. main [''actions'' \<mapsto> YSeq [YDict [(''name'', YStr ''pickup''), (''interface_type'', YStr ''service''),
                                         (''service_name'', YStr ''pickup_srv'')]]] = Inr n' \<and>
     action_interfaces n' ''pickup'' \<noteq> None \<and>
     init_prefix [''actions'' \<mapsto> YSeq [YDict [(''name'', YStr ''pickup''), (''interface_type'', YStr ''service''),
                                         (''service_name'', YStr ''pickup_srv'')]]]
       (YSeq [YDict [(''name'', YStr ''pickup''), (''interface_type'', YStr ''service''), (''service_name'', YStr ''pickup_srv'')]])
       initial_node i = Inr n2 \<and> dispatch_sub n2 \<noteq> None \<and>
     dispatch_callback n2 \<lparr>action_id = 5, plan_id = 1, name = ''pickup'', parameters = []\<rparr>
       \<lparr>srv_reply = SrvSuccess, remote = [], outcome = (\<lambda>k s. '''')\<rparr> = (n2, None)"
proof -
  define cfg where "cfg = YSeq [YDict [(''name'', YStr ''pickup''), (''interface_type'', YStr ''service''),
                                         (''service_name'', YStr ''pickup_srv'')]]"
  define ps :: params where "ps = [''actions'' \<mapsto> cfg]"
  have c: "ps ''actions'' = Some cfg" by (simp add: ps_def)
  have "\<exists>n'. main ps = Inr n' \<and> action_interfaces n' ''pickup'' \<noteq> None"
    by (simp add: ps_def cfg_def main_def aim_init_eq initial_node_def init_connect_def init_parse_def get_param_def
        parse_config_def parse_entry_def parse_service_def mk_service_def)
  then obtain n' where mn: "main ps = Inr n'" and r: "action_interfaces n' ''pickup'' \<noteq> None" by blast
  from init_race_window [OF c mn] mn r show ?thesis unfolding ps_def cfg_def by blast
qed

text \<open>C14: the registry is the class attribute \<open>_action_interfaces\<close>, so constructing
  another manager in the same process never forgets an action registered by an earlier
  one: every action the earlier instance handled is still handled.\<close>

theorem class_registry_shared:
  assumes "aim_init ps n = Inr n'"
  shows "dom (action_interfaces n) \<subseteq> dom (action_interfaces n')"
proof (cases "ps ''actions''")
  case None
  with assms show ?thesis by (auto simp: aim_init_eq config_missing_def)
next
  case (Some cfg)
  from aim_init_Some_Inr [OF Some assms] obtain n2 reg where
    "parse_config (action_interfaces n) cfg = Inr reg"
    "n' = n2\<lparr>action_interfaces := reg, logs := logs n2 @ [LogInfo (kcl_log ''Ready to receive'')]\<rparr>"
    by blast
  then show ?thesis by (simp add: parse_config_dom)
qed

theorem class_registry_shared_witness:
  "\<exists>n1 n2. main [''actions'' \<mapsto> YSeq [YDict [(''name'', YStr ''pickup''), (''interface_type'', YStr ''service''),
                                         (''service_name'', YStr ''pickup_srv'')]]] = Inr n1 \<and>
     aim_init [''actions'' \<mapsto> YSeq []] n1 = Inr n2 \<and> ''pickup'' \<in> dom (action_interfaces n2)"
proof -
  define ps1 :: params where "ps1 = [''actions'' \<mapsto> YSeq [YDict [(''name'', YStr ''pickup''), (''interface_type'', YStr ''service''),
                                         (''service_name'', YStr ''pickup_srv'')]]]"
  obtain n1 where m1: "main ps1 = Inr n1" and p1: "''pickup'' \<in> dom (action_interfaces n1)"
    by (simp add: ps1_def main_def aim_init_eq initial_node_def init_connect_def init_parse_def get_param_def
        parse_config_def parse_entry_def parse_service_def mk_service_def)
  obtain n2 where i2: "aim_init [''actions'' \<mapsto> YSeq []] n1 = Inr n2"
    by (simp add: aim_init_eq init_connect_def init_parse_def get_param_def parse_config_def)
  from class_registry_shared [OF i2] p1 have "''pickup'' \<in> dom (action_interfaces n2)" by blast
  with m1 i2 show ?thesis unfolding ps1_def by blast
qed

subsection \<open>Configurations that are empty or not a list\<close>

text \<open>C26: a configuration that registers no action, an empty \<open>actions\<close> list or one
  whose entries all have unknown interface types, still starts the node: it subscribes,
  logs that it is ready and requests no shutdown, with an empty registry, so it ignores
  every command it will receive.\<close>

theorem main_no_actions_runs:
  assumes act: "ps ''actions'' = Some cfg" and it: "py_iter cfg = Inr as"
    and unk: "\<forall>a\<in>set as. \<exists>t. dict_get a ''interface_type'' = Inr t \<and> t \<notin> {YStr ''actionlib'', YStr ''service'', YStr ''fsm''}"
    and fb: "ps ''~action_feedback_topic'' = None" and dt: "ps ''~action_dispatch_topic'' = None"
  shows "\<exists>n. main ps = Inr n \<and> action_interfaces n = Map.empty \<and> shutdown_reason n = None \<and>
           dispatch_sub n \<noteq> None \<and> logs n = [LogInfo (kcl_log ''Ready to receive'')]"
proof -
  from it entries_interfaces_unknown [OF unk] have "parse_config Map.empty cfg = Inr Map.empty"
    by (auto simp: parse_config_Inr)
  with act fb dt show ?thesis
    by (simp add: main_def aim_init_eq init_connect_def init_parse_def get_param_def initial_node_def)
qed

theorem main_no_actions_runs_witness:
  "\<exists>n. main [''actions'' \<mapsto> YSeq [YDict [(''name'', YStr ''pickup''), (''interface_type'', YStr ''services'')]]] = Inr n \<and>
     action_interfaces n = Map.empty \<and> shutdown_reason n = None \<and> dispatch_sub n \<noteq> None"
proof -
  define a where "a = YDict [(''name'', YStr ''pickup''), (''interface_type'', YStr ''services'')]"
  define ps :: params where "ps = [''actions'' \<mapsto> YSeq [a]]"
  have act: "ps ''actions'' = Some (YSeq [a])" by (simp add: ps_def)
  have it: "py_iter (YSeq [a]) = Inr [a]" by simp
  have unk: "\<forall>a'\<in>set [a]. \<exists>t. dict_get a' ''interface_type'' = Inr t \<and>
               t \<notin> {YStr ''actionlib'', YStr ''service'', YStr ''fsm''}" by (simp add: a_def)
  have fb: "ps ''~action_feedback_topic'' = None" and dt: "ps ''~action_dispatch_topic'' = None"
    by (simp_all add: ps_def)
  from main_no_actions_runs [OF act it unk fb dt] show ?thesis unfolding ps_def a_def by blast
qed

text \<open>C27: an \<open>actions\<close> parameter that is a mapping instead of a list is iterated by
  its keys, and indexing a key string by \<open>interface_type\<close> raises \<open>TypeError\<close> out of
  \<open>__init__\<close>: the node dies instead of shutting down in order.\<close>

theorem main_actions_mapping_raises:
  assumes "ps ''actions'' = Some (YDict ((k, v) # kvs))"
    and "ps ''~action_feedback_topic'' = None" and "ps ''~action_dispatch_topic'' = None"
  shows "main ps = Inl (TypeError ''interface_type'')"
  using assms
  by (simp add: main_def aim_init_eq init_connect_def init_parse_def get_param_def parse_config_def parse_entry_def)

theorem main_actions_mapping_raises_witness:
  "main [''actions'' \<mapsto> YDict [(''pickup'', YDict [(''interface_type'', YStr ''service''), (''service_name'', YStr ''srv'')])]] =
   Inl (TypeError ''interface_type'')"
  by (rule main_actions_mapping_raises) simp_all


subsection \<open>An invalid entry after valid ones\<close>

lemma entries_interfaces_raise:
  "entries_interfaces pre = Inr ais \<Longrightarrow> entry_interface a = Inl err \<Longrightarrow>
     entries_interfaces (pre @ a # post) = Inl err"
  by (induction pre arbitrary: ais) (auto split: sum.splits)

lemma parse_config_raise:
  "entries_interfaces pre = Inr ais \<Longrightarrow> entry_interface a = Inl err \<Longrightarrow>
     parse_config reg (YSeq (pre @ a # post)) = Inl err"
  by (simp add: parse_config_def parse_entries_refines entries_interfaces_raise)

text \<open>C12: an entry without the \<open>interface_type\<close> key (or one that is not a dictionary)
  makes \<open>action["interface_type"]\<close> (line 76) raise, whatever valid entries come before
  it and whatever comes after; \<open>parse_config\<close>, \<open>__init__\<close> and \<open>main\<close> catch nothing, so the
  exception is the result of \<open>main\<close>: no node, and no orderly shutdown with a logged
  error as for a missing configuration (C10).\<close>

theorem main_missing_type:
  assumes cfg: "ps ''actions'' = Some (YSeq (pre @ a # post))"
    and topics: "ps ''~action_feedback_topic'' = None" "ps ''~action_dispatch_topic'' = None"
    and pre: "entries_interfaces pre = Inr ais"
    and ty: "dict_get a ''interface_type'' = Inl err"
  shows "main ps = Inl err"
proof -
  from ty have "entry_interface a = Inl err" by (simp add: entry_interface_def)
  from parse_config_raise [OF pre this] cfg topics show ?thesis
    by (simp add: main_def aim_init_eq init_connect_def init_parse_def get_param_def)
qed

theorem main_missing_type_witness:
  "main [''actions'' \<mapsto> YSeq [YDict [(''name'', YStr ''pickup''), (''interface_type'', YStr ''service''), (''service_name'', YStr ''srv'')],
                              YDict [(''name'', YStr ''place'')]]] =
   Inl (KeyError ''interface_type'')"
proof -
  define a where "a = YDict [(''name'', YStr ''place'')]"
  define pre where "pre = [YDict [(''name'', YStr ''pickup''), (''interface_type'', YStr ''service''), (''service_name'', YStr ''srv'')]]"
  have p: "entries_interfaces pre = Inr [ServiceAI \<lparr>srv_action_name = ''pickup'', service_name = ''srv''\<rparr>]"
    by (simp add: pre_def entry_interface_def mk_service_def)
  have ty: "dict_get a ''interface_type'' = Inl (KeyError ''interface_type'')" by (simp add: a_def)
  have "main [''actions'' \<mapsto> YSeq (pre @ a # [])] = Inl (KeyError ''interface_type'')"
    by (rule main_missing_type [OF _ _ _ p ty]) simp_all
  then show ?thesis by (simp add: a_def pre_def)
qed

text \<open>C31: an actionlib entry whose \<open>timeout\<close> is negative makes the interface's
  constructor raise \<open>ValueError\<close>, and since \<open>parse_config\<close> (line 77) catches nothing,
  the exception leaves \<open>__init__\<close> and \<open>main\<close>, whatever valid entries come before it and
  whatever comes after: the node does not start and no orderly shutdown is requested,
  unlike a missing configuration (C10).\<close>

theorem main_negative_timeout:
  assumes cfg: "ps ''actions'' = Some (YSeq (pre @ a # post))"
    and topics: "ps ''~action_feedback_topic'' = None" "ps ''~action_dispatch_topic'' = None"
    and pre: "entries_interfaces pre = Inr ais"
    and ty: "dict_get a ''interface_type'' = Inr (YStr ''actionlib'')"
    and nm: "dict_get a ''name'' = Inr (YStr n)" and srv: "dict_get a ''action_server'' = Inr (YStr sv)"
    and neg: "dict_opt a ''timeout'' = Some (YInt t)" "t < 0"
  shows "main ps = Inl (ValueError ''timeout'')"
proof -
  have "entry_interface a = Inl (ValueError ''timeout'')"
    using ty nm srv neg by (simp add: entry_interface_def mk_actionlib_def)
  from parse_config_raise [OF pre this] cfg topics show ?thesis
    by (simp add: main_def aim_init_eq init_connect_def init_parse_def get_param_def)
qed

theorem main_negative_timeout_witness:
  "main [''actions'' \<mapsto> YSeq [YDict [(''name'', YStr ''pickup''), (''interface_type'', YStr ''service''), (''service_name'', YStr ''srv'')],
                              YDict [(''name'', YStr ''move''), (''interface_type'', YStr ''actionlib''),
                                     (''action_server'', YStr ''move_base''), (''timeout'', YInt (-5))]]] =
   Inl (ValueError ''timeout'')"
proof -
  define a where "a = YDict [(''name'', YStr ''move''), (''interface_type'', YStr ''actionlib''),
                             (''action_server'', YStr ''move_base''), (''timeout'', YInt (-5))]"
  define pre where "pre = [YDict [(''name'', YStr ''pickup''), (''interface_type'', YStr ''service''), (''service_name'', YStr ''srv'')]]"
  have p: "entries_interfaces pre = Inr [ServiceAI \<lparr>srv_action_name = ''pickup'', service_name = ''srv''\<rparr>]"
    by (simp add: pre_def entry_interface_def mk_service_def)
  have ty: "dict_get a ''interface_type'' = Inr (YStr ''actionlib'')"
    and nm: "dict_get a ''name'' = Inr (YStr ''move'')"
    and sv: "dict_get a ''action_server'' = Inr (YStr ''move_base'')"
    and t: "dict_opt a ''timeout'' = Some (YInt (-5))" by (simp_all add: a_def)
  have "main [''actions'' \<mapsto> YSeq (pre @ a # [])] = Inl (ValueError ''timeout'')"
    by (rule main_negative_timeout [OF _ _ _ p ty nm sv t]) simp_all
  then show ?thesis by (simp add: a_def pre_def)
qed

subsection \<open>From the configuration to the callback\<close>

text \<open>C5: the spec's concrete scenario, for every configuration: when \<open>main\<close> succeeds
  on a configuration whose last entry named \<open>name m\<close> declares a service \<open>sv\<close>, the
  callback for command \<open>m\<close> appends exactly DISPATCHED, the start-effect request, the call
  of \<open>sv\<close>, then on success the end-effect request and SUCCEEDED, on a failed call FAILED:
  one start-effect and at most one end-effect request, all for \<open>m\<close>.\<close>

theorem service_scenario:
  assumes mn: "main ps = Inr n"
    and cfg: "ps ''actions'' = Some (YSeq (pre @ YDict [(''name'', YStr (name m)), (''interface_type'', YStr ''service''),
                                                      (''service_name'', YStr sv)] # post))"
    and later: "\<forall>b\<in>set post. dict_get b ''name'' \<noteq> Inr (YStr (name m))"
  shows "dispatch_sync n m e = Some (n\<lparr>trace := trace n @
           [Publish (mk_feedback m ACTION_DISPATCHED_TO_GOAL_STATE), KbApply m 0, CallService m sv] @
           (if srv_reply e = SrvSuccess
            then [KbApply m 1, Publish (mk_feedback m ACTION_SUCCEEDED_TO_GOAL_STATE)]
            else [Publish (mk_feedback m ACTION_FAILED)])\<rparr>)"
proof -
  let ?c = "\<lparr>srv_action_name = name m, service_name = sv\<rparr>"
  have "entry_interface (YDict [(''name'', YStr (name m)), (''interface_type'', YStr ''service''),
      (''service_name'', YStr sv)]) = Inr (Some (ServiceAI ?c))"
    by (simp add: entry_interface_def mk_service_def)
  from main_registry_last_entry [OF mn cfg this] later
  have "action_interfaces n (name m) = Some (ServiceAI ?c)" by simp
  then show ?thesis by (simp add: dispatch_sync_registered run_service srv_run_eq dispatch_events_def)
qed

theorem service_scenario_witness:
  "\<exists>n. main [''actions'' \<mapsto> YSeq [YDict [(''name'', YStr ''pickup''), (''interface_type'', YStr ''service''),
                                         (''service_name'', YStr ''pickup_srv'')]]] = Inr n \<and>
     dispatch_sync n \<lparr>action_id = 5, plan_id = 1, name = ''pickup'', parameters = []\<rparr>
       \<lparr>srv_reply = SrvSuccess, remote = [], outcome = (\<lambda>k s. '''')\<rparr> =
     Some (n\<lparr>trace := trace n @
       [Publish (mk_feedback \<lparr>action_id = 5, plan_id = 1, name = ''pickup'', parameters = []\<rparr> ACTION_DISPATCHED_TO_GOAL_STATE),
        KbApply \<lparr>action_id = 5, plan_id = 1, name = ''pickup'', parameters = []\<rparr> 0,
        CallService \<lparr>action_id = 5, plan_id = 1, name = ''pickup'', parameters = []\<rparr> ''pickup_srv'',
        KbApply \<lparr>action_id = 5, plan_id = 1, name = ''pickup'', parameters = []\<rparr> 1,
        Publish (mk_feedback \<lparr>action_id = 5, plan_id = 1, name = ''pickup'', parameters = []\<rparr> ACTION_SUCCEEDED_TO_GOAL_STATE)]\<rparr>)"
proof -
  define m where "m = \<lparr>action_id = 5, plan_id = 1, name = ''pickup'', parameters = []\<rparr>"
  define e where "e = \<lparr>srv_reply = SrvSuccess, remote = [], outcome = (\<lambda>(k::nat) (s::string). '''')\<rparr>"
  define ps :: params where "ps = [''actions'' \<mapsto> YSeq ([] @ [YDict [(''name'', YStr (name m)), (''interface_type'', YStr ''service''),
                                         (''service_name'', YStr ''pickup_srv'')]] @ [])]"
  have cfg: "ps ''actions'' = Some (YSeq ([] @ YDict [(''name'', YStr (name m)), (''interface_type'', YStr ''service''),
      (''service_name'', YStr ''pickup_srv'')] # []))" by (simp add: ps_def)
  have "\<exists>n. main ps = Inr n"
    by (simp add: ps_def m_def main_def aim_init_eq initial_node_def init_connect_def init_parse_def get_param_def
        parse_config_def parse_entry_def parse_service_def mk_service_def)
  then obtain n where mn: "main ps = Inr n" ..
  have later: "\<forall>b\<in>set []. dict_get b ''name'' \<noteq> Inr (YStr (name m))" by simp
  from service_scenario [OF mn cfg later, of e] mn show ?thesis
    unfolding ps_def m_def e_def by simp
qed

end
