(* ===== verification/Dispatch.thy ===== *)
theory Dispatch
  imports Startup
begin

text \<open>
  The strategies as the dispatcher drives them: what \<open>dispatch_callback\<close> and
  \<open>dispatch_sync\<close> (ActionInterfaceManager.py, lines 49-67) produce for a command whose
  registered interface is an actionlib or a state-machine interface. Each claim combines
  the callback's inline run (line 67) with the strategy's loop: the bounded failure of an
  unanswered actionlib goal with a timeout, its termination, the blocking of one without
  a timeout, the exact deadline, a state machine's termination when its transitions are
  ranked, and its endless retry cycle otherwise.
\<close>

subsection \<open>The job started by the callback runs each variant's own loop\<close>

lemma drive_fuel_start_actionlib:
  "drive_fuel k job_step (start_job (ActionlibAI c) m e) = drive_fuel k (al_step c m (remote e)) AlSend"
proof -
  let ?j = "start_job (ActionlibAI c) m e"
  have "drive_fuel k job_step ((\<lambda>s. ?j\<lparr>job_exec := ExAl s\<rparr>) AlSend) = drive_fuel k (al_step c m (remote e)) AlSend"
    by (rule drive_fuel_map) (simp add: job_step_def start_job_def prod.map_comp option.map_comp comp_def id_def)
  moreover have "?j\<lparr>job_exec := ExAl AlSend\<rparr> = ?j" by (simp add: start_job_def)
  ultimately show ?thesis by simp
qed

subsection \<open>Actionlib actions\<close>

text \<open>C15: for a registered actionlib action with a configured timeout of \<open>d\<close> time
  units, when the remote actor never answers (it only reports progress, or nothing), the
  started run sends the goal and then reports FAILED, without an end-effect request,
  within \<open>length (remote e) + d + 2\<close> steps (each step one remote message or one unit of
  time); the callback returns with exactly these events after DISPATCHED and the start
  effects.\<close>

theorem dispatch_actionlib_timeout:
  assumes reg: "action_interfaces n (name m) = Some (ActionlibAI c)"
    and d: "al_timeout c = Some d" and silent: "al_silent (remote e)"
  shows "\<exists>evs. dispatch_callback n m e = (n\<lparr>trace := trace n @ dispatch_events m\<rparr>, Some (start_job (ActionlibAI c) m e)) \<and>
           drive_fuel (length (remote e) + d + 2) job_step (start_job (ActionlibAI c) m e) =
             Some (SendGoal m (action_server c) # evs) \<and>
           fails_without_effects m evs \<and>
           dispatch_sync n m e = Some (n\<lparr>trace := trace n @ dispatch_events m @ SendGoal m (action_server c) # evs\<rparr>)"
proof -
  from al_run_silent_timeout [OF d silent, of m] obtain evs where
    f: "drive_fuel (length (remote e) + d + 2) (al_step c m (remote e)) AlSend = Some (SendGoal m (action_server c) # evs)"
    and w: "fails_without_effects m evs"
    by blast
  from f have "al_run c m (remote e) = Some (SendGoal m (action_server c) # evs)"
    unfolding al_run_def by (rule drive_fuel_sound)
  with reg have "dispatch_sync n m e = Some (n\<lparr>trace := trace n @ dispatch_events m @ SendGoal m (action_server c) # evs\<rparr>)"
    by (simp add: dispatch_sync_registered run_actionlib)
  with reg f w show ?thesis
    by (simp add: dispatch_callback_registered drive_fuel_start_actionlib)
qed

theorem dispatch_actionlib_timeout_witness:
  "\<exists>evs. drive_fuel 5 job_step (start_job (ActionlibAI \<lparr>al_action_name = ''move'', action_server = ''move_base'', al_timeout = Some 2\<rparr>)
            \<lparr>action_id = 7, plan_id = 1, name = ''move'', parameters = []\<rparr>
            \<lparr>srv_reply = SrvSuccess, remote = [RFeedback ''halfway''], outcome = (\<lambda>k s. '''')\<rparr>) =
          Some (SendGoal \<lparr>action_id = 7, plan_id = 1, name = ''move'', parameters = []\<rparr> ''move_base'' # evs) \<and>
        fails_without_effects \<lparr>action_id = 7, plan_id = 1, name = ''move'', parameters = []\<rparr> evs"
proof -
  define c where "c = \<lparr>al_action_name = ''move'', action_server = ''move_base'', al_timeout = Some (2::nat)\<rparr>"
  define m where "m = \<lparr>action_id = 7, plan_id = 1, name = ''move'', parameters = []\<rparr>"
  define e where "e = \<lparr>srv_reply = SrvSuccess, remote = [RFeedback ''halfway''], outcome = (\<lambda>k s. '''')\<rparr>"
  define n where "n = initial_node\<lparr>action_interfaces := [''move'' \<mapsto> ActionlibAI c]\<rparr>"
  have reg: "action_interfaces n (name m) = Some (ActionlibAI c)" by (simp add: n_def m_def)
  have d: "al_timeout c = Some 2" by (simp add: c_def)
  have s: "al_silent (remote e)" by (simp add: e_def)
  from dispatch_actionlib_timeout [OF reg d s] obtain evs where
    "drive_fuel (length (remote e) + 2 + 2) job_step (start_job (ActionlibAI c) m e) = Some (SendGoal m (action_server c) # evs)"
    "fails_without_effects m evs"
    by blast
  then show ?thesis by (simp add: c_def m_def e_def numeral_eq_Suc)
qed

text \<open>C16: a registered actionlib action with a configured timeout always lets the
  callback return, whatever the remote actor does, and the events it appends form one
  complete lifecycle of the command.\<close>

theorem dispatch_actionlib_returns:
  assumes reg: "action_interfaces n (name m) = Some (ActionlibAI c)" and d: "al_timeout c = Some d"
  shows "\<exists>n' evs. dispatch_sync n m e = Some n' \<and> trace n' = trace n @ evs \<and> lifecycle_complete evs"
proof -
  from drive_terminates [OF al_step_decreasing [OF d]] obtain r where
    "drive (al_step c m (remote e)) AlSend = Some r" by blast
  then have r: "run (ActionlibAI c) m e = Some r" by (simp add: run_actionlib al_run_def)
  from reg r have "dispatch_sync n m e = Some (n\<lparr>trace := trace n @ dispatch_events m @ r\<rparr>)"
    by (simp add: dispatch_sync_registered)
  moreover from run_strategy_ok [OF r] have "lifecycle_complete (dispatch_events m @ r)"
    by (simp add: dispatch_events_def lifecycle_complete_iff_strategy_ok)
  ultimately show ?thesis by auto
qed

theorem dispatch_actionlib_returns_witness:
  "\<exists>n' evs. dispatch_sync (initial_node\<lparr>action_interfaces := [''move'' \<mapsto> ActionlibAI \<lparr>al_action_name = ''move'', action_server = ''move_base'', al_timeout = Some 3\<rparr>]\<rparr>)
     \<lparr>action_id = 7, plan_id = 1, name = ''move'', parameters = []\<rparr>
     \<lparr>srv_reply = SrvSuccess, remote = [RTick, RFeedback ''near'', RSucceeded], outcome = (\<lambda>k s. '''')\<rparr> = Some n' \<and>
     trace n' = evs \<and> lifecycle_complete evs"
  using dispatch_actionlib_returns [of "initial_node\<lparr>action_interfaces := [''move'' \<mapsto> ActionlibAI \<lparr>al_action_name = ''move'', action_server = ''move_base'', al_timeout = Some 3\<rparr>]\<rparr>"
      "\<lparr>action_id = 7, plan_id = 1, name = ''move'', parameters = []\<rparr>"
      "\<lparr>al_action_name = ''move'', action_server = ''move_base'', al_timeout = Some 3\<rparr>" 3
      "\<lparr>srv_reply = SrvSuccess, remote = [RTick, RFeedback ''near'', RSucceeded], outcome = (\<lambda>k s. '''')\<rparr>"]
  by (simp add: initial_node_def)

text \<open>C17: without a configured timeout, a goal the remote actor never answers keeps the
  run waiting for ever: the callback, which runs the interface in place, never returns,
  so no terminal feedback is ever published for the command and, on the single callback
  thread, no later command is handled.\<close>

theorem dispatch_actionlib_no_timeout_blocks:
  assumes reg: "action_interfaces n (name m) = Some (ActionlibAI c)"
    and nt: "al_timeout c = None" and silent: "al_silent (remote e)"
  shows "dispatch_sync n m e = None"
  using reg by (simp add: dispatch_sync_registered run_actionlib al_run_silent_no_timeout [OF nt silent])

theorem dispatch_actionlib_no_timeout_blocks_witness:
  "dispatch_sync (initial_node\<lparr>action_interfaces := [''move'' \<mapsto> ActionlibAI \<lparr>al_action_name = ''move'', action_server = ''move_base'', al_timeout = None\<rparr>]\<rparr>)
     \<lparr>action_id = 7, plan_id = 1, name = ''move'', parameters = []\<rparr>
     \<lparr>srv_reply = SrvSuccess, remote = [RFeedback ''started''], outcome = (\<lambda>k s. '''')\<rparr> = None"
  by (rule dispatch_actionlib_no_timeout_blocks [where c = "\<lparr>al_action_name = ''move'', action_server = ''move_base'', al_timeout = None\<rparr>"])
     (simp_all add: initial_node_def)

subsection \<open>State-machine actions\<close>

text \<open>C18: a registered state-machine action whose transitions out of non-terminal states
  all decrease some ranking of the state names lets the callback return whatever the
  outcomes of the work are, with one complete lifecycle of the command appended.\<close>

theorem dispatch_fsm_ranked_returns:
  assumes reg: "action_interfaces n (name m) = Some (FsmAI f)" and rk: "fsm_ranked f rank"
  shows "\<exists>n' evs. dispatch_sync n m e = Some n' \<and> trace n' = trace n @ evs \<and> lifecycle_complete evs"
proof -
  from fsm_ranked_terminates [OF rk] obtain r where
    "drive (fsm_step f m (outcome e)) (FsmAt 0 (initial_state f)) = Some r" by blast
  then have r: "run (FsmAI f) m e = Some r" by (simp add: run_fsm fsm_run_def)
  from reg r have "dispatch_sync n m e = Some (n\<lparr>trace := trace n @ dispatch_events m @ r\<rparr>)"
    by (simp add: dispatch_sync_registered)
  moreover from run_strategy_ok [OF r] have "lifecycle_complete (dispatch_events m @ r)"
    by (simp add: dispatch_events_def lifecycle_complete_iff_strategy_ok)
  ultimately show ?thesis by auto
qed

theorem dispatch_fsm_ranked_returns_witness:
  "\<exists>n' evs. dispatch_sync
       (initial_node\<lparr>action_interfaces := [''goto'' \<mapsto> FsmAI
          \<lparr>fsm_action_name = ''goto'',
           fsm_states = [\<lparr>st_name = ''move'', st_service = ''move_base'', st_transitions = [(''ok'', ''done''), (''error'', ''failed'')]\<rparr>],
           initial_state = ''move'', success_states = [''done''], fail_states = [''failed'']\<rparr>]\<rparr>)
       \<lparr>action_id = 3, plan_id = 2, name = ''goto'', parameters = []\<rparr>
       \<lparr>srv_reply = SrvSuccess, remote = [], outcome = (\<lambda>k s. ''ok'')\<rparr> = Some n' \<and>
     trace n' = evs \<and> lifecycle_complete evs"
proof -
  define f where "f = \<lparr>fsm_action_name = ''goto'',
           fsm_states = [\<lparr>st_name = ''move'', st_service = ''move_base'', st_transitions = [(''ok'', ''done''), (''error'', ''failed'')]\<rparr>],
           initial_state = ''move'', success_states = [''done''], fail_states = [''failed'']\<rparr>"
  have rk: "fsm_ranked f (\<lambda>s. if s = ''move'' then 1 else 0)" by (simp add: fsm_ranked_def f_def)
  show ?thesis
    using dispatch_fsm_ranked_returns [OF _ rk, of "initial_node\<lparr>action_interfaces := [''goto'' \<mapsto> FsmAI f]\<rparr>"
        "\<lparr>action_id = 3, plan_id = 2, name = ''goto'', parameters = []\<rparr>"
        "\<lparr>srv_reply = SrvSuccess, remote = [], outcome = (\<lambda>k s. ''ok'')\<rparr>"]
    unfolding f_def by (simp add: initial_node_def)
qed

text \<open>C19: cycles are legal retry loops and the engine does not bound them: when the
  initial state's transition for its outcome leads back to itself and the outcome never
  changes, the run never returns, so the callback never returns and no terminal feedback
  is ever published for the command.\<close>

theorem dispatch_fsm_retry_blocks:
  assumes reg: "action_interfaces n (name m) = Some (FsmAI f)"
    and nt: "initial_state f \<notin> set (success_states f)" "initial_state f \<notin> set (fail_states f)"
    and fd: "find (\<lambda>st. st_name st = initial_state f) (fsm_states f) = Some st"
    and loop: "map_of (st_transitions st) out = Some (initial_state f)"
    and same: "\<forall>k. outcome e k (initial_state f) = out"
  shows "dispatch_sync n m e = None"
proof -
  have "drive (fsm_step f m (outcome e)) (FsmAt 0 (initial_state f)) = None"
    using nt fd loop same by (rule fsm_self_loop_diverges)
  with reg show ?thesis by (simp add: dispatch_sync_registered run_fsm fsm_run_def)
qed

theorem dispatch_fsm_retry_blocks_witness:
  "dispatch_sync
       (initial_node\<lparr>action_interfaces := [''goto'' \<mapsto> FsmAI
          \<lparr>fsm_action_name = ''goto'',
           fsm_states = [\<lparr>st_name = ''move'', st_service = ''move_base'', st_transitions = [(''ok'', ''done''), (''retry'', ''move'')]\<rparr>],
           initial_state = ''move'', success_states = [''done''], fail_states = [''failed'']\<rparr>]\<rparr>)
       \<lparr>action_id = 3, plan_id = 2, name = ''goto'', parameters = []\<rparr>
       \<lparr>srv_reply = SrvSuccess, remote = [], outcome = (\<lambda>k s. ''retry'')\<rparr> = None"
  by (rule dispatch_fsm_retry_blocks
        [where f = "\<lparr>fsm_action_name = ''goto'',
           fsm_states = [\<lparr>st_name = ''move'', st_service = ''move_base'', st_transitions = [(''ok'', ''done''), (''retry'', ''move'')]\<rparr>],
           initial_state = ''move'', success_states = [''done''], fail_states = [''failed'']\<rparr>"
         and st = "\<lparr>st_name = ''move'', st_service = ''move_base'', st_transitions = [(''ok'', ''done''), (''retry'', ''move'')]\<rparr>"
         and out = "''retry''"])
     (simp_all add: initial_node_def)

text \<open>C30: the deadline of an actionlib run is exact. With a configured timeout of \<open>d\<close>
  time units, a server whose SUCCEEDED answer comes after \<open>k\<close> units of silence gets the
  end effects and SUCCEEDED only when \<open>k < d\<close>; an answer at or after the deadline is
  lost and the callback reports FAILED without end effects. In particular a timeout of
  zero fails every goal, even one the server accepts at once.\<close>

theorem dispatch_actionlib_deadline:
  assumes reg: "action_interfaces n (name m) = Some (ActionlibAI c)"
    and d: "al_timeout c = Some d" and r: "remote e = replicate k RTick @ RSucceeded # rs"
  shows "dispatch_sync n m e = Some (n\<lparr>trace := trace n @ dispatch_events m @ SendGoal m (action_server c) #
           (if k < d then [KbApply m 1, Publish (mk_feedback m ACTION_SUCCEEDED_TO_GOAL_STATE)]
            else [Publish (mk_feedback m ACTION_FAILED)])\<rparr>)"
proof -
  have "al_run c m (remote e) = Some (SendGoal m (action_server c) #
           (if k < d then [KbApply m 1, Publish (mk_feedback m ACTION_SUCCEEDED_TO_GOAL_STATE)]
            else [Publish (mk_feedback m ACTION_FAILED)]))"
    using al_wait_ticks_answer [OF d, of m "remote e" 0 k rs]
    by (simp add: al_run_def drive.simps [of "al_step c m (remote e)" AlSend] del: al_step.simps) (simp add: r)
  with reg show ?thesis by (simp add: dispatch_sync_registered run_actionlib)
qed

theorem dispatch_actionlib_deadline_witness:
  "dispatch_sync (initial_node\<lparr>action_interfaces := [''move'' \<mapsto> ActionlibAI \<lparr>al_action_name = ''move'', action_server = ''move_base'', al_timeout = Some 2\<rparr>]\<rparr>)
     \<lparr>action_id = 7, plan_id = 1, name = ''move'', parameters = []\<rparr>
     \<lparr>srv_reply = SrvSuccess, remote = [RTick, RTick, RSucceeded], outcome = (\<lambda>k s. '''')\<rparr> =
   Some (initial_node\<lparr>action_interfaces := [''move'' \<mapsto> ActionlibAI \<lparr>al_action_name = ''move'', action_server = ''move_base'', al_timeout = Some 2\<rparr>],
     trace := dispatch_events \<lparr>action_id = 7, plan_id = 1, name = ''move'', parameters = []\<rparr> @
       [SendGoal \<lparr>action_id = 7, plan_id = 1, name = ''move'', parameters = []\<rparr> ''move_base'',
        Publish (mk_feedback \<lparr>action_id = 7, plan_id = 1, name = ''move'', parameters = []\<rparr> ACTION_FAILED)]\<rparr>)"
  using dispatch_actionlib_deadline [where n = "initial_node\<lparr>action_interfaces := [''move'' \<mapsto> ActionlibAI \<lparr>al_action_name = ''move'', action_server = ''move_base'', al_timeout = Some 2\<rparr>]\<rparr>"
      and m = "\<lparr>action_id = 7, plan_id = 1, name = ''move'', parameters = []\<rparr>"
      and c = "\<lparr>al_action_name = ''move'', action_server = ''move_base'', al_timeout = Some 2\<rparr>" and d = 2
      and e = "\<lparr>srv_reply = SrvSuccess, remote = [RTick, RTick, RSucceeded], outcome = (\<lambda>k s. '''')\<rparr>"
      and k = 2 and rs = "[]"]
  by (simp add: initial_node_def numeral_2_eq_2)

end
