(* ===== verification/System.thy ===== *)
theory System
  imports Dispatch
begin

text \<open>
  The running node as a concurrent system: the manager after \<open>main\<close>, the commands
  still to arrive, and the runs in flight, with a step relation that delivers a command
  to \<open>dispatch_callback\<close> or advances any one run. It allows every interleaving of
  deliveries and run steps, and so also covers rospy's own schedule (theory \<open>Spin\<close>).
  The invariant \<open>sys_inv\<close> ties the trace of every action instance to the lifecycle
  automaton and is preserved by every step (\<open>sys_step_inv\<close>, \<open>reachable_sys_inv\<close>).
\<close>

section \<open>The system and its steps\<close>

text \<open>
  The manager after \<open>main\<close>, the dispatch commands still to arrive on the subscribed
  topic with the environment each will meet, and the runs in flight. A step either
  delivers the next command to \<open>dispatch_callback\<close> (only once the subscriber exists), or
  lets any one in-flight run take its next step: runs of different commands interleave
  arbitrarily (spec 5).
\<close>

record sys =
  node :: ros_node
  inbox :: "(action_dispatch \<times> env) list"
  jobs :: "job list"

definition update_jobs :: "job list \<Rightarrow> nat \<Rightarrow> job option \<Rightarrow> job list" where
  "update_jobs js i nxt = (case nxt of None \<Rightarrow> take i js @ drop (Suc i) js | Some j' \<Rightarrow> js[i := j'])"

inductive sys_step :: "sys \<Rightarrow> sys \<Rightarrow> bool" where
  deliver: "inbox s = (m, e) # rest \<Longrightarrow> dispatch_sub (node s) \<noteq> None \<Longrightarrow>
     dispatch_callback (node s) m e = (n', oj) \<Longrightarrow>
     sys_step s (s\<lparr>node := n', inbox := rest, jobs := jobs s @ (case oj of None \<Rightarrow> [] | Some j \<Rightarrow> [j])\<rparr>)"
| work: "i < length (jobs s) \<Longrightarrow> job_step (jobs s ! i) = (evs, nxt) \<Longrightarrow>
     sys_step s (s\<lparr>node := (node s)\<lparr>trace := trace (node s) @ evs\<rparr>, jobs := update_jobs (jobs s) i nxt\<rparr>)"

text \<open>The commands a run of the system receives carry distinct (plan, action) ids: the
  identity of a dispatched action instance (spec 3 and 4.3).\<close>

inductive reachable :: "sys \<Rightarrow> bool" where
  start: "main ps = Inr n \<Longrightarrow> distinct (map (\<lambda>me. msg_key (fst me)) ms) \<Longrightarrow>
     reachable \<lparr>node = n, inbox = ms, jobs = []\<rparr>"
| step: "reachable s \<Longrightarrow> sys_step s t \<Longrightarrow> reachable t"

subsection \<open>The invariant\<close>

definition job_keys :: "job list \<Rightarrow> key list" where
  "job_keys js = map (\<lambda>j. msg_key (job_msg j)) js"

definition expected_lc :: "key list \<Rightarrow> event list \<Rightarrow> key \<Rightarrow> lc" where
  "expected_lc ks tr k = (if k \<in> set ks then Running else if proj k tr = [] then Idle else Done)"

definition sys_inv :: "sys \<Rightarrow> bool" where
  "sys_inv s =
     ((\<forall>j\<in>set (jobs s). job_ok j) \<and>
      distinct (job_keys (jobs s)) \<and>
      (\<forall>k. lc_run Idle (proj k (trace (node s))) = Some (expected_lc (job_keys (jobs s)) (trace (node s)) k)) \<and>
      distinct (map (\<lambda>me. msg_key (fst me)) (inbox s)) \<and>
      (\<forall>me\<in>set (inbox s). proj (msg_key (fst me)) (trace (node s)) = [] \<and>
                          msg_key (fst me) \<notin> set (job_keys (jobs s))))"

lemma main_trace: "main ps = Inr n \<Longrightarrow> trace n = []"
  by (auto simp: main_def initial_node_def dest: aim_init_trace)

lemma sys_inv_start:
  "main ps = Inr n \<Longrightarrow> distinct (map (\<lambda>me. msg_key (fst me)) ms) \<Longrightarrow> sys_inv \<lparr>node = n, inbox = ms, jobs = []\<rparr>"
  by (simp add: sys_inv_def main_trace job_keys_def expected_lc_def)

lemma sys_inv_lc:
  "sys_inv s \<Longrightarrow> lc_run Idle (proj k (trace (node s))) = Some (expected_lc (job_keys (jobs s)) (trace (node s)) k)"
  unfolding sys_inv_def by blast

lemma proj_dispatch_events:
  "proj k (dispatch_events m) = (if k = msg_key m then dispatch_events m else [])"
  using dispatch_events_keys [of m] by (auto intro: proj_all_same_key proj_other_key)

lemma proj_job_step:
  "job_step j = (evs, nxt) \<Longrightarrow> proj k evs = (if k = msg_key (job_msg j) then evs else [])"
  by (auto dest: job_step_keys intro: proj_all_same_key proj_other_key)

lemma expected_lc_same:
  "(k \<in> set ks \<longleftrightarrow> k \<in> set ks') \<Longrightarrow> proj k tr = proj k tr' \<Longrightarrow> expected_lc ks tr k = expected_lc ks' tr' k"
  by (simp add: expected_lc_def)

lemma job_keys_append_start [simp]:
  "job_keys (js @ [start_job ai m e]) = job_keys js @ [msg_key m]"
  by (simp add: job_keys_def start_job_def)

lemma sys_inv_deliver_unregistered:
  assumes inv: "sys_inv s" and ib: "inbox s = (m, e) # rest"
  shows "sys_inv (s\<lparr>inbox := rest\<rparr>)"
  using inv ib by (simp add: sys_inv_def)

lemma sys_inv_deliver_registered:
  assumes inv: "sys_inv s" and ib: "inbox s = (m, e) # rest"
  shows "sys_inv (s\<lparr>node := (node s)\<lparr>trace := trace (node s) @ dispatch_events m\<rparr>, inbox := rest,
                    jobs := jobs s @ [start_job ai m e]\<rparr>)"
proof -
  let ?tr = "trace (node s)" and ?ks = "job_keys (jobs s)" and ?k0 = "msg_key m"
  from inv ib have fresh: "proj ?k0 ?tr = []" "?k0 \<notin> set ?ks"
    and dist_in: "distinct (map (\<lambda>me. msg_key (fst me)) ((m, e) # rest))"
    by (auto simp: sys_inv_def)
  have lc: "lc_run Idle (proj k (?tr @ dispatch_events m)) = Some (expected_lc (?ks @ [?k0]) (?tr @ dispatch_events m) k)"
    for k
  proof (cases "k = ?k0")
    case True
    with fresh show ?thesis by (simp add: proj_dispatch_events expected_lc_def)
  next
    case False
    then have "expected_lc (?ks @ [?k0]) (?tr @ dispatch_events m) k = expected_lc ?ks ?tr k"
      by (intro expected_lc_same [symmetric]) (auto simp: proj_dispatch_events)
    with False sys_inv_lc [OF inv, of k] show ?thesis by (simp add: proj_dispatch_events)
  qed
  have inbox_ok: "\<forall>me\<in>set rest. proj (msg_key (fst me)) (?tr @ dispatch_events m) = [] \<and>
                     msg_key (fst me) \<notin> set (?ks @ [?k0])"
  proof
    fix me assume me: "me \<in> set rest"
    with dist_in have ne: "msg_key (fst me) \<noteq> ?k0" by (auto simp: image_iff)
    from me inv ib have "proj (msg_key (fst me)) ?tr = [] \<and> msg_key (fst me) \<notin> set ?ks"
      by (auto simp: sys_inv_def)
    with ne show "proj (msg_key (fst me)) (?tr @ dispatch_events m) = [] \<and> msg_key (fst me) \<notin> set (?ks @ [?k0])"
      by (simp add: proj_dispatch_events)
  qed
  from inv fresh dist_in lc inbox_ok show ?thesis
    by (simp add: sys_inv_def)
qed

lemma job_keys_update_jobs:
  assumes d: "distinct (job_keys js)" and i: "i < length js" and st: "job_step (js ! i) = (evs, nxt)"
  shows "set (job_keys (update_jobs js i nxt)) =
           (if nxt = None then set (job_keys js) - {msg_key (job_msg (js ! i))} else set (job_keys js))"
    and "distinct (job_keys (update_jobs js i nxt))"
proof -
  have ki: "job_keys js ! i = msg_key (job_msg (js ! i))" using i by (simp add: job_keys_def)
  have "set (job_keys (update_jobs js i nxt)) =
          (if nxt = None then set (job_keys js) - {msg_key (job_msg (js ! i))} else set (job_keys js)) \<and>
        distinct (job_keys (update_jobs js i nxt))"
  proof (cases nxt)
    case None
    have eq: "job_keys (update_jobs js i nxt) = take i (job_keys js) @ drop (Suc i) (job_keys js)"
      using None by (simp add: update_jobs_def job_keys_def take_map drop_map)
    have "set (take i (job_keys js) @ drop (Suc i) (job_keys js)) = set (job_keys js) - {job_keys js ! i}"
      using d by (rule set_take_drop_Suc) (simp add: job_keys_def i)
    moreover have "distinct (take i (job_keys js) @ drop (Suc i) (job_keys js))"
      using d by (rule distinct_take_drop_Suc)
    ultimately show ?thesis using None eq ki by simp
  next
    case (Some j')
    from st Some have "job_step (js ! i) = (evs, Some j')" by simp
    then have "job_msg j' = job_msg (js ! i)" by (rule job_step_msg)
    then have "job_keys (update_jobs js i nxt) = job_keys js"
      using Some i by (simp add: update_jobs_def job_keys_def map_update) (metis list_update_id nth_map)
    with Some d show ?thesis by simp
  qed
  then show "set (job_keys (update_jobs js i nxt)) =
           (if nxt = None then set (job_keys js) - {msg_key (job_msg (js ! i))} else set (job_keys js))"
    and "distinct (job_keys (update_jobs js i nxt))" by auto
qed

lemma job_ok_update_jobs:
  "\<forall>j\<in>set js. job_ok j \<Longrightarrow> (case nxt of None \<Rightarrow> True | Some j' \<Rightarrow> job_ok j') \<Longrightarrow>
     \<forall>j\<in>set (update_jobs js i nxt). job_ok j"
  by (cases nxt)
     (auto simp: update_jobs_def dest: in_set_takeD in_set_dropD set_update_subset_insert [THEN subsetD])

lemma sys_inv_work:
  assumes inv: "sys_inv s" and i: "i < length (jobs s)" and st: "job_step (jobs s ! i) = (evs, nxt)"
  shows "sys_inv (s\<lparr>node := (node s)\<lparr>trace := trace (node s) @ evs\<rparr>, jobs := update_jobs (jobs s) i nxt\<rparr>)"
proof -
  let ?tr = "trace (node s)" and ?js = "jobs s" and ?kj = "msg_key (job_msg (jobs s ! i))"
  let ?js' = "update_jobs (jobs s) i nxt"
  from inv have d: "distinct (job_keys ?js)" by (simp add: sys_inv_def)
  note keys' = job_keys_update_jobs [OF d i st]
  from i have kin: "?kj \<in> set (job_keys ?js)" by (auto simp: job_keys_def)
  from inv i have ok: "job_ok (?js ! i)" by (simp add: sys_inv_def)
  from job_step_chunk_ok [OF ok] st have ch: "chunk_ok job_ok (evs, nxt)" by simp
  from sys_inv_lc [OF inv, of ?kj] kin have running: "lc_run Idle (proj ?kj ?tr) = Some Running"
    by (simp add: expected_lc_def)
  have lc: "lc_run Idle (proj k (?tr @ evs)) = Some (expected_lc (job_keys ?js') (?tr @ evs) k)" for k
  proof (cases "k = ?kj")
    case True
    from running have ne: "proj ?kj ?tr \<noteq> []" by auto
    from running have "lc_run Idle (proj ?kj (?tr @ evs)) = lc_run Running evs"
      by (simp add: proj_job_step [OF st] lc_run_append_Some)
    with True ch keys'(1) ne kin show ?thesis
      by (cases nxt) (auto simp: chunk_ok_def expected_lc_def)
  next
    case False
    then have "expected_lc (job_keys ?js') (?tr @ evs) k = expected_lc (job_keys ?js) ?tr k"
      by (intro expected_lc_same [symmetric]) (auto simp: keys'(1) proj_job_step [OF st])
    with False sys_inv_lc [OF inv, of k] show ?thesis by (simp add: proj_job_step [OF st])
  qed
  have inbox_ok: "\<forall>me\<in>set (inbox s). proj (msg_key (fst me)) (?tr @ evs) = [] \<and>
                     msg_key (fst me) \<notin> set (job_keys ?js')"
  proof
    fix me assume me: "me \<in> set (inbox s)"
    with inv have fr: "proj (msg_key (fst me)) ?tr = []" "msg_key (fst me) \<notin> set (job_keys ?js)"
      by (auto simp: sys_inv_def)
    with kin have "msg_key (fst me) \<noteq> ?kj" by auto
    with fr show "proj (msg_key (fst me)) (?tr @ evs) = [] \<and> msg_key (fst me) \<notin> set (job_keys ?js')"
      by (simp add: proj_job_step [OF st] keys'(1))
  qed
  have oks: "\<forall>j\<in>set ?js'. job_ok j"
    using inv ch by (intro job_ok_update_jobs) (auto simp: sys_inv_def chunk_ok_def split: option.splits)
  from inv keys'(2) lc inbox_ok oks show ?thesis
    by (simp add: sys_inv_def)
qed

lemma sys_step_inv: "sys_step s t \<Longrightarrow> sys_inv s \<Longrightarrow> sys_inv t"
proof (induction rule: sys_step.induct)
  case (deliver s m e rest n' oj)
  show ?case
  proof (cases "action_interfaces (node s) (name m)")
    case None
    with deliver.hyps(3) have "n' = node s" "oj = None"
      by (simp_all add: dispatch_callback_unregistered)
    with deliver.prems deliver.hyps(1) show ?thesis
      by (simp add: sys_inv_deliver_unregistered)
  next
    case (Some ai)
    with deliver.hyps(3) have "n' = (node s)\<lparr>trace := trace (node s) @ dispatch_events m\<rparr>"
      and "oj = Some (start_job ai m e)"
      by (simp_all add: dispatch_callback_registered)
    with deliver.prems deliver.hyps(1) show ?thesis
      by (simp add: sys_inv_deliver_registered)
  qed
next
  case (work i s evs nxt)
  from work.prems work.hyps show ?case by (rule sys_inv_work)
qed

lemma reachable_sys_inv: "reachable s \<Longrightarrow> sys_inv s"
proof (induction rule: reachable.induct)
  case (start ps n ms)
  then show ?case by (rule sys_inv_start)
next
  case (step s t)
  then show ?case by (blast intro: sys_step_inv)
qed

text \<open>What the invariant says of each action instance.\<close>

lemma sys_inv_lifecycle:
  assumes "sys_inv s"
  shows "lifecycle_prefix (proj k (trace (node s))) \<and> length (filter is_terminal (proj k (trace (node s)))) \<le> 1"
proof -
  from assms have
    run: "lc_run Idle (proj k (trace (node s))) = Some (expected_lc (job_keys (jobs s)) (trace (node s)) k)"
    by (rule sys_inv_lc)
  from lc_run_terminal_count [OF run] have "length (filter is_terminal (proj k (trace (node s)))) \<le> 1"
    by (simp split: if_splits)
  with run show ?thesis by (simp add: lifecycle_prefix_def)
qed

subsection \<open>A concrete run\<close>

text \<open>The spec's scenario (section 8) run through the system: the configuration registers
  \<open>pickup\<close> as a service action, command (plan 1, action 5) arrives and is delivered,
  and its service run takes its two steps. \<open>s1\<close> is the state with the run in flight,
  \<open>s3\<close> the state after it returned.\<close>

lemma pickup_run:
  "\<exists>s1 s3. reachable s1 \<and> jobs s1 \<noteq> [] \<and> proj (1, 5) (trace (node s1)) \<noteq> [] \<and>
            reachable s3 \<and> jobs s3 = [] \<and> proj (1, 5) (trace (node s3)) \<noteq> []"
proof -
  define cfg where "cfg = YSeq [YDict [(''name'', YStr ''pickup''), (''interface_type'', YStr ''service''),
                                    (''service_name'', YStr ''pickup_srv'')]]"
  define ps :: params where "ps = [''actions'' \<mapsto> cfg]"
  define m where "m = \<lparr>action_id = 5, plan_id = 1, name = ''pickup'', parameters = []\<rparr>"
  define e where "e = \<lparr>srv_reply = SrvSuccess, remote = [], outcome = (\<lambda>k s. '''')\<rparr>"
  define ai where "ai = ServiceAI \<lparr>srv_action_name = ''pickup'', service_name = ''pickup_srv''\<rparr>"
  define n where "n = \<lparr>action_interfaces = [''pickup'' \<mapsto> ai], kb_link = True, cfg_actions = Some cfg,
     action_feedback_pub = Some ''default_feedback_topic'', dispatch_sub = Some ''default_dispatch_topic'',
     shutdown_reason = None, logs = [LogInfo (kcl_log ''Ready to receive'')], trace = []\<rparr>"
  have mn: "main ps = Inr n"
    by (simp add: ps_def cfg_def n_def ai_def main_def aim_init_eq initial_node_def init_connect_def
        init_parse_def get_param_def parse_config_def parse_entry_def parse_service_def mk_service_def)
  define s0 where "s0 = \<lparr>node = n, inbox = [(m, e)], jobs = []\<rparr>"
  have r0: "reachable s0" unfolding s0_def by (rule reachable.start [OF mn]) simp
  define s1 where "s1 = \<lparr>node = n\<lparr>trace := dispatch_events m\<rparr>, inbox = [], jobs = [start_job ai m e]\<rparr>"
  have "sys_step s0 s1"
    unfolding s1_def s0_def
    using sys_step.deliver [of s0 m e "[]" "n\<lparr>trace := dispatch_events m\<rparr>" "Some (start_job ai m e)"]
    by (simp add: s0_def n_def m_def dispatch_callback_def)
  with r0 have r1: "reachable s1" by (rule reachable.step)
  define j1 where "j1 = (start_job ai m e)\<lparr>job_exec := ExSrv SrvAwait\<rparr>"
  define s2 where "s2 = \<lparr>node = n\<lparr>trace := dispatch_events m @ [CallService m ''pickup_srv'']\<rparr>, inbox = [], jobs = [j1]\<rparr>"
  have "sys_step s1 s2"
    using sys_step.work [of 0 s1 "[CallService m ''pickup_srv'']" "Some j1"]
    by (simp add: s1_def s2_def j1_def job_step_def start_job_def ai_def update_jobs_def)
  with r1 have r2: "reachable s2" by (rule reachable.step)
  define s3 where "s3 = \<lparr>node = n\<lparr>trace := dispatch_events m @ [CallService m ''pickup_srv'', KbApply m 1,
      Publish (mk_feedback m ACTION_SUCCEEDED_TO_GOAL_STATE)]\<rparr>, inbox = [], jobs = []\<rparr>"
  have "sys_step s2 s3"
    using sys_step.work [of 0 s2 "[KbApply m 1, Publish (mk_feedback m ACTION_SUCCEEDED_TO_GOAL_STATE)]" None]
    by (simp add: s2_def s3_def j1_def job_step_def start_job_def ai_def update_jobs_def e_def)
  with r2 have r3: "reachable s3" by (rule reachable.step)
  show ?thesis
    using r1 r3 by (intro exI [of _ s1] exI [of _ s3])
      (simp add: s1_def s3_def m_def dispatch_events_def msg_key_def)
qed

end
