(* ===== verification/Spin.thy ===== *)
theory Spin
  imports System
begin

text \<open>
  How rospy runs the node (ActionInterfaceManager.py, lines 42 and 103). The dispatch
  subscriber is created with \<open>queue_size=10\<close>, and one receive thread calls
  \<open>dispatch_callback\<close> for one message at a time. The callback runs the interface in
  place (line 67), so the next message is taken only when the previous run has
  returned. A message that arrives while the queue is full pushes out the oldest one
  (rospy drops the oldest message). A message published before the subscriber exists is
  not received at all.

  \<open>spin_step\<close> is one event of this schedule: a command arrives, the callback thread
  takes the next message, or the run in progress takes one step. \<open>abs_spin\<close> maps a state
  of this schedule to the concurrent system of theory \<open>System\<close>. Taking a message and
  advancing the run are steps of that system (\<open>spin_step_refines\<close>), and the arrival of a
  fresh command keeps its invariant, so lifecycle safety carries over. The bounded queue
  and the blocking run add two behaviours the concurrent model does not show: a run that
  never returns starves every later command, and a full queue loses commands without
  any feedback.
\<close>

text \<open>Line 42: \<open>rospy.Subscriber(adt, ActionDispatch, self.dispatch_callback, queue_size=10)\<close>.\<close>

definition dispatch_queue_size :: nat where
  "dispatch_queue_size = 10"

record spin =
  sp_node :: ros_node
  sp_queue :: "(action_dispatch \<times> env) list"
  sp_busy :: "job option"

datatype spin_ev = Arrive action_dispatch env | Deliver | Work

text \<open>rospy's bounded receive queue: when it holds \<open>q\<close> messages, the oldest is dropped
  before the new one is appended.\<close>

definition enqueue :: "nat \<Rightarrow> 'a list \<Rightarrow> 'a \<Rightarrow> 'a list" where
  "enqueue q xs x = (if length xs < q then xs @ [x] else tl xs @ [x])"

fun spin_step :: "spin \<Rightarrow> spin_ev \<Rightarrow> spin option" where
  "spin_step s (Arrive m e) =
     Some (if dispatch_sub (sp_node s) = None then s
           else s\<lparr>sp_queue := enqueue dispatch_queue_size (sp_queue s) (m, e)\<rparr>)"
| "spin_step s Deliver =
     (if sp_busy s \<noteq> None then None
      else case sp_queue s of
        [] \<Rightarrow> None
      | me # rest \<Rightarrow>
          (case dispatch_callback (sp_node s) (fst me) (snd me) of
             (n', oj) \<Rightarrow> Some (s\<lparr>sp_node := n', sp_queue := rest, sp_busy := oj\<rparr>)))"
| "spin_step s Work =
     (case sp_busy s of
        None \<Rightarrow> None
      | Some j \<Rightarrow>
          (case job_step j of
             (evs, nxt) \<Rightarrow> Some (s\<lparr>sp_node := (sp_node s)\<lparr>trace := trace (sp_node s) @ evs\<rparr>, sp_busy := nxt\<rparr>)))"

text \<open>A schedule: \<open>None\<close> when it asks for an event that is not enabled.\<close>

fun spin_run :: "spin \<Rightarrow> spin_ev list \<Rightarrow> spin option" where
  "spin_run s [] = Some s"
| "spin_run s (ev # evs) = (case spin_step s ev of None \<Rightarrow> None | Some s' \<Rightarrow> spin_run s' evs)"

text \<open>Line 103, \<open>rospy.spin()\<close>: the constructed node, nothing received yet.\<close>

definition spin_start :: "ros_node \<Rightarrow> spin" where
  "spin_start n = \<lparr>sp_node = n, sp_queue = [], sp_busy = None\<rparr>"

fun arrival_keys :: "spin_ev list \<Rightarrow> key list" where
  "arrival_keys [] = []"
| "arrival_keys (Arrive m e # evs) = msg_key m # arrival_keys evs"
| "arrival_keys (_ # evs) = arrival_keys evs"

definition spin_jobs :: "spin \<Rightarrow> job list" where
  "spin_jobs s = (case sp_busy s of None \<Rightarrow> [] | Some j \<Rightarrow> [j])"

definition spin_keys :: "spin \<Rightarrow> key list" where
  "spin_keys s = map (\<lambda>me. msg_key (fst me)) (sp_queue s) @ job_keys (spin_jobs s)"

definition abs_spin :: "spin \<Rightarrow> sys" where
  "abs_spin s = \<lparr>node = sp_node s, inbox = sp_queue s, jobs = spin_jobs s\<rparr>"

definition spin_inv :: "spin \<Rightarrow> bool" where
  "spin_inv s =
     (sys_inv (abs_spin s) \<and> (sp_queue s = [] \<or> dispatch_sub (sp_node s) \<noteq> None) \<and>
      length (sp_queue s) \<le> dispatch_queue_size)"

text \<open>Keys no command of the state carries and no event of the trace mentions.\<close>

definition fresh_keys :: "spin \<Rightarrow> key list \<Rightarrow> bool" where
  "fresh_keys s ks =
     (distinct ks \<and> (\<forall>k\<in>set ks. proj k (trace (sp_node s)) = [] \<and> k \<notin> set (spin_keys s)))"

subsection \<open>The callback and the queue\<close>

lemma dispatch_callback_cases:
  assumes "dispatch_callback n m e = (n', oj)"
  obtains "action_interfaces n (name m) = None" "n' = n" "oj = None"
  | ai where "action_interfaces n (name m) = Some ai" "n' = n\<lparr>trace := trace n @ dispatch_events m\<rparr>"
      "oj = Some (start_job ai m e)"
  using assms by (cases "action_interfaces n (name m)")
    (auto simp: dispatch_callback_unregistered dispatch_callback_registered)

lemma enqueue_set: "set (enqueue q xs x) \<subseteq> insert x (set xs)"
  by (cases xs) (auto simp: enqueue_def)

lemma enqueue_map: "map f (enqueue q xs x) = enqueue q (map f xs) (f x)"
  by (simp add: enqueue_def map_tl)

lemma enqueue_distinct: "distinct xs \<Longrightarrow> x \<notin> set xs \<Longrightarrow> distinct (enqueue q xs x)"
  by (cases xs) (auto simp: enqueue_def)

lemma enqueue_length: "length xs \<le> q \<Longrightarrow> 0 < q \<Longrightarrow> length (enqueue q xs x) \<le> q"
  by (auto simp: enqueue_def)

lemma enqueue_full: "length xs = q \<Longrightarrow> enqueue q xs x = tl xs @ [x]"
  by (simp add: enqueue_def)

subsection \<open>Refinement of the concurrent system\<close>

lemma spin_step_refines:
  assumes inv: "spin_inv s" and st: "spin_step s ev = Some t" and ev: "ev = Deliver \<or> ev = Work"
  shows "sys_step (abs_spin s) (abs_spin t)"
  using ev
proof
  assume d: "ev = Deliver"
  from st d have b: "sp_busy s = None" and ne: "sp_queue s \<noteq> []" by (auto split: if_splits list.splits)
  then obtain m e rest where q: "sp_queue s = (m, e) # rest" by (cases "sp_queue s") auto
  obtain n' oj where cb: "dispatch_callback (sp_node s) m e = (n', oj)" by fastforce
  from st d b q cb have t: "t = s\<lparr>sp_node := n', sp_queue := rest, sp_busy := oj\<rparr>" by simp
  from inv ne have sub: "dispatch_sub (sp_node s) \<noteq> None" by (simp add: spin_inv_def)
  have "sys_step (abs_spin s) ((abs_spin s)\<lparr>node := n', inbox := rest,
           jobs := jobs (abs_spin s) @ (case oj of None \<Rightarrow> [] | Some j \<Rightarrow> [j])\<rparr>)"
    by (rule sys_step.deliver [where m = m and e = e]) (simp_all add: abs_spin_def q sub cb)
  moreover have "(abs_spin s)\<lparr>node := n', inbox := rest,
           jobs := jobs (abs_spin s) @ (case oj of None \<Rightarrow> [] | Some j \<Rightarrow> [j])\<rparr> = abs_spin t"
    by (simp add: abs_spin_def spin_jobs_def t b)
  ultimately show ?thesis by simp
next
  assume w: "ev = Work"
  from st w obtain j where b: "sp_busy s = Some j" by (auto split: option.splits)
  obtain evs nxt where js: "job_step j = (evs, nxt)" by fastforce
  from st w b js have t: "t = s\<lparr>sp_node := (sp_node s)\<lparr>trace := trace (sp_node s) @ evs\<rparr>, sp_busy := nxt\<rparr>"
    by simp
  have "sys_step (abs_spin s) ((abs_spin s)\<lparr>node := (node (abs_spin s))\<lparr>trace := trace (node (abs_spin s)) @ evs\<rparr>,
           jobs := update_jobs (jobs (abs_spin s)) 0 nxt\<rparr>)"
    by (rule sys_step.work) (simp_all add: abs_spin_def spin_jobs_def b js)
  moreover have "update_jobs [j] 0 nxt = (case nxt of None \<Rightarrow> [] | Some j' \<Rightarrow> [j'])"
    by (cases nxt) (simp_all add: update_jobs_def)
  then have "(abs_spin s)\<lparr>node := (node (abs_spin s))\<lparr>trace := trace (node (abs_spin s)) @ evs\<rparr>,
           jobs := update_jobs (jobs (abs_spin s)) 0 nxt\<rparr> = abs_spin t"
    by (simp add: abs_spin_def spin_jobs_def t b)
  ultimately show ?thesis by simp
qed

subsection \<open>Commands a schedule never touches\<close>

text \<open>A key that is neither queued nor running, and that the event does not bring in,
  stays so, and gets no event.\<close>

lemma spin_step_untouched:
  assumes st: "spin_step s ev = Some t" and k: "k \<notin> set (spin_keys s)"
    and ev: "k \<notin> set (arrival_keys [ev])"
  shows "k \<notin> set (spin_keys t) \<and> proj k (trace (sp_node t)) = proj k (trace (sp_node s))"
proof (cases ev)
  case (Arrive m e)
  with ev have "msg_key m \<noteq> k" by simp
  with st k Arrive show ?thesis
    using enqueue_set [of dispatch_queue_size "sp_queue s" "(m, e)"]
    by (auto simp: spin_keys_def spin_jobs_def split: if_splits)
next
  case Deliver
  from st Deliver have b: "sp_busy s = None" and ne: "sp_queue s \<noteq> []" by (auto split: if_splits list.splits)
  then obtain m e rest where q: "sp_queue s = (m, e) # rest" by (cases "sp_queue s") auto
  obtain n' oj where cb: "dispatch_callback (sp_node s) m e = (n', oj)" by fastforce
  from st Deliver b q cb have t: "t = s\<lparr>sp_node := n', sp_queue := rest, sp_busy := oj\<rparr>" by simp
  from k q have km: "k \<noteq> msg_key m" and kr: "k \<notin> msg_key ` fst ` set rest"
    by (auto simp: spin_keys_def image_image)
  from cb show ?thesis
  proof (cases rule: dispatch_callback_cases)
    case 1
    with t kr show ?thesis by (auto simp: spin_keys_def spin_jobs_def job_keys_def image_image)
  next
    case (2 ai)
    with t km kr show ?thesis
      by (auto simp: spin_keys_def spin_jobs_def job_keys_def image_image proj_dispatch_events start_job_def)
  qed
next
  case Work
  from st Work obtain j where b: "sp_busy s = Some j" by (auto split: option.splits)
  obtain evs nxt where js: "job_step j = (evs, nxt)" by fastforce
  from st Work b js have t: "t = s\<lparr>sp_node := (sp_node s)\<lparr>trace := trace (sp_node s) @ evs\<rparr>, sp_busy := nxt\<rparr>"
    by simp
  from k b have kj: "k \<noteq> msg_key (job_msg j)" by (simp add: spin_keys_def spin_jobs_def job_keys_def)
  have "k \<notin> set (job_keys (case nxt of None \<Rightarrow> [] | Some j' \<Rightarrow> [j']))"
    using kj js by (cases nxt) (auto simp: job_keys_def dest: job_step_msg)
  with k t kj show ?thesis
    by (auto simp: spin_keys_def spin_jobs_def b proj_job_step [OF js])
qed

lemma spin_run_untouched:
  "spin_run s evs = Some t \<Longrightarrow> k \<notin> set (spin_keys s) \<Longrightarrow> k \<notin> set (arrival_keys evs) \<Longrightarrow>
     k \<notin> set (spin_keys t) \<and> proj k (trace (sp_node t)) = proj k (trace (sp_node s))"
proof (induction evs arbitrary: s)
  case Nil
  then show ?case by simp
next
  case (Cons ev evs)
  from Cons.prems(1) obtain s' where st: "spin_step s ev = Some s'" and r: "spin_run s' evs = Some t"
    by (auto split: option.splits)
  from Cons.prems(3) have "k \<notin> set (arrival_keys [ev])" and ks: "k \<notin> set (arrival_keys evs)"
    by (cases ev; simp)+
  from spin_step_untouched [OF st Cons.prems(2) this(1)]
  have "k \<notin> set (spin_keys s')" and "proj k (trace (sp_node s')) = proj k (trace (sp_node s))" by auto
  with Cons.IH [OF r _ ks] show ?case by simp
qed

subsection \<open>The invariant along a schedule\<close>

lemma arrival_keys_append [simp]: "arrival_keys (xs @ ys) = arrival_keys xs @ arrival_keys ys"
  by (induction xs rule: arrival_keys.induct) simp_all

lemma arrival_keys_Cons: "arrival_keys (ev # evs) = arrival_keys [ev] @ arrival_keys evs"
  using arrival_keys_append [of "[ev]" evs] by simp

lemma sys_inv_enqueue:
  assumes inv: "sys_inv S" and tr: "proj (msg_key m) (trace (node S)) = []"
    and q: "msg_key m \<notin> set (map (\<lambda>me. msg_key (fst me)) (inbox S))" and j: "msg_key m \<notin> set (job_keys (jobs S))"
  shows "sys_inv (S\<lparr>inbox := enqueue q' (inbox S) (m, e)\<rparr>)"
proof -
  have "distinct (map (\<lambda>me. msg_key (fst me)) (enqueue q' (inbox S) (m, e)))"
    using inv q by (simp add: enqueue_map sys_inv_def enqueue_distinct)
  moreover have "\<forall>me\<in>set (enqueue q' (inbox S) (m, e)).
      proj (msg_key (fst me)) (trace (node S)) = [] \<and> msg_key (fst me) \<notin> set (job_keys (jobs S))"
    using inv tr j enqueue_set [of q' "inbox S" "(m, e)"] by (auto simp: sys_inv_def)
  ultimately show ?thesis using inv by (simp add: sys_inv_def)
qed

lemma spin_inv_step:
  assumes inv: "spin_inv s" and st: "spin_step s ev = Some t"
    and fr: "\<forall>k\<in>set (arrival_keys [ev]). proj k (trace (sp_node s)) = [] \<and> k \<notin> set (spin_keys s)"
  shows "spin_inv t"
proof (cases ev)
  case (Arrive m e)
  show ?thesis
  proof (cases "dispatch_sub (sp_node s) = None")
    case True
    with st Arrive inv show ?thesis by simp
  next
    case False
    with st Arrive have t: "t = s\<lparr>sp_queue := enqueue dispatch_queue_size (sp_queue s) (m, e)\<rparr>" by simp
    from fr Arrive have "proj (msg_key m) (trace (sp_node s)) = []" "msg_key m \<notin> set (spin_keys s)" by auto
    with inv have "sys_inv ((abs_spin s)\<lparr>inbox := enqueue dispatch_queue_size (inbox (abs_spin s)) (m, e)\<rparr>)"
      by (intro sys_inv_enqueue) (simp_all add: spin_inv_def abs_spin_def spin_keys_def)
    moreover have "length (enqueue dispatch_queue_size (sp_queue s) (m, e)) \<le> dispatch_queue_size"
      using inv by (intro enqueue_length) (simp_all add: spin_inv_def dispatch_queue_size_def)
    ultimately show ?thesis using t False by (simp add: spin_inv_def abs_spin_def spin_jobs_def)
  qed
next
  case Deliver
  then have "sys_inv (abs_spin t)"
    using sys_step_inv [OF spin_step_refines [OF inv st]] inv by (simp add: spin_inv_def)
  moreover from st Deliver have b: "sp_busy s = None" and ne: "sp_queue s \<noteq> []" by (auto split: if_splits list.splits)
  then obtain m e rest where q: "sp_queue s = (m, e) # rest" by (cases "sp_queue s") auto
  obtain n' oj where cb: "dispatch_callback (sp_node s) m e = (n', oj)" by fastforce
  from st Deliver b q cb have t: "t = s\<lparr>sp_node := n', sp_queue := rest, sp_busy := oj\<rparr>" by simp
  from cb have "dispatch_sub n' = dispatch_sub (sp_node s)" by (cases rule: dispatch_callback_cases) simp_all
  ultimately show ?thesis using inv q t by (simp add: spin_inv_def)
next
  case Work
  then have "sys_inv (abs_spin t)"
    using sys_step_inv [OF spin_step_refines [OF inv st]] inv by (simp add: spin_inv_def)
  moreover from st Work obtain j where b: "sp_busy s = Some j" by (auto split: option.splits)
  obtain evs nxt where js: "job_step j = (evs, nxt)" by fastforce
  from st Work b js have t: "t = s\<lparr>sp_node := (sp_node s)\<lparr>trace := trace (sp_node s) @ evs\<rparr>, sp_busy := nxt\<rparr>"
    by simp
  ultimately show ?thesis using inv by (simp add: spin_inv_def)
qed

lemma fresh_keys_step:
  assumes st: "spin_step s ev = Some s'" and fr: "fresh_keys s (arrival_keys (ev # evs))"
  shows "fresh_keys s' (arrival_keys evs)"
  unfolding fresh_keys_def
proof
  from fr show "distinct (arrival_keys evs)"
    by (simp add: fresh_keys_def arrival_keys_Cons [of ev evs])
  show "\<forall>k\<in>set (arrival_keys evs). proj k (trace (sp_node s')) = [] \<and> k \<notin> set (spin_keys s')"
  proof
    fix k assume k: "k \<in> set (arrival_keys evs)"
    with fr have "k \<notin> set (arrival_keys [ev])" and "proj k (trace (sp_node s)) = []" "k \<notin> set (spin_keys s)"
      by (auto simp: fresh_keys_def arrival_keys_Cons [of ev evs])
    with spin_step_untouched [OF st] show "proj k (trace (sp_node s')) = [] \<and> k \<notin> set (spin_keys s')"
      by auto
  qed
qed

lemma spin_run_inv:
  "spin_run s evs = Some t \<Longrightarrow> fresh_keys s (arrival_keys (evs @ later)) \<Longrightarrow> spin_inv s \<Longrightarrow>
     spin_inv t \<and> fresh_keys t (arrival_keys later)"
proof (induction evs arbitrary: s)
  case Nil
  then show ?case by simp
next
  case (Cons ev evs)
  from Cons.prems(1) obtain s' where st: "spin_step s ev = Some s'" and r: "spin_run s' evs = Some t"
    by (auto split: option.splits)
  from Cons.prems(2) have "\<forall>k\<in>set (arrival_keys [ev]). proj k (trace (sp_node s)) = [] \<and> k \<notin> set (spin_keys s)"
    by (auto simp: fresh_keys_def arrival_keys_Cons [of ev "evs @ later"])
  with Cons.prems(3) st have inv': "spin_inv s'" by (rule spin_inv_step)
  from fresh_keys_step [OF st, of "evs @ later"] Cons.prems(2)
  have "fresh_keys s' (arrival_keys (evs @ later))" by simp
  from Cons.IH [OF r this inv'] show ?case .
qed

lemma spin_start_inv:
  assumes "main ps = Inr n" and "distinct ks"
  shows "spin_inv (spin_start n) \<and> fresh_keys (spin_start n) ks"
proof -
  have "sys_inv \<lparr>node = n, inbox = [], jobs = []\<rparr>" using assms(1) by (rule sys_inv_start) simp
  with assms show ?thesis
    by (simp add: spin_inv_def fresh_keys_def abs_spin_def spin_start_def spin_jobs_def spin_keys_def
        job_keys_def main_trace)
qed

text \<open>A node configured with one actionlib action \<open>move\<close> and no timeout, as \<open>main\<close>
  builds it.\<close>

lemma main_move:
  "main [''actions'' \<mapsto> YSeq [YDict [(''name'', YStr ''move''), (''interface_type'', YStr ''actionlib''),
                                   (''action_server'', YStr ''move_base'')]]] =
   Inr \<lparr>action_interfaces = [''move'' \<mapsto> ActionlibAI \<lparr>al_action_name = ''move'', action_server = ''move_base'', al_timeout = None\<rparr>],
        kb_link = True,
        cfg_actions = Some (YSeq [YDict [(''name'', YStr ''move''), (''interface_type'', YStr ''actionlib''),
                                   (''action_server'', YStr ''move_base'')]]),
        action_feedback_pub = Some ''default_feedback_topic'', dispatch_sub = Some ''default_dispatch_topic'',
        shutdown_reason = None, logs = [LogInfo (kcl_log ''Ready to receive'')], trace = []\<rparr>"
  by (simp add: main_def aim_init_eq initial_node_def init_connect_def init_parse_def get_param_def
      parse_config_def parse_entry_def parse_actionlib_def mk_actionlib_def)

subsection \<open>Claims about rospy's schedule\<close>

text \<open>C23: under rospy's schedule (one callback thread, a queue of ten, commands arriving
  at any time with distinct (plan, action) ids), every action instance's events are a
  prefix of its lifecycle with at most one terminal feedback: the schedule refines the
  concurrent system of C1.\<close>

theorem spin_lifecycle_safe:
  assumes "main ps = Inr n" and "distinct (arrival_keys evs)" and "spin_run (spin_start n) evs = Some s"
  shows "lifecycle_prefix (proj k (trace (sp_node s))) \<and> length (filter is_terminal (proj k (trace (sp_node s)))) \<le> 1"
proof -
  from spin_start_inv [OF assms(1), of "arrival_keys (evs @ [])"] assms(2)
  have i0: "spin_inv (spin_start n)" and f0: "fresh_keys (spin_start n) (arrival_keys (evs @ []))" by simp_all
  from spin_run_inv [OF assms(3) f0 i0] have "sys_inv (abs_spin s)" by (simp add: spin_inv_def)
  from sys_inv_lifecycle [OF this, of k] show ?thesis by (simp add: abs_spin_def)
qed

theorem spin_lifecycle_safe_witness:
  "\<exists>n s. main [''actions'' \<mapsto> YSeq [YDict [(''name'', YStr ''move''), (''interface_type'', YStr ''actionlib''),
                                   (''action_server'', YStr ''move_base'')]]] = Inr n \<and>
     spin_run (spin_start n)
       [Arrive \<lparr>action_id = 1, plan_id = 1, name = ''move'', parameters = []\<rparr>
          \<lparr>srv_reply = SrvSuccess, remote = [RSucceeded], outcome = (\<lambda>k s. '''')\<rparr>, Deliver, Work, Work] = Some s \<and>
     proj (1, 1) (trace (sp_node s)) \<noteq> [] \<and>
     lifecycle_prefix (proj (1, 1) (trace (sp_node s))) \<and> length (filter is_terminal (proj (1, 1) (trace (sp_node s)))) \<le> 1"
proof -
  define ps :: params where "ps = [''actions'' \<mapsto> YSeq [YDict [(''name'', YStr ''move''), (''interface_type'', YStr ''actionlib''),
                                   (''action_server'', YStr ''move_base'')]]]"
  define evs where "evs = [Arrive \<lparr>action_id = 1, plan_id = 1, name = ''move'', parameters = []\<rparr>
          \<lparr>srv_reply = SrvSuccess, remote = [RSucceeded], outcome = (\<lambda>k s. '''')\<rparr>, Deliver, Work, Work]"
  define n where "n = \<lparr>action_interfaces = [''move'' \<mapsto> ActionlibAI \<lparr>al_action_name = ''move'', action_server = ''move_base'', al_timeout = None\<rparr>],
        kb_link = True,
        cfg_actions = Some (YSeq [YDict [(''name'', YStr ''move''), (''interface_type'', YStr ''actionlib''),
                                   (''action_server'', YStr ''move_base'')]]),
        action_feedback_pub = Some ''default_feedback_topic'', dispatch_sub = Some ''default_dispatch_topic'',
        shutdown_reason = None, logs = [LogInfo (kcl_log ''Ready to receive'')], trace = []\<rparr>"
  have mn: "main ps = Inr n" unfolding ps_def n_def by (rule main_move)
  have "spin_run (spin_start n) evs \<noteq> None"
    unfolding n_def evs_def
    by (simp add: spin_start_def enqueue_def dispatch_queue_size_def dispatch_callback_def start_job_def
        job_step_def al_timed_out_def)
  then obtain s where r: "spin_run (spin_start n) evs = Some s" by auto
  have d: "distinct (arrival_keys evs)" by (simp add: evs_def)
  have "proj (1, 1) (trace (sp_node s)) \<noteq> []"
    using r unfolding n_def evs_def
    by (auto simp: spin_start_def enqueue_def dispatch_queue_size_def dispatch_callback_def start_job_def
        job_step_def al_timed_out_def dispatch_events_def msg_key_def)
  with spin_lifecycle_safe [OF mn d r, of "(1, 1)"] mn r show ?thesis unfolding ps_def evs_def by blast
qed

text \<open>C24: on rospy's single callback thread, a run that never returns (such as an
  actionlib goal without a timeout, C17) starves the node: whatever arrives later, the
  callback never takes another message, and the only events ever published again are
  those of the blocked command.\<close>

theorem spin_blocked_starves:
  "spin_run s evs = Some t \<Longrightarrow> sp_busy s = Some j \<Longrightarrow> drive job_step j = None \<Longrightarrow>
     \<exists>j' evs'. sp_busy t = Some j' \<and> job_msg j' = job_msg j \<and> drive job_step j' = None \<and>
       trace (sp_node t) = trace (sp_node s) @ evs' \<and> (\<forall>ev\<in>set evs'. ev_key ev = msg_key (job_msg j))"
proof (induction evs arbitrary: s j)
  case Nil
  then show ?case by auto
next
  case (Cons ev evs)
  from Cons.prems(1) obtain s' where st: "spin_step s ev = Some s'" and r: "spin_run s' evs = Some t"
    by (auto split: option.splits)
  show ?case
  proof (cases ev)
    case (Arrive m e)
    with st have "sp_busy s' = sp_busy s" "trace (sp_node s') = trace (sp_node s)" by (auto split: if_splits)
    with Cons.IH [OF r _ Cons.prems(3)] Cons.prems(2) show ?thesis by simp
  next
    case Deliver
    with st Cons.prems(2) show ?thesis by simp
  next
    case Work
    obtain evs0 nxt where js: "job_step j = (evs0, nxt)" by fastforce
    from drive_None_step [OF Cons.prems(3) js] obtain j1 where nx: "nxt = Some j1"
      and d1: "drive job_step j1 = None" by blast
    from st Work Cons.prems(2) js nx have
      s': "sp_busy s' = Some j1" "trace (sp_node s') = trace (sp_node s) @ evs0" by auto
    from js nx have m1: "job_msg j1 = job_msg j" by (simp add: job_step_msg)
    from job_step_keys [OF js] have k0: "\<forall>ev\<in>set evs0. ev_key ev = msg_key (job_msg j)" .
    from Cons.IH [OF r s'(1) d1] obtain j' evs' where
      "sp_busy t = Some j'" "job_msg j' = job_msg j1" "drive job_step j' = None"
      "trace (sp_node t) = trace (sp_node s') @ evs'" "\<forall>ev\<in>set evs'. ev_key ev = msg_key (job_msg j1)"
      by blast
    with s'(2) m1 k0 show ?thesis
      by (intro exI [of _ j'] exI [of _ "evs0 @ evs'"]) auto
  qed
qed

theorem spin_blocked_starves_witness:
  "\<exists>t. spin_run \<lparr>sp_node = initial_node\<lparr>dispatch_sub := Some ''default_dispatch_topic''\<rparr>,
          sp_queue = [(\<lparr>action_id = 2, plan_id = 1, name = ''move'', parameters = []\<rparr>,
                       \<lparr>srv_reply = SrvSuccess, remote = [], outcome = (\<lambda>k s. '''')\<rparr>)],
          sp_busy = Some (start_job (ActionlibAI \<lparr>al_action_name = ''move'', action_server = ''move_base'', al_timeout = None\<rparr>)
                     \<lparr>action_id = 1, plan_id = 1, name = ''move'', parameters = []\<rparr>
                     \<lparr>srv_reply = SrvSuccess, remote = [], outcome = (\<lambda>k s. '''')\<rparr>)\<rparr>
        [Arrive \<lparr>action_id = 3, plan_id = 1, name = ''move'', parameters = []\<rparr>
           \<lparr>srv_reply = SrvSuccess, remote = [], outcome = (\<lambda>k s. '''')\<rparr>, Work, Work, Work] = Some t \<and>
      sp_busy t \<noteq> None \<and> proj (1, 2) (trace (sp_node t)) = []"
proof -
  define c where "c = \<lparr>al_action_name = ''move'', action_server = ''move_base'', al_timeout = (None :: nat option)\<rparr>"
  define e where "e = \<lparr>srv_reply = SrvSuccess, remote = [], outcome = (\<lambda>(k::nat) (s::string). '''')\<rparr>"
  define m1 where "m1 = \<lparr>action_id = 1, plan_id = 1, name = ''move'', parameters = []\<rparr>"
  define j where "j = start_job (ActionlibAI c) m1 e"
  define s where "s = \<lparr>sp_node = initial_node\<lparr>dispatch_sub := Some ''default_dispatch_topic''\<rparr>,
          sp_queue = [(\<lparr>action_id = 2, plan_id = 1, name = ''move'', parameters = []\<rparr>, e)], sp_busy = Some j\<rparr>"
  define evs where "evs = [Arrive \<lparr>action_id = 3, plan_id = 1, name = ''move'', parameters = []\<rparr> e, Work, Work, Work]"
  have b: "sp_busy s = Some j" by (simp add: s_def)
  have d: "drive job_step j = None"
    by (simp add: j_def drive_start_job run_actionlib al_run_silent_no_timeout c_def e_def)
  have "spin_run s evs \<noteq> None"
    by (simp add: s_def evs_def j_def c_def e_def enqueue_def dispatch_queue_size_def start_job_def
        job_step_def al_timed_out_def)
  then obtain t where r: "spin_run s evs = Some t" by auto
  from spin_blocked_starves [OF r b d] obtain evs' where
    bt: "sp_busy t \<noteq> None" and tt: "trace (sp_node t) = trace (sp_node s) @ evs'"
    and ks: "\<forall>ev\<in>set evs'. ev_key ev = msg_key m1"
    by (auto simp: j_def start_job_def)
  have "(1, 2) \<noteq> msg_key m1" by (simp add: m1_def msg_key_def)
  with ks have "proj (1, 2) evs' = []" by (rule proj_other_key)
  with bt tt have "sp_busy t \<noteq> None \<and> proj (1, 2) (trace (sp_node t)) = []"
    by (simp add: s_def initial_node_def)
  with r show ?thesis unfolding s_def evs_def j_def c_def e_def m1_def by blast
qed

text \<open>C25: the receive queue holds ten commands. When a command arrives while it is
  full, which happens whenever a run keeps the callback thread longer than ten arrivals,
  the oldest queued command is dropped: it has no event, it is neither queued nor
  running, and no later schedule that does not re-send it ever gives it one. The
  dispatcher never hears back about that action.\<close>

theorem spin_queue_overflow_loses:
  assumes main: "main ps = Inr n" and run: "spin_run (spin_start n) evs = Some s"
    and fresh: "distinct (arrival_keys (evs @ Arrive m e # evs'))"
    and full: "length (sp_queue s) = dispatch_queue_size"
    and rest: "spin_run s (Arrive m e # evs') = Some t"
  shows "proj (msg_key (fst (hd (sp_queue s)))) (trace (sp_node t)) = [] \<and>
         msg_key (fst (hd (sp_queue s))) \<notin> set (spin_keys t)"
proof -
  let ?k0 = "msg_key (fst (hd (sp_queue s)))"
  from spin_start_inv [OF main fresh] have i0: "spin_inv (spin_start n)"
    and f0: "fresh_keys (spin_start n) (arrival_keys (evs @ Arrive m e # evs'))" by simp_all
  from spin_run_inv [OF run f0 i0] have inv: "spin_inv s"
    and fr: "fresh_keys s (arrival_keys (Arrive m e # evs'))" by simp_all
  from full obtain x xs where q: "sp_queue s = x # xs" by (cases "sp_queue s") (auto simp: dispatch_queue_size_def)
  with inv have sub: "dispatch_sub (sp_node s) \<noteq> None" by (simp add: spin_inv_def)
  define s1 where "s1 = s\<lparr>sp_queue := xs @ [(m, e)]\<rparr>"
  from full q have "enqueue dispatch_queue_size (sp_queue s) (m, e) = xs @ [(m, e)]" by (simp add: enqueue_full)
  then have st: "spin_step s (Arrive m e) = Some s1" by (simp add: s1_def sub)
  with rest have r1: "spin_run s1 evs' = Some t" by simp
  from inv q have tr0: "proj ?k0 (trace (sp_node s)) = []" and j0: "?k0 \<notin> set (job_keys (spin_jobs s))"
    and dq: "distinct (map (\<lambda>me. msg_key (fst me)) (x # xs))"
    by (auto simp: spin_inv_def sys_inv_def abs_spin_def)
  have k0s: "?k0 \<in> set (spin_keys s)" using q by (simp add: spin_keys_def)
  with fr have km: "msg_key m \<noteq> ?k0" and ka: "?k0 \<notin> set (arrival_keys evs')"
    by (auto simp: fresh_keys_def)
  from dq q have "?k0 \<notin> set (map (\<lambda>me. msg_key (fst me)) xs)" by simp
  with km j0 have "?k0 \<notin> set (spin_keys s1)"
    by (simp add: spin_keys_def spin_jobs_def s1_def)
  from spin_run_untouched [OF r1 this ka] tr0 show ?thesis by (simp add: s1_def)
qed

theorem spin_queue_overflow_loses_witness:
  "\<exists>n s t. main [''actions'' \<mapsto> YSeq [YDict [(''name'', YStr ''move''), (''interface_type'', YStr ''actionlib''),
                                   (''action_server'', YStr ''move_base'')]]] = Inr n \<and>
     spin_run (spin_start n)
       ([Arrive \<lparr>action_id = 1, plan_id = 1, name = ''move'', parameters = []\<rparr>
           \<lparr>srv_reply = SrvSuccess, remote = [], outcome = (\<lambda>k s. '''')\<rparr>, Deliver, Work] @
        map (\<lambda>i. Arrive \<lparr>action_id = i, plan_id = 1, name = ''move'', parameters = []\<rparr>
                 \<lparr>srv_reply = SrvSuccess, remote = [], outcome = (\<lambda>k s. '''')\<rparr>) [2, 3, 4, 5, 6, 7, 8, 9, 10, 11]) = Some s \<and>
     sp_busy s \<noteq> None \<and> length (sp_queue s) = dispatch_queue_size \<and>
     spin_run s [Arrive \<lparr>action_id = 12, plan_id = 1, name = ''move'', parameters = []\<rparr>
                   \<lparr>srv_reply = SrvSuccess, remote = [], outcome = (\<lambda>k s. '''')\<rparr>] = Some t \<and>
     proj (1, 2) (trace (sp_node t)) = [] \<and> (1, 2) \<notin> set (spin_keys t)"
proof -
  define ps :: params where "ps = [''actions'' \<mapsto> YSeq [YDict [(''name'', YStr ''move''), (''interface_type'', YStr ''actionlib''),
                                   (''action_server'', YStr ''move_base'')]]]"
  define n where "n = \<lparr>action_interfaces = [''move'' \<mapsto> ActionlibAI \<lparr>al_action_name = ''move'', action_server = ''move_base'', al_timeout = None\<rparr>],
        kb_link = True,
        cfg_actions = Some (YSeq [YDict [(''name'', YStr ''move''), (''interface_type'', YStr ''actionlib''),
                                   (''action_server'', YStr ''move_base'')]]),
        action_feedback_pub = Some ''default_feedback_topic'', dispatch_sub = Some ''default_dispatch_topic'',
        shutdown_reason = None, logs = [LogInfo (kcl_log ''Ready to receive'')], trace = []\<rparr>"
  define e where "e = \<lparr>srv_reply = SrvSuccess, remote = [], outcome = (\<lambda>(k::nat) (s::string). '''')\<rparr>"
  define evs where "evs = [Arrive \<lparr>action_id = 1, plan_id = 1, name = ''move'', parameters = []\<rparr> e, Deliver, Work] @
        map (\<lambda>i. Arrive \<lparr>action_id = i, plan_id = 1, name = ''move'', parameters = []\<rparr> e) [2, 3, 4, 5, 6, 7, 8, 9, 10, 11]"
  define m where "m = \<lparr>action_id = 12, plan_id = 1, name = ''move'', parameters = []\<rparr>"
  have mn: "main ps = Inr n" unfolding ps_def n_def by (rule main_move)
  have "\<exists>s. spin_run (spin_start n) evs = Some s \<and> sp_busy s \<noteq> None \<and>
            length (sp_queue s) = dispatch_queue_size \<and> msg_key (fst (hd (sp_queue s))) = (1, 2)"
    unfolding n_def evs_def e_def
    by (simp add: spin_start_def enqueue_def dispatch_queue_size_def dispatch_callback_def start_job_def
        job_step_def msg_key_def)
  then obtain s where r: "spin_run (spin_start n) evs = Some s" and b: "sp_busy s \<noteq> None"
    and full: "length (sp_queue s) = dispatch_queue_size" and hd: "msg_key (fst (hd (sp_queue s))) = (1, 2)"
    by blast
  obtain t where rt: "spin_run s [Arrive m e] = Some t" by (simp split: if_splits)
  have d: "distinct (arrival_keys (evs @ [Arrive m e]))" by (simp add: evs_def m_def msg_key_def)
  from spin_queue_overflow_loses [OF mn r d full rt] hd
  have "proj (1, 2) (trace (sp_node t)) = [] \<and> (1, 2) \<notin> set (spin_keys t)" by simp
  with mn r b full rt show ?thesis unfolding ps_def evs_def e_def m_def by blast
qed

subsection \<open>The node's type invariant along a schedule\<close>

lemma spin_step_node_wf:
  assumes wf: "node_wf (sp_node s)" and st: "spin_step s ev = Some t"
  shows "node_wf (sp_node t)"
proof (cases ev)
  case (Arrive m e)
  with st wf show ?thesis by (auto split: if_splits)
next
  case Deliver
  from st Deliver have b: "sp_busy s = None" and ne: "sp_queue s \<noteq> []" by (auto split: if_splits list.splits)
  then obtain m e rest where q: "sp_queue s = (m, e) # rest" by (cases "sp_queue s") auto
  obtain n' oj where cb: "dispatch_callback (sp_node s) m e = (n', oj)" by fastforce
  from st Deliver b q cb have "sp_node t = n'" by auto
  with dispatch_callback_node_wf [OF wf cb] show ?thesis by simp
next
  case Work
  with st wf show ?thesis by (auto simp: node_wf_def split: option.splits prod.splits)
qed

lemma spin_run_node_wf:
  "spin_run s evs = Some t \<Longrightarrow> node_wf (sp_node s) \<Longrightarrow> node_wf (sp_node t)"
proof (induction evs arbitrary: s)
  case Nil
  then show ?case by simp
next
  case (Cons ev evs)
  from Cons.prems(1) obtain s' where st: "spin_step s ev = Some s'" and r: "spin_run s' evs = Some t"
    by (auto split: option.splits)
  from Cons.IH [OF r spin_step_node_wf [OF Cons.prems(2) st]] show ?case .
qed

subsection \<open>Claim: the node's type\<close>

text \<open>C28: the node's type invariant holds in every state of rospy's schedule after
  \<open>main\<close>, whatever arrives: the registry files each interface under its own name, and
  whenever the subscriber exists (so the callback can be called) the feedback publisher
  and the knowledge-base link exist too, so the callback's reads of them never fail.\<close>

theorem spin_node_wf:
  assumes "main ps = Inr n" and "spin_run (spin_start n) evs = Some s"
  shows "node_wf (sp_node s)"
proof -
  from assms(1) have "node_wf n" unfolding main_def by (rule aim_init_node_wf [OF node_wf_initial])
  with spin_run_node_wf [OF assms(2)] show ?thesis by (simp add: spin_start_def)
qed

theorem spin_node_wf_witness:
  "\<exists>n s. main [''actions'' \<mapsto> YSeq [YDict [(''name'', YStr ''move''), (''interface_type'', YStr ''actionlib''),
                                   (''action_server'', YStr ''move_base'')]]] = Inr n \<and>
     spin_run (spin_start n)
       [Arrive \<lparr>action_id = 1, plan_id = 1, name = ''move'', parameters = []\<rparr>
          \<lparr>srv_reply = SrvSuccess, remote = [RSucceeded], outcome = (\<lambda>k s. '''')\<rparr>, Deliver, Work] = Some s \<and>
     node_wf (sp_node s)"
proof -
  define ps :: params where "ps = [''actions'' \<mapsto> YSeq [YDict [(''name'', YStr ''move''), (''interface_type'', YStr ''actionlib''),
                                   (''action_server'', YStr ''move_base'')]]]"
  define n where "n = \<lparr>action_interfaces = [''move'' \<mapsto> ActionlibAI \<lparr>al_action_name = ''move'', action_server = ''move_base'', al_timeout = None\<rparr>],
        kb_link = True,
        cfg_actions = Some (YSeq [YDict [(''name'', YStr ''move''), (''interface_type'', YStr ''actionlib''),
                                   (''action_server'', YStr ''move_base'')]]),
        action_feedback_pub = Some ''default_feedback_topic'', dispatch_sub = Some ''default_dispatch_topic'',
        shutdown_reason = None, logs = [LogInfo (kcl_log ''Ready to receive'')], trace = []\<rparr>"
  define evs where "evs = [Arrive \<lparr>action_id = 1, plan_id = 1, name = ''move'', parameters = []\<rparr>
          \<lparr>srv_reply = SrvSuccess, remote = [RSucceeded], outcome = (\<lambda>k s. '''')\<rparr>, Deliver, Work]"
  have mn: "main ps = Inr n" unfolding ps_def n_def by (rule main_move)
  have "spin_run (spin_start n) evs \<noteq> None"
    unfolding n_def evs_def
    by (simp add: spin_start_def enqueue_def dispatch_queue_size_def dispatch_callback_def start_job_def job_step_def)
  then obtain s where r: "spin_run (spin_start n) evs = Some s" by auto
  from spin_node_wf [OF mn r] mn r show ?thesis unfolding ps_def evs_def by blast
qed

end
