(* ===== verification/Spec2Isabelle.thy ===== *)
theory Spec2Isabelle
  imports Spin
begin

text \<open>
  Verification development for the ROSPlan action interface manager,
  src/rosplan_action_interface/src/ActionInterfaceManager.py: a ROS node that reads a
  list of action configurations from the parameter \<open>actions\<close>, builds one action
  interface per entry (actionlib, service or state machine), and on every
  \<open>ActionDispatch\<close> command of the plan dispatcher whose name it knows publishes
  DISPATCHED feedback, asks the knowledge base to apply the start effects, and hands the
  command to the interface's \<open>run\<close>, which publishes progress, applies the end effects and
  publishes the terminal SUCCEEDED or FAILED feedback.

  \<^bold>\<open>Theories and what they model.\<close>
  \<^item> \<open>Prelude\<close>: the sum monad \<open>'e + 'a\<close> for Python exceptions (\<open>sbind\<close>, \<open>smap\<close>), the named
    collections \<open>step_simps\<close>, \<open>contract_intros\<close>, and list lemmas the components share.
  \<^item> \<open>Messages\<close>: YAML values as Python sees them (\<open>yval\<close>) with dictionary indexing
    (\<open>dict_get\<close>: KeyError/TypeError), iteration (\<open>py_iter\<close>) and string use (\<open>py_str\<close>); the
    messages \<open>ActionDispatch\<close> and \<open>ActionFeedback\<close>; the observable \<open>event\<close>s (publications,
    knowledge-base effect requests \<open>KbApply m 0/1\<close>, remote requests) and their
    projection \<open>proj k\<close> on one action instance \<open>k = (plan_id, action_id)\<close>.
  \<^item> \<open>Lifecycle\<close>: the per-instance contract of spec 4.3 as an automaton
    (\<open>lc_step\<close>/\<open>lc_run\<close>: DISPATCHED, start effects, non-terminal events, end effects only
    right before SUCCEEDED, exactly one terminal feedback), with \<open>lifecycle_prefix\<close>,
    \<open>lifecycle_complete\<close> and \<open>strategy_ok\<close> (what a run must emit).
  \<^item> \<open>Strategy\<close>: the interface every strategy implements: a step function
    \<open>'s stepper\<close> and the loop \<open>drive\<close>, a \<open>partial_function (option)\<close> whose value \<open>None\<close> is a
    run that never returns; its fuelled twin \<open>drive_fuel\<close> and the equivalence lemmas
    (\<open>drive_fuel_sound\<close>, \<open>drive_Some_fuel\<close>, \<open>drive_None_if_no_fuel\<close>); the contract
    \<open>step_contract\<close> and \<open>drive_strategy_ok\<close> (a step-wise contract gives a lifecycle-correct
    run); termination from a decreasing measure (\<open>drive_terminates\<close>).
  \<^item> \<open>Service\<close>, \<open>Actionlib\<close>, \<open>FSM\<close>: the three strategies (\<open>ServiceActionInterface\<close>,
    \<open>ActionlibActionInterface\<close>, \<open>FSMActionInterface\<close>). Their classes are not under src/;
    they are modelled from spec 3 and 4.3, each with construction from the YAML entry
    (\<open>mk_service\<close>, \<open>mk_actionlib\<close>, \<open>mk_fsm\<close>), a step function discharging
    \<open>step_contract\<close>, and its termination or non-termination lemmas. The remote side is an
    input: the service reply, the stream of actionlib server events (time passes once it
    is exhausted), the outcome oracle of the state machine's services.
  \<^item> \<open>Interface\<close>: \<open>action_interface\<close>, the closed set of variants, with \<open>get_action_name\<close>
    and \<open>run\<close>; the environment \<open>env\<close> a command meets; \<open>job\<close>, a run in flight, stepped by
    \<open>job_step\<close> so that runs of different commands can interleave.
  \<^item> \<open>Registry\<close>: \<open>parse_config\<close>, \<open>parse_actionlib\<close>, \<open>parse_service\<close>,
    \<open>parse_state_machine\<close> (lines 71-97), line by line: three independent \<open>if\<close>s that each
    re-read \<open>interface_type\<close>, Python's \<open>[]\<close> raising on a missing key, a later entry
    overwriting an earlier one. Its reference reading \<open>registry_of\<close> / \<open>entry_interface\<close>
    and the refinement \<open>parse_config_refines\<close>; the invariant \<open>reg_wf\<close>.
  \<^item> \<open>Registry_Order\<close>: the order of the configuration entries. \<open>entry_ais\<close> is what one
    entry contributes; through the multiset of the contributed interfaces, a permutation
    of entries with distinct names gives the same registry (C29).
  \<^item> \<open>Manager\<close>: the node state \<open>ros_node\<close> (the class attribute \<open>_action_interfaces\<close>,
    publisher, subscriber, configuration, log, shutdown request, event trace);
    \<open>__init__\<close> as \<open>aim_init\<close> (lines 21-46): the early return of \<open>config_missing\<close>, or the
    statement list \<open>init_body\<close>, \<open>init_connect\<close> (lines 36-42, with rospy's check of a topic
    name, \<open>ros_topic\<close>) then \<open>init_parse\<close> (lines 44-46), run by \<open>run_body\<close>;
    \<open>init_prefix\<close> is the node after the first statements, as the subscriber's thread
    sees it while \<open>__init__\<close> runs; \<open>main\<close> (lines 100-103); the log messages of lines 32 and 46 as the
    code formats them with the node name of line 101 (\<open>kcl_log\<close>, \<open>node_name\<close>);
    \<open>dispatch_callback\<close> (lines 49-67), which returns the started run as a \<open>job\<close>, and
    \<open>dispatch_sync\<close>, the callback with its run driven to completion as the code does
    inline at line 67; the node's type invariant \<open>node_wf\<close> (registry well formed;
    publisher and knowledge-base link present whenever the subscriber is).
  \<^item> \<open>Startup\<close>: the claims about construction and \<open>main\<close> (C5, C9, C10, C12, C13, C14,
    C20, C21, C26, C27, C31), including the end-to-end service scenario from the
    configuration to the callback's events (C5).
  \<^item> \<open>Dispatch\<close>: what the callback does for a registered actionlib interface with and
    without a timeout and at the deadline (C15-C17, C30), and for a state machine that
    terminates by a rank or cycles for ever (C18, C19).
  \<^item> \<open>System\<close>: the running node as a concurrent system \<open>sys\<close> (node, commands still to
    arrive, runs in flight), its step relation \<open>sys_step\<close> (deliver a command, or step any
    run), \<open>reachable\<close> from \<open>main\<close>, and the invariant \<open>sys_inv\<close> with \<open>sys_step_inv\<close>.
  \<^item> \<open>Spin\<close>: rospy's actual schedule (lines 42 and 103): one callback thread, a receive
    queue of \<open>dispatch_queue_size\<close> = 10 that drops its oldest message when full, the run
    executed inside the callback. \<open>spin_step\<close> / \<open>spin_run\<close> over arrivals, deliveries and
    run steps; \<open>abs_spin\<close> maps it into \<open>System\<close>, where its deliveries and run steps are
    \<open>sys_step\<close>s (\<open>spin_step_refines\<close>), so lifecycle safety carries over (C23); a run that
    never returns starves the thread (C24); a full queue loses a command (C25); the
    node's type invariant along every schedule (C28).
  \<^item> this theory: the system-level claims C1 and C2.

  \<^bold>\<open>What is proved.\<close> Lifecycle safety of every action instance under any interleaving
  (C1, by rule induction on \<open>reachable\<close> with \<open>sys_step_inv\<close>) and completeness once no run
  is in flight (C2); the callback's behaviour on registered and unregistered names
  (C3, C4), and the spec's service scenario for every configuration, from \<open>main\<close> to the
  exact events of the callback (C5); the registry: refinement of the three \<open>if\<close>s, last
  entry wins, invariant, silent skip of unknown types (C6-C8, C11), and order
  independence for distinct names (C29); construction and shutdown (C9, C10); the
  exceptions that escape \<open>main\<close>: an entry without \<open>interface_type\<close> (C12), a bad topic
  name (C21), a mapping instead of a list (C27), an entry its constructor rejects (C31);
  the window inside \<open>__init__\<close> in which the subscriber is live and the registry still
  empty (C13); the registry shared by all instances (C14); the actionlib and
  state-machine runs that return, with bounds, and those that never return, through the
  callback (C15-C19), and the exact actionlib deadline (C30); the topic parameters and
  their defaults (C20); a command delivered twice breaks its lifecycle (C22); under
  rospy's schedule: lifecycle safety by refinement (C23), a run that never returns
  starves the node (C24), a full queue loses the oldest command for good (C25), and the
  node's type invariant (C28); a configuration that registers nothing still starts the
  node (C26).

  \<^bold>\<open>Fuel and timeouts.\<close> \<open>drive\<close> itself has no bound; fuel appears only in statements:
  an actionlib run with timeout \<open>d\<close> against \<open>r\<close> silent server events returns within
  \<open>r + d + 2\<close> steps (one to send, one per event, \<open>d + 1\<close> ticks); a state machine whose
  transitions out of non-terminal states decrease a rank returns (\<open>drive_terminates\<close>
  with the rank as measure). Non-returning runs are stated as \<open>dispatch_sync ... = None\<close>,
  proved from \<open>drive_None_if_no_fuel\<close>: no amount of fuel gives a result. The actionlib
  deadline is exact: with timeout \<open>d\<close>, an answer after \<open>k\<close> ticks counts iff \<open>k < d\<close> (C30).

  \<^bold>\<open>Not modelled.\<close> The knowledge base (only its effect requests are events; the code
  ignores their answer, and its store semantics are outside the spec's scope), rospy's
  transport beyond the subscriber queue and its single callback thread (several
  publishers on the dispatch topic, which rospy serves on several threads, are covered by
  the interleavings of \<open>System\<close> only), where rospy writes its log lines, and the internals
  of the services and action servers the strategies call. The classes the file imports
  (lines 3-10: the strategies, \<open>RPKnowledgeBaseLink\<close>, the message types) are not under
  src/ and are modelled from the spec. Every statement of ActionInterfaceManager.py is
  translated by a definition of the map; the lines left over are the imports, comments
  and blank lines. When an exception ends \<open>__init__\<close>, the model keeps no state: Python
  would keep the publisher, the subscriber and the entries already written into the
  class dictionary of line 19, but the exception also ends \<open>main\<close> and the process.
\<close>

section \<open>Properties of the running system\<close>

subsection \<open>Claims about the running system\<close>

text \<open>C1: in every reachable state of the running system, whatever the interleaving of
  deliveries and strategy steps, the events of each action instance (plan id, action id)
  are a prefix of its lifecycle: DISPATCHED first, then the start-effect request, then
  non-terminal events, and at most one terminal feedback, which nothing follows; a
  SUCCEEDED is preceded by the end-effect request.\<close>

theorem system_lifecycle_safe:
  assumes "reachable s"
  shows "lifecycle_prefix (proj k (trace (node s))) \<and> length (filter is_terminal (proj k (trace (node s)))) \<le> 1"
  using reachable_sys_inv [OF assms] by (rule sys_inv_lifecycle)

text \<open>C2: once no run is in flight, every action instance with any event has a complete
  lifecycle, ending in exactly one terminal feedback that follows all its other events.\<close>

theorem system_quiescent_complete:
  assumes "reachable s" and "jobs s = []" and "proj k (trace (node s)) \<noteq> []"
  shows "lifecycle_complete (proj k (trace (node s))) \<and>
         (\<exists>mid fin. proj k (trace (node s)) = mid @ [fin] \<and> is_terminal fin \<and> (\<forall>e\<in>set mid. \<not> is_terminal e))"
proof -
  from reachable_sys_inv [OF assms(1)] have
    "lc_run Idle (proj k (trace (node s))) = Some (expected_lc (job_keys (jobs s)) (trace (node s)) k)"
    by (rule sys_inv_lc)
  with assms(2,3) have run: "lc_run Idle (proj k (trace (node s))) = Some Done"
    by (simp add: expected_lc_def job_keys_def)
  then have "\<exists>mid fin. proj k (trace (node s)) = mid @ [fin] \<and> is_terminal fin \<and> (\<forall>e\<in>set mid. \<not> is_terminal e)"
    by (rule lc_run_Done_shape) simp
  with run show ?thesis by (simp add: lifecycle_complete_def)
qed

theorem system_lifecycle_safe_witness:
  "\<exists>s. reachable s \<and> jobs s \<noteq> [] \<and> proj (1, 5) (trace (node s)) \<noteq> [] \<and>
       lifecycle_prefix (proj (1, 5) (trace (node s))) \<and>
       length (filter is_terminal (proj (1, 5) (trace (node s)))) \<le> 1"
proof -
  from pickup_run obtain s1 where r: "reachable s1" and "jobs s1 \<noteq> []" "proj (1, 5) (trace (node s1)) \<noteq> []"
    by blast
  with system_lifecycle_safe [OF r, of "(1, 5)"] show ?thesis by blast
qed

theorem system_quiescent_complete_witness:
  "\<exists>s. reachable s \<and> jobs s = [] \<and> proj (1, 5) (trace (node s)) \<noteq> [] \<and>
       lifecycle_complete (proj (1, 5) (trace (node s)))"
proof -
  from pickup_run obtain s3 where r: "reachable s3" and j: "jobs s3 = []" and ne: "proj (1, 5) (trace (node s3)) \<noteq> []"
    by blast
  with system_quiescent_complete [OF r j ne] show ?thesis by blast
qed

end
